(* ===== verification/Prelude.thy ===== *)
theory Prelude
  imports Main "HOL-Library.Word"
begin

text \<open>
  Shared vocabulary of the development: the machine types of the daemon's target ABI
  (32-bit, little-endian, unsigned plain \<^verbatim>\<open>char\<close>: \<^verbatim>\<open>daemon/elf.c\<close> fixes
  \<^verbatim>\<open>SIZEOF_VOID_P\<close> to 4), NUL-terminated strings in byte memory, little-endian encoding
  of integers, and the collections of rewrite rules the component theories share.
\<close>

unbundle bit_operations_syntax

type_synonym byte = "8 word"
type_synonym u16 = "16 word"
type_synonym u32 = "32 word"
type_synonym u64 = "64 word"
type_synonym bytes = "byte list"

named_theorems parse_simps \<open>evaluation of the message parsers on encoded input\<close>
named_theorems size_simps \<open>lengths of packed data\<close>
named_theorems eval_simps \<open>kernel evaluation of byte-level definitions on literals\<close>
named_theorems frame_simps \<open>state components an operation leaves alone\<close>

section \<open>Little-endian integers in memory\<close>

text \<open>\<open>le_enc n w\<close> is the \<open>n\<close> bytes a little-endian CPU stores for \<open>w\<close>; \<open>le_dec\<close> reads them back.\<close>

primrec le_enc :: "nat \<Rightarrow> 'a::len word \<Rightarrow> bytes" where
  "le_enc 0 w = []"
| "le_enc (Suc n) w = ucast w # le_enc n (drop_bit 8 w)"

primrec le_dec :: "bytes \<Rightarrow> 'a::len word" where
  "le_dec [] = 0"
| "le_dec (b # bs) = ucast b OR push_bit 8 (le_dec bs)"

lemma le_enc_numeral:
  "le_enc (numeral k) w = ucast w # le_enc (pred_numeral k) (drop_bit 8 w)"
  by (simp add: numeral_eq_Suc)

lemma length_le_enc [simp, size_simps]: "length (le_enc n w) = n"
  by (induction n arbitrary: w) auto

lemma le_dec_enc: "le_dec (le_enc n w) = take_bit (8 * n) w"
proof (induction n arbitrary: w)
  case (Suc n)
  show ?case
    by (simp add: Suc.IH) (rule bit_word_eqI, auto simp: bit_simps)
qed simp

lemma bit_le_dec: "bit (le_dec bs :: 'a::len word) n \<Longrightarrow> n < 8 * length bs"
proof (induction bs arbitrary: n)
  case (Cons b bs)
  then show ?case
    by (cases "n < 8") (auto simp: bit_simps dest: bit_imp_le_length Cons.IH)
qed simp

lemma le_enc_dec:
  "8 * length bs \<le> LENGTH('a::len) \<Longrightarrow> le_enc (length bs) (le_dec bs :: 'a word) = bs"
proof (induction bs)
  case (Cons b bs)
  have hd: "ucast (ucast b OR push_bit 8 (le_dec bs :: 'a word)) = b"
    using Cons.prems by (intro bit_word_eqI) (auto simp: bit_simps)
  have tl: "drop_bit 8 (ucast b OR push_bit 8 (le_dec bs :: 'a word)) = le_dec bs"
    using Cons.prems
    by (intro bit_word_eqI) (auto simp: bit_simps dest: bit_imp_le_length bit_le_dec)
  from Cons have IH: "le_enc (length bs) (le_dec bs :: 'a word) = bs" by simp
  show ?case by (simp only: length_Cons le_dec.simps le_enc.simps hd tl IH)
qed simp

definition le32 :: "u32 \<Rightarrow> bytes" where "le32 w = le_enc 4 w"
definition le64 :: "u64 \<Rightarrow> bytes" where "le64 w = le_enc 8 w"

lemma le32_dec [simp]: "le_dec (le32 w) = w"
  by (simp add: le32_def le_dec_enc take_bit_word_eq_self)

lemma le64_dec [simp]: "le_dec (le64 w) = w"
  by (simp add: le64_def le_dec_enc take_bit_word_eq_self)

lemma le32_of_dec: "length bs = 4 \<Longrightarrow> le32 (le_dec bs) = bs"
  using le_enc_dec [of bs, where 'a = 32] by (simp add: le32_def)

lemma le64_of_dec: "length bs = 8 \<Longrightarrow> le64 (le_dec bs) = bs"
  using le_enc_dec [of bs, where 'a = 64] by (simp add: le64_def)

lemma length_le32 [simp, size_simps]: "length (le32 w) = 4"
  by (simp add: le32_def)

lemma length_le64 [simp, size_simps]: "length (le64 w) = 8"
  by (simp add: le64_def)

lemma le32_inject [simp]: "le32 a = le32 b \<longleftrightarrow> a = b"
  by (metis le32_dec)

lemma le64_inject [simp]: "le64 a = le64 b \<longleftrightarrow> a = b"
  by (metis le64_dec)

lemmas le_eval [eval_simps] = le32_def le64_def le_enc_numeral

section \<open>NUL-terminated strings\<close>

text \<open>
  \<open>cstrlen mem\<close> is \<^verbatim>\<open>strlen\<close> on the bytes from a pointer to the end of the object it
  points into; \<open>None\<close> is a read past the object, which C leaves undefined.
\<close>

fun cstrlen :: "bytes \<Rightarrow> nat option" where
  "cstrlen [] = None"
| "cstrlen (b # bs) = (if b = 0 then Some 0 else map_option Suc (cstrlen bs))"

text \<open>The bytes of a string as the C program holds them: no NUL inside.\<close>

abbreviation is_str :: "bytes \<Rightarrow> bool" where "is_str s \<equiv> 0 \<notin> set s"

text \<open>The string literals of the source, as bytes.\<close>

definition cstr :: "string \<Rightarrow> bytes" where "cstr s = map of_char s"

lemma cstrlen_append [simp]: "is_str s \<Longrightarrow> cstrlen (s @ 0 # rest) = Some (length s)"
  by (induction s) auto

lemma cstrlen_None_iff: "cstrlen bs = None \<longleftrightarrow> 0 \<notin> set bs"
  by (induction bs) auto

lemma cstrlen_SomeD:
  "cstrlen bs = Some n \<Longrightarrow> n < length bs \<and> bs ! n = 0 \<and> is_str (take n bs)"
  by (induction bs arbitrary: n) (auto split: if_splits)

lemma cstrlen_Some_less: "cstrlen bs = Some n \<Longrightarrow> n < length bs"
  using cstrlen_SomeD by blast

lemma cstrlen_split:
  assumes "cstrlen bs = Some n"
  shows "bs = take n bs @ 0 # drop (Suc n) bs"
proof -
  from cstrlen_SomeD [OF assms] have "n < length bs" and "bs ! n = 0" by auto
  with id_take_nth_drop [of n bs] show ?thesis by metis
qed

lemma length_cstr [simp, size_simps]: "length (cstr s) = length s"
  by (simp add: cstr_def)

section \<open>Word arithmetic within bounds\<close>

lemma unat_of_nat_small [simp]:
  "n < 2 ^ LENGTH('a) \<Longrightarrow> unat (of_nat n :: 'a::len word) = n"
  by (simp add: unat_of_nat take_bit_eq_mod)

lemma unat_add_small:
  "unat a + unat b < 2 ^ LENGTH('a) \<Longrightarrow> unat (a + b) = unat a + unat (b :: 'a::len word)"
  by (simp add: unat_word_ariths)

lemma unat_mult_small:
  "unat a * unat b < 2 ^ LENGTH('a) \<Longrightarrow> unat (a * b) = unat a * unat (b :: 'a::len word)"
  by (simp add: unat_word_ariths)

lemma unat_sub_small:
  "unat b \<le> unat a \<Longrightarrow> unat (a - b) = unat a - unat (b :: 'a::len word)"
  by (simp add: unat_sub_if')

end
