(* ===== verification/Protocol_Types.thy ===== *)
theory Protocol_Types
  imports Prelude
begin

text \<open>
  The vocabulary of the wire protocol, from \<^verbatim>\<open>daemon/da_protocol.h\<close>: message numbers,
  error codes, feature flags, the configuration record, and the printing routines of
  \<^verbatim>\<open>daemon/da_protocol.c\<close> over them.
\<close>

section \<open>Message numbers\<close>

datatype HostMessageT =
  NMSG_KEEP_ALIVE | NMSG_START | NMSG_STOP | NMSG_CONFIG | NMSG_BINARY_INFO
   | NMSG_GET_TARGET_INFO | NMSG_SWAP_INST_ADD | NMSG_SWAP_INST_REMOVE | NMSG_GET_SCREENSHOT
   | NMSG_GET_PROCESS_ADD_INFO | NMSG_KEEP_ALIVE_ACK | NMSG_START_ACK | NMSG_STOP_ACK
   | NMSG_CONFIG_ACK | NMSG_BINARY_INFO_ACK | NMSG_SWAP_INST_ACK | NMSG_GET_TARGET_INFO_ACK
   | NMSG_SWAP_INST_ADD_ACK | NMSG_SWAP_INST_REMOVE_ACK | NMSG_GET_PROCESS_ADD_INFO_ACK
   | NMSG_PROCESS_INFO | NMSG_TERMINATE | NMSG_ERROR | NMSG_SAMPLE | NMSG_SYSTEM | NMSG_IMAGE
   | NMSG_RECORD | NMSG_FUNCTION_ENTRY | NMSG_FUNCTION_EXIT | NMSG_CONTEXT_SWITCH_ENTRY
   | NMSG_CONTEXT_SWITCH_EXIT

primrec msg_val :: "HostMessageT \<Rightarrow> u32" where
  "msg_val NMSG_KEEP_ALIVE = 0x0001"
| "msg_val NMSG_START = 0x0002"
| "msg_val NMSG_STOP = 0x0003"
| "msg_val NMSG_CONFIG = 0x0004"
| "msg_val NMSG_BINARY_INFO = 0x0005"
| "msg_val NMSG_GET_TARGET_INFO = 0x0007"
| "msg_val NMSG_SWAP_INST_ADD = 0x0008"
| "msg_val NMSG_SWAP_INST_REMOVE = 0x0009"
| "msg_val NMSG_GET_SCREENSHOT = 0x0010"
| "msg_val NMSG_GET_PROCESS_ADD_INFO = 0x0011"
| "msg_val NMSG_KEEP_ALIVE_ACK = 0x1001"
| "msg_val NMSG_START_ACK = 0x1002"
| "msg_val NMSG_STOP_ACK = 0x1003"
| "msg_val NMSG_CONFIG_ACK = 0x1004"
| "msg_val NMSG_BINARY_INFO_ACK = 0x1005"
| "msg_val NMSG_SWAP_INST_ACK = 0x1006"
| "msg_val NMSG_GET_TARGET_INFO_ACK = 0x1007"
| "msg_val NMSG_SWAP_INST_ADD_ACK = 0x1008"
| "msg_val NMSG_SWAP_INST_REMOVE_ACK = 0x1009"
| "msg_val NMSG_GET_PROCESS_ADD_INFO_ACK = 0x1011"
| "msg_val NMSG_PROCESS_INFO = 0x0001"
| "msg_val NMSG_TERMINATE = 0x0002"
| "msg_val NMSG_ERROR = 0x0003"
| "msg_val NMSG_SAMPLE = 0x0004"
| "msg_val NMSG_SYSTEM = 0x0005"
| "msg_val NMSG_IMAGE = 0x0006"
| "msg_val NMSG_RECORD = 0x0007"
| "msg_val NMSG_FUNCTION_ENTRY = 0x0008"
| "msg_val NMSG_FUNCTION_EXIT = 0x0009"
| "msg_val NMSG_CONTEXT_SWITCH_ENTRY = 0x0010"
| "msg_val NMSG_CONTEXT_SWITCH_EXIT = 0x0011"

primrec msg_name :: "HostMessageT \<Rightarrow> string" where
  "msg_name NMSG_KEEP_ALIVE = ''NMSG_KEEP_ALIVE''"
| "msg_name NMSG_START = ''NMSG_START''"
| "msg_name NMSG_STOP = ''NMSG_STOP''"
| "msg_name NMSG_CONFIG = ''NMSG_CONFIG''"
| "msg_name NMSG_BINARY_INFO = ''NMSG_BINARY_INFO''"
| "msg_name NMSG_GET_TARGET_INFO = ''NMSG_GET_TARGET_INFO''"
| "msg_name NMSG_SWAP_INST_ADD = ''NMSG_SWAP_INST_ADD''"
| "msg_name NMSG_SWAP_INST_REMOVE = ''NMSG_SWAP_INST_REMOVE''"
| "msg_name NMSG_GET_SCREENSHOT = ''NMSG_GET_SCREENSHOT''"
| "msg_name NMSG_GET_PROCESS_ADD_INFO = ''NMSG_GET_PROCESS_ADD_INFO''"
| "msg_name NMSG_KEEP_ALIVE_ACK = ''NMSG_KEEP_ALIVE_ACK''"
| "msg_name NMSG_START_ACK = ''NMSG_START_ACK''"
| "msg_name NMSG_STOP_ACK = ''NMSG_STOP_ACK''"
| "msg_name NMSG_CONFIG_ACK = ''NMSG_CONFIG_ACK''"
| "msg_name NMSG_BINARY_INFO_ACK = ''NMSG_BINARY_INFO_ACK''"
| "msg_name NMSG_SWAP_INST_ACK = ''NMSG_SWAP_INST_ACK''"
| "msg_name NMSG_GET_TARGET_INFO_ACK = ''NMSG_GET_TARGET_INFO_ACK''"
| "msg_name NMSG_SWAP_INST_ADD_ACK = ''NMSG_SWAP_INST_ADD_ACK''"
| "msg_name NMSG_SWAP_INST_REMOVE_ACK = ''NMSG_SWAP_INST_REMOVE_ACK''"
| "msg_name NMSG_GET_PROCESS_ADD_INFO_ACK = ''NMSG_GET_PROCESS_ADD_INFO_ACK''"
| "msg_name NMSG_PROCESS_INFO = ''NMSG_PROCESS_INFO''"
| "msg_name NMSG_TERMINATE = ''NMSG_TERMINATE''"
| "msg_name NMSG_ERROR = ''NMSG_ERROR''"
| "msg_name NMSG_SAMPLE = ''NMSG_SAMPLE''"
| "msg_name NMSG_SYSTEM = ''NMSG_SYSTEM''"
| "msg_name NMSG_IMAGE = ''NMSG_IMAGE''"
| "msg_name NMSG_RECORD = ''NMSG_RECORD''"
| "msg_name NMSG_FUNCTION_ENTRY = ''NMSG_FUNCTION_ENTRY''"
| "msg_name NMSG_FUNCTION_EXIT = ''NMSG_FUNCTION_EXIT''"
| "msg_name NMSG_CONTEXT_SWITCH_ENTRY = ''NMSG_CONTEXT_SWITCH_ENTRY''"
| "msg_name NMSG_CONTEXT_SWITCH_EXIT = ''NMSG_CONTEXT_SWITCH_EXIT''"

text \<open>
  \<open>msg_ID_str\<close> compares the number with each name in turn and returns the first that fits; the
  device-to-host names at the end of the chain reuse the numbers of the requests at its start.
\<close>

definition msg_ID_chain :: "HostMessageT list" where
  "msg_ID_chain = [
     NMSG_KEEP_ALIVE, NMSG_START, NMSG_STOP, NMSG_CONFIG, NMSG_BINARY_INFO, NMSG_GET_TARGET_INFO
     , NMSG_SWAP_INST_ADD, NMSG_SWAP_INST_REMOVE, NMSG_GET_SCREENSHOT, NMSG_GET_PROCESS_ADD_INFO
     , NMSG_KEEP_ALIVE_ACK, NMSG_START_ACK, NMSG_STOP_ACK, NMSG_CONFIG_ACK, NMSG_BINARY_INFO_ACK
     , NMSG_SWAP_INST_ACK, NMSG_GET_TARGET_INFO_ACK, NMSG_SWAP_INST_ADD_ACK
     , NMSG_SWAP_INST_REMOVE_ACK, NMSG_GET_PROCESS_ADD_INFO_ACK, NMSG_PROCESS_INFO
     , NMSG_TERMINATE, NMSG_ERROR, NMSG_SAMPLE, NMSG_SYSTEM, NMSG_IMAGE, NMSG_RECORD
     , NMSG_FUNCTION_ENTRY, NMSG_FUNCTION_EXIT, NMSG_CONTEXT_SWITCH_ENTRY
     , NMSG_CONTEXT_SWITCH_EXIT]"

definition msg_ID_str :: "u32 \<Rightarrow> string" where
  "msg_ID_str ID =
     (case find (\<lambda>check. ID = msg_val check) msg_ID_chain of
        Some check \<Rightarrow> msg_name check
      | None \<Rightarrow> ''HZ'')"

section \<open>Error codes\<close>

datatype ErrorCode =
  ERR_NO | ERR_LOCKFILE_CREATE_FAILED | ERR_ALREADY_RUNNING | ERR_INITIALIZE_SYSTEM_INFO_FAILED
   | ERR_HOST_SERVER_SOCKET_CREATE_FAILED | ERR_TARGET_SERVER_SOCKET_CREATE_FAILED
   | ERR_SIGNAL_MASK_SETTING_FAILED | ERR_WRONG_MESSAGE_FORMAT | ERR_WRONG_MESSAGE_TYPE
   | ERR_WRONG_MESSAGE_DATA | ERR_CANNOT_START_PROFILING | ERR_SERV_SOCK_CREATE
   | ERR_SERV_SOCK_BIND | ERR_SERV_SOCK_LISTEN | ERR_UNKNOWN

primrec err_val :: "ErrorCode \<Rightarrow> int" where
  "err_val ERR_NO = 0"
| "err_val ERR_LOCKFILE_CREATE_FAILED = -101"
| "err_val ERR_ALREADY_RUNNING = -102"
| "err_val ERR_INITIALIZE_SYSTEM_INFO_FAILED = -103"
| "err_val ERR_HOST_SERVER_SOCKET_CREATE_FAILED = -104"
| "err_val ERR_TARGET_SERVER_SOCKET_CREATE_FAILED = -105"
| "err_val ERR_SIGNAL_MASK_SETTING_FAILED = -106"
| "err_val ERR_WRONG_MESSAGE_FORMAT = -201"
| "err_val ERR_WRONG_MESSAGE_TYPE = -202"
| "err_val ERR_WRONG_MESSAGE_DATA = -203"
| "err_val ERR_CANNOT_START_PROFILING = -204"
| "err_val ERR_SERV_SOCK_CREATE = -900"
| "err_val ERR_SERV_SOCK_BIND = -901"
| "err_val ERR_SERV_SOCK_LISTEN = -902"
| "err_val ERR_UNKNOWN = -999"

text \<open>\<open>msgErrStr\<close> takes any \<^verbatim>\<open>int\<close>; what is not a listed code is an unknown error.\<close>

definition msgErrStr :: "int \<Rightarrow> string" where
  "msgErrStr err =
     (if err = err_val ERR_NO then ''success''
      else if err = err_val ERR_LOCKFILE_CREATE_FAILED then ''lock file create failed''
      else if err = err_val ERR_ALREADY_RUNNING then ''already running''
      else if err = err_val ERR_INITIALIZE_SYSTEM_INFO_FAILED then ''initialize system info failed''
      else if err = err_val ERR_HOST_SERVER_SOCKET_CREATE_FAILED then ''host server socket create failed''
      else if err = err_val ERR_TARGET_SERVER_SOCKET_CREATE_FAILED then ''target server socket create failed''
      else if err = err_val ERR_SIGNAL_MASK_SETTING_FAILED then ''ERR SIGNAL MASK SETTING FAILED''
      else if err = err_val ERR_WRONG_MESSAGE_FORMAT then ''wrong message format''
      else if err = err_val ERR_WRONG_MESSAGE_TYPE then ''wrong message type''
      else if err = err_val ERR_WRONG_MESSAGE_DATA then ''wrong message data''
      else if err = err_val ERR_CANNOT_START_PROFILING then ''cannot start profiling''
      else if err = err_val ERR_SERV_SOCK_CREATE then ''server socket creation failed (written in /tmp/da.port file)''
      else if err = err_val ERR_SERV_SOCK_BIND then ''server socket bind failed (written in /tmp/da.port file)''
      else if err = err_val ERR_SERV_SOCK_LISTEN then ''server socket listen failed (written in /tmp/da.port file)''
      else ''unknown error'')"

section \<open>Feature flags\<close>

datatype feature_code =
  FL_RESERVED1 | FL_FUNCTION_PROFILING | FL_MEMORY_ALLOC_PROBING | FL_FILE_API_PROBING
   | FL_THREAD_API_PROBING | FL_OSP_UI_API_PROBING | FL_SCREENSHOT | FL_USER_EVENT
   | FL_RECORDING | FL_SYSTCALL_FILE | FL_SYSTCALL_IPC | FL_SYSTCALL_PROCESS
   | FL_SYSTCALL_SIGNAL | FL_SYSTCALL_NETWORK | FL_SYSTCALL_DESC | FL_CONTEXT_SWITCH
   | FL_NETWORK_API_PROBING | FL_OPENGL_API_PROBING | FL_FUNCTION_SAMPLING | FL_RESERVED2
   | FL_MEMORY_ALLOC_ALWAYS_PROBING | FL_FILE_API_ALWAYS_PROBING | FL_THREAD_API_ALWAYS_PROBING
   | FL_OSP_UI_API_ALWAYS_PROBING | FL_NETWORK_API_ALWAYS_PROBING | FL_OPENGL_API_ALWAYS_PROBING
   | FL_RESERVED3 | FL_SYSTEM_CPU | FL_SYSTEM_MEMORY | FL_SYSTEM_PROCESS | FL_SYSTEM_THREAD_LOAD
   | FL_SYSTEM_PROCESSES_LOAD | FL_SYSTEM_DISK | FL_SYSTEM_NETWORK | FL_SYSTEM_DEVICE
   | FL_SYSTEM_ENERGY | FL_RESERVED4

primrec fl :: "feature_code \<Rightarrow> u64" where
  "fl FL_RESERVED1 = 0x000000000003"
| "fl FL_FUNCTION_PROFILING = 0x000000000004"
| "fl FL_MEMORY_ALLOC_PROBING = 0x000000000008"
| "fl FL_FILE_API_PROBING = 0x000000000010"
| "fl FL_THREAD_API_PROBING = 0x000000000020"
| "fl FL_OSP_UI_API_PROBING = 0x000000000040"
| "fl FL_SCREENSHOT = 0x000000000080"
| "fl FL_USER_EVENT = 0x000000000100"
| "fl FL_RECORDING = 0x000000000200"
| "fl FL_SYSTCALL_FILE = 0x000000000400"
| "fl FL_SYSTCALL_IPC = 0x000000000800"
| "fl FL_SYSTCALL_PROCESS = 0x000000001000"
| "fl FL_SYSTCALL_SIGNAL = 0x000000002000"
| "fl FL_SYSTCALL_NETWORK = 0x000000004000"
| "fl FL_SYSTCALL_DESC = 0x000000008000"
| "fl FL_CONTEXT_SWITCH = 0x000000010000"
| "fl FL_NETWORK_API_PROBING = 0x000000020000"
| "fl FL_OPENGL_API_PROBING = 0x000000040000"
| "fl FL_FUNCTION_SAMPLING = 0x000000080000"
| "fl FL_RESERVED2 = 0x00000FF00000"
| "fl FL_MEMORY_ALLOC_ALWAYS_PROBING = 0x000010000000"
| "fl FL_FILE_API_ALWAYS_PROBING = 0x000020000000"
| "fl FL_THREAD_API_ALWAYS_PROBING = 0x000040000000"
| "fl FL_OSP_UI_API_ALWAYS_PROBING = 0x000080000000"
| "fl FL_NETWORK_API_ALWAYS_PROBING = 0x000100000000"
| "fl FL_OPENGL_API_ALWAYS_PROBING = 0x000200000000"
| "fl FL_RESERVED3 = 0x000c00000000"
| "fl FL_SYSTEM_CPU = 0x001000000000"
| "fl FL_SYSTEM_MEMORY = 0x002000000000"
| "fl FL_SYSTEM_PROCESS = 0x004000000000"
| "fl FL_SYSTEM_THREAD_LOAD = 0x008000000000"
| "fl FL_SYSTEM_PROCESSES_LOAD = 0x010000000000"
| "fl FL_SYSTEM_DISK = 0x020000000000"
| "fl FL_SYSTEM_NETWORK = 0x040000000000"
| "fl FL_SYSTEM_DEVICE = 0x080000000000"
| "fl FL_SYSTEM_ENERGY = 0x100000000000"
| "fl FL_RESERVED4 = 0xe00000000000"

definition FL_ALL_FEATURES :: u64 where
  "FL_ALL_FEATURES =
     0x3FFFFFFFFFFF AND NOT (fl FL_RESERVED1) AND NOT (fl FL_RESERVED2)
       AND NOT (fl FL_RESERVED3) AND NOT (fl FL_RESERVED4)"

definition FL_SYSTEM_ENERGY_OLD :: u64 where
  "FL_SYSTEM_ENERGY_OLD = push_bit 26 1"

definition IS_OPT_SET_IN :: "feature_code \<Rightarrow> u64 \<Rightarrow> bool" where
  "IS_OPT_SET_IN opt reg \<longleftrightarrow> reg AND fl opt \<noteq> 0"

primrec feature_name :: "feature_code \<Rightarrow> string" where
  "feature_name FL_RESERVED1 = ''FL_RESERVED1''"
| "feature_name FL_FUNCTION_PROFILING = ''FL_FUNCTION_PROFILING''"
| "feature_name FL_MEMORY_ALLOC_PROBING = ''FL_MEMORY_ALLOC_PROBING''"
| "feature_name FL_FILE_API_PROBING = ''FL_FILE_API_PROBING''"
| "feature_name FL_THREAD_API_PROBING = ''FL_THREAD_API_PROBING''"
| "feature_name FL_OSP_UI_API_PROBING = ''FL_OSP_UI_API_PROBING''"
| "feature_name FL_SCREENSHOT = ''FL_SCREENSHOT''"
| "feature_name FL_USER_EVENT = ''FL_USER_EVENT''"
| "feature_name FL_RECORDING = ''FL_RECORDING''"
| "feature_name FL_SYSTCALL_FILE = ''FL_SYSTCALL_FILE''"
| "feature_name FL_SYSTCALL_IPC = ''FL_SYSTCALL_IPC''"
| "feature_name FL_SYSTCALL_PROCESS = ''FL_SYSTCALL_PROCESS''"
| "feature_name FL_SYSTCALL_SIGNAL = ''FL_SYSTCALL_SIGNAL''"
| "feature_name FL_SYSTCALL_NETWORK = ''FL_SYSTCALL_NETWORK''"
| "feature_name FL_SYSTCALL_DESC = ''FL_SYSTCALL_DESC''"
| "feature_name FL_CONTEXT_SWITCH = ''FL_CONTEXT_SWITCH''"
| "feature_name FL_NETWORK_API_PROBING = ''FL_NETWORK_API_PROBING''"
| "feature_name FL_OPENGL_API_PROBING = ''FL_OPENGL_API_PROBING''"
| "feature_name FL_FUNCTION_SAMPLING = ''FL_FUNCTION_SAMPLING''"
| "feature_name FL_RESERVED2 = ''FL_RESERVED2''"
| "feature_name FL_MEMORY_ALLOC_ALWAYS_PROBING = ''FL_MEMORY_ALLOC_ALWAYS_PROBING''"
| "feature_name FL_FILE_API_ALWAYS_PROBING = ''FL_FILE_API_ALWAYS_PROBING''"
| "feature_name FL_THREAD_API_ALWAYS_PROBING = ''FL_THREAD_API_ALWAYS_PROBING''"
| "feature_name FL_OSP_UI_API_ALWAYS_PROBING = ''FL_OSP_UI_API_ALWAYS_PROBING''"
| "feature_name FL_NETWORK_API_ALWAYS_PROBING = ''FL_NETWORK_API_ALWAYS_PROBING''"
| "feature_name FL_OPENGL_API_ALWAYS_PROBING = ''FL_OPENGL_API_ALWAYS_PROBING''"
| "feature_name FL_RESERVED3 = ''FL_RESERVED3''"
| "feature_name FL_SYSTEM_CPU = ''FL_SYSTEM_CPU''"
| "feature_name FL_SYSTEM_MEMORY = ''FL_SYSTEM_MEMORY''"
| "feature_name FL_SYSTEM_PROCESS = ''FL_SYSTEM_PROCESS''"
| "feature_name FL_SYSTEM_THREAD_LOAD = ''FL_SYSTEM_THREAD_LOAD''"
| "feature_name FL_SYSTEM_PROCESSES_LOAD = ''FL_SYSTEM_PROCESSES_LOAD''"
| "feature_name FL_SYSTEM_DISK = ''FL_SYSTEM_DISK''"
| "feature_name FL_SYSTEM_NETWORK = ''FL_SYSTEM_NETWORK''"
| "feature_name FL_SYSTEM_DEVICE = ''FL_SYSTEM_DEVICE''"
| "feature_name FL_SYSTEM_ENERGY = ''FL_SYSTEM_ENERGY''"
| "feature_name FL_RESERVED4 = ''FL_RESERVED4''"

definition printed_features :: "feature_code list" where
  "printed_features = [
     FL_FUNCTION_PROFILING, FL_MEMORY_ALLOC_PROBING, FL_FILE_API_PROBING, FL_THREAD_API_PROBING
     , FL_OSP_UI_API_PROBING, FL_SCREENSHOT, FL_USER_EVENT, FL_RECORDING, FL_SYSTCALL_FILE
     , FL_SYSTCALL_IPC, FL_SYSTCALL_PROCESS, FL_SYSTCALL_SIGNAL, FL_SYSTCALL_NETWORK
     , FL_SYSTCALL_DESC, FL_CONTEXT_SWITCH, FL_NETWORK_API_PROBING, FL_OPENGL_API_PROBING
     , FL_FUNCTION_SAMPLING, FL_MEMORY_ALLOC_ALWAYS_PROBING, FL_FILE_API_ALWAYS_PROBING
     , FL_THREAD_API_ALWAYS_PROBING, FL_OSP_UI_API_ALWAYS_PROBING, FL_NETWORK_API_ALWAYS_PROBING
     , FL_OPENGL_API_ALWAYS_PROBING, FL_SYSTEM_CPU, FL_SYSTEM_MEMORY, FL_SYSTEM_PROCESS
     , FL_SYSTEM_THREAD_LOAD, FL_SYSTEM_PROCESSES_LOAD, FL_SYSTEM_DISK, FL_SYSTEM_NETWORK
     , FL_SYSTEM_DEVICE, FL_SYSTEM_ENERGY]"

text \<open>
  \<open>feature_code_str\<close>: each set flag is printed, with its delimiter, as long as the text and its
  NUL fit strictly into what is left of the buffer; the first one that does not ends the printing.
  The result is the text left in the buffer.
\<close>

definition feature_delim :: string where
  "feature_delim = '', '' @ [CHR 0x0A, CHR 0x09]"

fun print_features :: "u64 \<Rightarrow> feature_code list \<Rightarrow> nat \<Rightarrow> string" where
  "print_features feature0 [] buflen = []"
| "print_features feature0 (f # fs) buflen =
     (if IS_OPT_SET_IN f feature0 then
        (let lenin = length (feature_name f @ feature_delim) in
         if lenin + 1 < buflen
         then feature_name f @ feature_delim @ print_features feature0 fs (buflen - lenin)
         else [])
      else print_features feature0 fs buflen)"

definition feature_code_str :: "u64 \<Rightarrow> u64 \<Rightarrow> u32 \<Rightarrow> string" where
  "feature_code_str feature0 feature1 buflen = print_features feature0 printed_features (unat buflen)"

section \<open>Configuration\<close>

record conf_t =
  use_features0 :: u64
  use_features1 :: u64
  system_trace_period :: u32
  data_message_period :: u32

section \<open>Application types\<close>

datatype app_type_t =
  APP_TYPE_UNKNOWN | APP_TYPE_TIZEN | APP_TYPE_RUNNING | APP_TYPE_COMMON | APP_TYPE_WEB

primrec app_type_val :: "app_type_t \<Rightarrow> u32" where
  "app_type_val APP_TYPE_UNKNOWN = 0"
| "app_type_val APP_TYPE_TIZEN = 1"
| "app_type_val APP_TYPE_RUNNING = 2"
| "app_type_val APP_TYPE_COMMON = 3"
| "app_type_val APP_TYPE_WEB = 4"

section \<open>Acknowledgement numbers\<close>

text \<open>
  \<open>get_ack_msg_id\<close>: the acknowledgement of a request. \<open>None\<close> is the \<^verbatim>\<open>default\<close> branch, which
  ends the process with \<^verbatim>\<open>exit(EXIT_FAILURE)\<close>.
\<close>

definition get_ack_msg_id :: "u32 \<Rightarrow> u32 option" where
  "get_ack_msg_id mid =
     (if mid = msg_val NMSG_KEEP_ALIVE then Some (msg_val NMSG_KEEP_ALIVE_ACK)
      else if mid = msg_val NMSG_START then Some (msg_val NMSG_START_ACK)
      else if mid = msg_val NMSG_STOP then Some (msg_val NMSG_STOP_ACK)
      else if mid = msg_val NMSG_CONFIG then Some (msg_val NMSG_CONFIG_ACK)
      else if mid = msg_val NMSG_BINARY_INFO then Some (msg_val NMSG_BINARY_INFO_ACK)
      else if mid = msg_val NMSG_GET_TARGET_INFO then Some (msg_val NMSG_GET_TARGET_INFO_ACK)
      else if mid = msg_val NMSG_SWAP_INST_ADD then Some (msg_val NMSG_SWAP_INST_ADD_ACK)
      else if mid = msg_val NMSG_SWAP_INST_REMOVE then Some (msg_val NMSG_SWAP_INST_REMOVE_ACK)
      else if mid = msg_val NMSG_GET_PROCESS_ADD_INFO
        then Some (msg_val NMSG_GET_PROCESS_ADD_INFO_ACK)
      else None)"

text \<open>The requests that have an acknowledgement.\<close>

definition acked_requests :: "HostMessageT list" where
  "acked_requests = [NMSG_KEEP_ALIVE, NMSG_START, NMSG_STOP, NMSG_CONFIG, NMSG_BINARY_INFO,
     NMSG_GET_TARGET_INFO, NMSG_SWAP_INST_ADD, NMSG_SWAP_INST_REMOVE, NMSG_GET_PROCESS_ADD_INFO]"

section \<open>Facts\<close>

lemma get_ack_msg_id_iff:
  "get_ack_msg_id mid = None \<longleftrightarrow> mid \<notin> msg_val ` set acked_requests"
  by (simp add: get_ack_msg_id_def acked_requests_def)

lemma get_ack_msg_id_offset: "get_ack_msg_id mid = Some a \<Longrightarrow> a = mid + 0x1000"
  by (auto simp: get_ack_msg_id_def split: if_splits)

lemma get_ack_screenshot: "get_ack_msg_id (msg_val NMSG_GET_SCREENSHOT) = None"
  by (simp add: get_ack_msg_id_def)

lemma printed_features_mask:
  "foldr (OR) (map fl printed_features) 0 = FL_ALL_FEATURES"
  by (simp add: printed_features_def FL_ALL_FEATURES_def)

lemma foldr_or_bit:
  "bit (foldr (OR) ws (0 :: 'a::len word)) n \<longleftrightarrow> (\<exists>w \<in> set ws. bit w n)"
  by (induction ws) (auto simp: bit_simps)

lemma print_features_length:
  "print_features f0 fs n \<noteq> [] \<Longrightarrow> length (print_features f0 fs n) + 1 < n"
proof (induction fs arbitrary: n)
  case (Cons f fs)
  let ?l = "length (feature_name f @ feature_delim)"
  show ?case
  proof (cases "IS_OPT_SET_IN f f0 \<and> ?l + 1 < n")
    case True
    with Cons.IH [of "n - ?l"] show ?thesis
      by (cases "print_features f0 fs (n - ?l) = []") (auto simp: Let_def)
  next
    case False
    with Cons show ?thesis by (auto simp: Let_def split: if_splits)
  qed
qed simp

text \<open>The whole text of a flag word, without a buffer limit.\<close>

definition features_text :: "u64 \<Rightarrow> feature_code list \<Rightarrow> string" where
  "features_text f0 fs =
     concat (map (\<lambda>f. feature_name f @ feature_delim) (filter (\<lambda>f. IS_OPT_SET_IN f f0) fs))"

lemma print_features_complete:
  "length (features_text f0 fs) + 1 < n \<Longrightarrow> print_features f0 fs n = features_text f0 fs"
  by (induction fs arbitrary: n) (auto simp: features_text_def Let_def)

lemma features_text_bound:
  "length (features_text f0 fs) \<le> (\<Sum>f\<leftarrow>fs. length (feature_name f @ feature_delim))"
  by (induction fs) (auto simp: features_text_def)

lemma printed_features_total:
  "(\<Sum>f\<leftarrow>printed_features. length (feature_name f @ feature_delim)) = 781"
  by (simp add: printed_features_def feature_delim_def)

section \<open>Properties\<close>

text \<open>
  A request has an acknowledgement number exactly when it is one of the nine acknowledged
  requests, and then it is the request's number plus 0x1000. Every other number, the screenshot
  request's included, ends the process in \<^verbatim>\<open>get_ack_msg_id\<close>.
\<close>

theorem ack_id_of_request:
  "get_ack_msg_id mid = (if mid \<in> msg_val ` set acked_requests then Some (mid + 0x1000) else None)"
  using get_ack_msg_id_iff [of mid] get_ack_msg_id_offset [of mid]
  by (cases "get_ack_msg_id mid") auto

text \<open>
  A buffer of 783 bytes holds the names of any set of features completely; in a smaller one the
  text and its NUL still stay inside the buffer.
\<close>

theorem features_printed:
  assumes "0 < unat n"
  shows "length (feature_code_str f0 f1 n) < unat n
    \<and> (783 \<le> unat n \<longrightarrow> feature_code_str f0 f1 n = features_text f0 printed_features)"
proof
  show "length (feature_code_str f0 f1 n) < unat n"
    using assms print_features_length [of f0 printed_features "unat n"]
    by (cases "feature_code_str f0 f1 n = []") (auto simp: feature_code_str_def)
  show "783 \<le> unat n \<longrightarrow> feature_code_str f0 f1 n = features_text f0 printed_features"
    using features_text_bound [of f0 printed_features]
    unfolding printed_features_total feature_code_str_def
    by (auto intro: print_features_complete)
qed

theorem features_printed_witness:
  "length (feature_code_str 12 0 1024) < 1024
    \<and> feature_code_str 12 0 1024 = features_text 12 printed_features"
  using features_printed [of 1024 12 0, simplified] by blast

end
