(* ===== verification/Protocol_Check.thy ===== *)
theory Protocol_Check
  imports Protocol_Types
begin

text \<open>
  The validity checks on received values, \<^verbatim>\<open>daemon/da_protocol_check.c\<close> with the limits of
  \<^verbatim>\<open>daemon/da_protocol_check.h\<close>. Strings are the bytes before the terminating NUL. Whether a
  path exists is a question to the operating system and comes in as the predicate \<open>stat_ok\<close>.
\<close>

section \<open>Limits\<close>

definition APP_INFO_TYPE_MIN :: u32 where "APP_INFO_TYPE_MIN = 0x0001"
definition APP_INFO_TYPE_MAX :: u32 where "APP_INFO_TYPE_MAX = 0x0004"
definition CONF_SYSTRACE_PERIOD_MIN :: u32 where "CONF_SYSTRACE_PERIOD_MIN = 100"
definition CONF_SYSTRACE_PERIOD_MAX :: u32 where "CONF_SYSTRACE_PERIOD_MAX = 1000"
definition CONF_DATA_MSG_PERIOD_MIN :: u32 where "CONF_DATA_MSG_PERIOD_MIN = 1"
definition CONF_DATA_MSG_PERIOD_MAX :: u32 where "CONF_DATA_MSG_PERIOD_MAX = 100"
definition MAX_TARGET_COUNT :: nat where "MAX_TARGET_COUNT = 8"
definition US_APP_COUNT_MAX :: u32 where "US_APP_COUNT_MAX = of_nat MAX_TARGET_COUNT"
definition US_APP_INST_FUNC_MAX :: u32 where "US_APP_INST_FUNC_MAX = 100000"
definition US_APP_INST_LIB_MAX :: u32 where "US_APP_INST_LIB_MAX = 1000"
definition US_FUNC_ARGS :: bytes where "US_FUNC_ARGS = cstr ''bcdxpfw''"
definition US_FUNC_RETURN :: bytes where "US_FUNC_RETURN = cstr ''vnbcdxpfw''"

lemmas limit_defs =
  APP_INFO_TYPE_MIN_def APP_INFO_TYPE_MAX_def CONF_SYSTRACE_PERIOD_MIN_def
  CONF_SYSTRACE_PERIOD_MAX_def CONF_DATA_MSG_PERIOD_MIN_def CONF_DATA_MSG_PERIOD_MAX_def
  MAX_TARGET_COUNT_def US_APP_COUNT_MAX_def US_APP_INST_FUNC_MAX_def US_APP_INST_LIB_MAX_def

section \<open>Applications\<close>

definition check_app_type :: "u32 \<Rightarrow> bool" where
  "check_app_type app_type \<longleftrightarrow> APP_INFO_TYPE_MIN \<le> app_type \<and> app_type \<le> APP_INFO_TYPE_MAX"

text \<open>
  \<^verbatim>\<open>strtol(s, &tmp, 10)\<close> of the C library, for a 32-bit \<^verbatim>\<open>long\<close> in the C locale: leading
  white space, an optional sign, digits, a value clamped to the type, and in \<^verbatim>\<open>tmp\<close> what was not
  consumed (everything, when there is no digit).
\<close>

definition is_space :: "byte \<Rightarrow> bool" where
  "is_space c \<longleftrightarrow> c = 32 \<or> 9 \<le> c \<and> c \<le> 13"

definition is_digit :: "byte \<Rightarrow> bool" where
  "is_digit c \<longleftrightarrow> 48 \<le> c \<and> c \<le> 57"

definition digit_of :: "byte \<Rightarrow> int" where
  "digit_of c = uint c - 48"

fun scan_digits :: "int \<Rightarrow> bytes \<Rightarrow> int \<times> bytes" where
  "scan_digits acc [] = (acc, [])"
| "scan_digits acc (c # cs) =
     (if is_digit c then scan_digits (acc * 10 + digit_of c) cs else (acc, c # cs))"

definition scan_sign :: "bytes \<Rightarrow> int \<times> bytes" where
  "scan_sign s =
     (case s of
        [] \<Rightarrow> (1, [])
      | c # cs \<Rightarrow> if c = 45 then (-1, cs) else if c = 43 then (1, cs) else (1, s))"

definition clamp_long :: "int \<Rightarrow> int" where
  "clamp_long v = max (- (2 ^ 31)) (min (2 ^ 31 - 1) v)"

definition strtol10 :: "bytes \<Rightarrow> int \<times> bytes" where
  "strtol10 s =
     (let (sg, ds) = scan_sign (dropWhile is_space s) in
      if ds = [] \<or> \<not> is_digit (hd ds) then (0, s)
      else (let (v, tmp) = scan_digits 0 ds in (clamp_long (sg * v), tmp)))"

definition is_pid_string_valid :: "bytes \<Rightarrow> bool" where
  "is_pid_string_valid pid_str \<longleftrightarrow>
     (if pid_str = [] then True
      else (let (pid, tmp) = strtol10 pid_str in tmp = [] \<and> 0 < pid \<and> pid \<le> 32768))"

definition check_app_id :: "u32 \<Rightarrow> bytes \<Rightarrow> bool" where
  "check_app_id app_type app_id =
     (if app_type = app_type_val APP_TYPE_TIZEN then True
      else if app_type = app_type_val APP_TYPE_RUNNING then is_pid_string_valid app_id
      else if app_type = app_type_val APP_TYPE_COMMON then length app_id = 0
      else if app_type = app_type_val APP_TYPE_WEB then True
      else False)"

definition check_exec_path :: "(bytes \<Rightarrow> bool) \<Rightarrow> bytes \<Rightarrow> bool" where
  "check_exec_path stat_ok path = stat_ok path"

section \<open>Configuration\<close>

definition check_conf_features :: "u64 \<Rightarrow> u64 \<Rightarrow> bool" where
  "check_conf_features feature0 feature1 \<longleftrightarrow>
     feature0 AND NOT FL_ALL_FEATURES = 0 \<and> feature1 AND NOT 0 = 0"

definition check_conf_systrace_period :: "u32 \<Rightarrow> bool" where
  "check_conf_systrace_period period \<longleftrightarrow>
     \<not> (period < CONF_SYSTRACE_PERIOD_MIN
        \<or> period > CONF_SYSTRACE_PERIOD_MAX)"

definition check_conf_datamsg_period :: "u32 \<Rightarrow> bool" where
  "check_conf_datamsg_period period \<longleftrightarrow>
     \<not> (period < CONF_DATA_MSG_PERIOD_MIN
        \<or> period > CONF_DATA_MSG_PERIOD_MAX)"

definition check_conf :: "conf_t \<Rightarrow> bool" where
  "check_conf conf \<longleftrightarrow>
     check_conf_features (use_features0 conf) (use_features1 conf)
     \<and> check_conf_systrace_period (system_trace_period conf)
     \<and> check_conf_datamsg_period (data_message_period conf)"

section \<open>Probes\<close>

definition check_us_app_count :: "u32 \<Rightarrow> bool" where
  "check_us_app_count app_count \<longleftrightarrow> \<not> app_count > US_APP_COUNT_MAX"

definition check_us_app_inst_func_count :: "u32 \<Rightarrow> bool" where
  "check_us_app_inst_func_count func_count \<longleftrightarrow> \<not> func_count > US_APP_INST_FUNC_MAX"

definition check_lib_inst_count :: "u32 \<Rightarrow> bool" where
  "check_lib_inst_count lib_count \<longleftrightarrow> \<not> lib_count > US_APP_INST_LIB_MAX"

text \<open>
  \<^verbatim>\<open>strchr(s, c) != NULL\<close>: the search includes the terminating NUL of \<open>s\<close>.
\<close>

definition strchr_found :: "bytes \<Rightarrow> byte \<Rightarrow> bool" where
  "strchr_found s c \<longleftrightarrow> c \<in> set (s @ [0])"

definition check_us_inst_func_args :: "bytes \<Rightarrow> bool" where
  "check_us_inst_func_args args \<longleftrightarrow> list_all (strchr_found US_FUNC_ARGS) args"

definition check_us_inst_func_ret_type :: "byte \<Rightarrow> bool" where
  "check_us_inst_func_ret_type ret_type = strchr_found US_FUNC_RETURN ret_type"

section \<open>What the checks accept\<close>

lemma check_app_type_iff:
  "check_app_type t \<longleftrightarrow> t \<in> app_type_val ` (UNIV - {APP_TYPE_UNKNOWN})"
proof -
  have types: "UNIV - {APP_TYPE_UNKNOWN}
      = {APP_TYPE_TIZEN, APP_TYPE_RUNNING, APP_TYPE_COMMON, APP_TYPE_WEB}"
    by (auto intro: app_type_t.exhaust)
  have "(1 \<le> t \<and> t \<le> 4) = (t = 1 \<or> t = 2 \<or> t = 3 \<or> t = (4 :: u32))"
    by unat_arith
  then show ?thesis by (simp add: types check_app_type_def limit_defs)
qed

lemma check_app_id_needs_type: "check_app_id t s \<Longrightarrow> check_app_type t"
  by (auto simp: check_app_id_def check_app_type_def limit_defs split: if_splits)

lemma mask_zero_iff:
  "(x :: 'a::len word) AND NOT m = 0 \<longleftrightarrow> (\<forall>n. bit x n \<longrightarrow> bit m n)"
proof
  assume "x AND NOT m = 0"
  then have "\<not> bit (x AND NOT m) n" for n by simp
  then show "\<forall>n. bit x n \<longrightarrow> bit m n" by (auto simp: bit_simps dest: bit_imp_le_length)
qed (auto intro!: bit_word_eqI simp: bit_simps)

lemma check_conf_features_iff:
  "check_conf_features f0 f1 \<longleftrightarrow>
     f1 = 0 \<and> (\<forall>n. bit f0 n \<longrightarrow> (\<exists>f \<in> set printed_features. bit (fl f) n))"
proof -
  have "bit FL_ALL_FEATURES n \<longleftrightarrow> (\<exists>f \<in> set printed_features. bit (fl f) n)" for n
    unfolding printed_features_mask [symmetric] foldr_or_bit by auto
  then show ?thesis by (auto simp: check_conf_features_def mask_zero_iff)
qed

lemma check_conf_systrace_period_iff:
  "check_conf_systrace_period p \<longleftrightarrow> 100 \<le> unat p \<and> unat p \<le> 1000"
  by (auto simp: check_conf_systrace_period_def limit_defs word_less_nat_alt)

lemma check_conf_datamsg_period_iff:
  "check_conf_datamsg_period p \<longleftrightarrow> 1 \<le> unat p \<and> unat p \<le> 100"
  by (auto simp: check_conf_datamsg_period_def limit_defs word_less_nat_alt)

lemma check_lib_inst_count_iff: "check_lib_inst_count n \<longleftrightarrow> unat n \<le> 1000"
  by (auto simp: check_lib_inst_count_def limit_defs word_less_nat_alt)

lemma check_func_count_iff: "check_us_app_inst_func_count n \<longleftrightarrow> unat n \<le> 100000"
  by (auto simp: check_us_app_inst_func_count_def limit_defs word_less_nat_alt)

lemma check_args_iff:
  "is_str args \<Longrightarrow> check_us_inst_func_args args \<longleftrightarrow> set args \<subseteq> set US_FUNC_ARGS"
  by (auto simp: check_us_inst_func_args_def strchr_found_def list_all_iff)

lemma check_ret_nul: "check_us_inst_func_ret_type 0"
  by (simp add: check_us_inst_func_ret_type_def strchr_found_def)

text \<open>A string of digits is a valid process filter exactly when its value is a process number.\<close>

lemma scan_digits_all:
  "list_all is_digit ds \<Longrightarrow> scan_digits acc ds = (foldl (\<lambda>v d. v * 10 + digit_of d) acc ds, [])"
  by (induction ds arbitrary: acc) auto

lemma digit_not_space: "is_digit c \<Longrightarrow> \<not> is_space c"
  unfolding is_digit_def is_space_def by unat_arith

lemma digit_not_sign: "is_digit c \<Longrightarrow> c \<noteq> 45 \<and> c \<noteq> 43"
  unfolding is_digit_def by unat_arith

lemma pid_string_digits:
  assumes "ds \<noteq> []" and "list_all is_digit ds"
  shows "is_pid_string_valid ds \<longleftrightarrow>
    (let v = foldl (\<lambda>v d. v * 10 + digit_of d) 0 ds in 0 < v \<and> v \<le> 32768)"
proof -
  from assms obtain c cs where ds: "ds = c # cs" and c: "is_digit c"
    by (cases ds) auto
  have "dropWhile is_space ds = ds" "scan_sign ds = (1, ds)"
    using digit_not_space [OF c] digit_not_sign [OF c] by (auto simp: ds scan_sign_def)
  with assms c show ?thesis
    by (auto simp: is_pid_string_valid_def strtol10_def scan_digits_all clamp_long_def Let_def ds)
qed

section \<open>Properties\<close>

text \<open>
  A configuration is accepted exactly when it asks for printable features only, for nothing in
  the second feature word, and for periods inside their ranges.
\<close>

theorem check_conf_exact:
  "check_conf c \<longleftrightarrow>
     {n. bit (use_features0 c) n} \<subseteq> (\<Union>f \<in> set printed_features. {n. bit (fl f) n})
     \<and> use_features1 c = 0
     \<and> unat (system_trace_period c) \<in> {100..1000}
     \<and> unat (data_message_period c) \<in> {1..100}"
  by (auto simp: check_conf_def check_conf_features_iff check_conf_systrace_period_iff
      check_conf_datamsg_period_iff)

end
