(* ===== verification/Inst_Lists.thy ===== *)
theory Inst_Lists
  imports Protocol_Check
begin

text \<open>
  The instrumentation lists of \<^verbatim>\<open>daemon/da_inst.c\<close> (types in \<^verbatim>\<open>daemon/da_inst.h\<close>): chains of
  libraries and applications, each with its chain of probes. A chain of \<^verbatim>\<open>next\<close> pointers is a list
  here, head first; \<open>Dll_Heap\<close> models the pointer operations themselves and shows that they compute
  the list operations used below. The code walks libraries and applications through one type,
  \<^verbatim>\<open>data_list_t\<close>, and so does the model. A NULL dereference or an access outside a heap block is
  \<open>None\<close>.
\<close>

section \<open>Data\<close>

text \<open>
  \<open>probe_list_t\<close> with the \<^verbatim>\<open>us_func_inst_plane_t\<close> block its \<^verbatim>\<open>func\<close> points to: the address,
  the argument string with its NUL, and the return type behind it.
\<close>

record probe_t =
  p_size :: u32
  func_addr :: u64
  func_args :: bytes
  ret_type :: byte

definition func_block :: "probe_t \<Rightarrow> bytes" where
  "func_block p = le64 (func_addr p) @ func_args p @ [0, ret_type p]"

datatype inst_data =
    LibData (bin_path: bytes)
  | AppData (app_type: u32) (app_id: bytes) (exe_path: bytes)

record data_t =
  d_hash :: u32
  d_size :: u32
  d_data :: inst_data
  d_func_num :: u32
  d_list :: "probe_t list"

text \<open>
  \<^verbatim>\<open>new_lib\<close>, \<^verbatim>\<open>new_app\<close> and \<^verbatim>\<open>new_probe\<close>. \<^verbatim>\<open>malloc\<close> leaves \<^verbatim>\<open>func_num\<close> of a new element unset; no one
  reads it before \<^verbatim>\<open>parse_func_inst_list\<close> has stored the count, and the model starts it at 0.
\<close>

definition new_data :: "inst_data \<Rightarrow> data_t" where
  "new_data d = \<lparr>d_hash = 0, d_size = 0, d_data = d, d_func_num = 0, d_list = []\<rparr>"

definition new_lib :: data_t where "new_lib = new_data (LibData [])"

definition new_app :: data_t where "new_app = new_data (AppData 0 [] [])"

definition new_probe :: "u32 \<Rightarrow> u64 \<Rightarrow> bytes \<Rightarrow> byte \<Rightarrow> probe_t" where
  "new_probe sz addr args ret = \<lparr>p_size = sz, func_addr = addr, func_args = args, ret_type = ret\<rparr>"

definition free_data_list :: "data_t list \<Rightarrow> data_t list" where
  "free_data_list data = []"

section \<open>Hashes\<close>

text \<open>
  \<^verbatim>\<open>calc_lib_hash\<close> and \<^verbatim>\<open>calc_app_hash\<close> of \<^verbatim>\<open>daemon/da_protocol_inst.c\<close>: one shift and one addition
  per character of the path.
\<close>

fun path_hash :: "u32 \<Rightarrow> bytes \<Rightarrow> u32" where
  "path_hash hash [] = hash"
| "path_hash hash (c # cs) = path_hash (push_bit 1 hash + ucast c) cs"

definition calc_lib_hash :: "inst_data \<Rightarrow> u32" where
  "calc_lib_hash lib = path_hash 0 (bin_path lib)"

definition calc_app_hash :: "inst_data \<Rightarrow> u32" where
  "calc_app_hash app = path_hash 0 (exe_path app)"

section \<open>Adding and removing\<close>

definition data_list_append :: "data_t list \<Rightarrow> data_t \<Rightarrow> data_t list" where
  "data_list_append to from = from # to"

text \<open>The count added to \<^verbatim>\<open>func_num\<close> runs over the whole chain, the new probe at its head.\<close>

definition probe_list_append :: "data_t \<Rightarrow> probe_t \<Rightarrow> data_t" where
  "probe_list_append to from =
     (let list = from # d_list to in
      to\<lparr>d_list := list, d_size := d_size to + p_size from,
         d_func_num := d_func_num to + of_nat (length list)\<rparr>)"

text \<open>Removing the element between \<open>kept\<close> and \<open>rest\<close> of a library's probe chain.\<close>

definition probe_list_rm_element :: "data_t \<Rightarrow> probe_t list \<Rightarrow> probe_t \<Rightarrow> probe_t list \<Rightarrow> data_t" where
  "probe_list_rm_element l prev element next =
     l\<lparr>d_list := prev @ next, d_size := d_size l - p_size element, d_func_num := d_func_num l - 1\<rparr>"

text \<open>
  Merging the probes of \<open>from\<close> in front of those of \<open>to\<close>. The size grows by the first probe's only;
  both chains have to be non-empty, since \<^verbatim>\<open>p->size\<close>, \<^verbatim>\<open>last->next\<close> and \<^verbatim>\<open>to->list->prev\<close> are
  accessed unconditionally.
\<close>

definition data_list_append_probes_hash :: "data_t \<Rightarrow> data_t \<Rightarrow> data_t option" where
  "data_list_append_probes_hash to from =
     (case d_list from of
        [] \<Rightarrow> None
      | p # ps \<Rightarrow>
          if d_list to = [] then None
          else Some (to\<lparr>d_size := d_size to + p_size p,
                        d_func_num := d_func_num to + d_func_num from,
                        d_list := d_list from @ d_list to\<rparr>))"

section \<open>Searching\<close>

definition cmp_libs :: "data_t \<Rightarrow> data_t \<Rightarrow> bool" where
  "cmp_libs el_1 el_2 \<longleftrightarrow> bin_path (d_data el_1) = bin_path (d_data el_2)"

text \<open>The position of the first element with the same hash that \<open>cmp\<close> accepts.\<close>

fun data_list_find_data :: "data_t list \<Rightarrow> data_t \<Rightarrow> (data_t \<Rightarrow> data_t \<Rightarrow> bool) \<Rightarrow> nat option" where
  "data_list_find_data [] what cmp = None"
| "data_list_find_data (w # ws) what cmp =
     (if d_hash w = d_hash what \<and> cmp w what then Some 0
      else map_option Suc (data_list_find_data ws what cmp))"

definition same_probe :: "probe_t \<Rightarrow> probe_t \<Rightarrow> bool" where
  "same_probe p probe \<longleftrightarrow>
     p_size p = p_size probe \<and> func_addr p = func_addr probe \<and> func_args p = func_args probe"

fun find_probe :: "probe_t list \<Rightarrow> probe_t \<Rightarrow> nat option" where
  "find_probe [] probe = None"
| "find_probe (p # ps) probe = (if same_probe p probe then Some 0 else map_option Suc (find_probe ps probe))"

section \<open>Collisions of an add request\<close>

text \<open>
  The inner loop over the probes of one new library: \<open>kept\<close> is the kept part of the chain before the
  cursor.
\<close>

fun strip_present :: "probe_t list \<Rightarrow> data_t \<Rightarrow> probe_t list \<Rightarrow> probe_t list \<Rightarrow> data_t" where
  "strip_present cur p kept [] = p\<lparr>d_list := kept\<rparr>"
| "strip_present cur p kept (pr # rest) =
     (if find_probe cur pr \<noteq> None
      then strip_present cur (probe_list_rm_element p kept pr rest) kept rest
      else strip_present cur p (kept @ [pr]) rest)"

fun resolve_collisions_for_add_msg :: "data_t list \<Rightarrow> data_t list \<Rightarrow> data_t list" where
  "resolve_collisions_for_add_msg cur [] = []"
| "resolve_collisions_for_add_msg cur (p # new) =
     (case data_list_find_data cur p cmp_libs of
        None \<Rightarrow> p # resolve_collisions_for_add_msg cur new
      | Some i \<Rightarrow>
          (let p' = strip_present (d_list (cur ! i)) p [] (d_list p) in
           if d_list p' = [] then resolve_collisions_for_add_msg cur new
           else p' # resolve_collisions_for_add_msg cur new))"

section \<open>Collisions of a remove request\<close>

text \<open>
  The inner loop for a library \<open>sch\<close> of the current state and a requested library \<open>p\<close> with probes:
  a requested probe that is installed leaves \<open>sch\<close>, one that is not leaves \<open>p\<close>.
\<close>

fun split_requested :: "data_t \<Rightarrow> data_t \<Rightarrow> probe_t list \<Rightarrow> probe_t list \<Rightarrow> data_t \<times> data_t" where
  "split_requested sch p kept [] = (sch, p\<lparr>d_list := kept\<rparr>)"
| "split_requested sch p kept (pr # rest) =
     (case find_probe (d_list sch) pr of
        Some i \<Rightarrow>
          split_requested
            (probe_list_rm_element sch (take i (d_list sch)) (d_list sch ! i) (drop (Suc i) (d_list sch)))
            p (kept @ [pr]) rest
      | None \<Rightarrow> split_requested sch (probe_list_rm_element p kept pr rest) kept rest)"

text \<open>
  The loop over the requested libraries: \<open>kept\<close> is the part of the new chain before the cursor. A
  library requested without probes is taken out of the current state and put at the head of the new
  chain, in place of the request. (The request is unlinked there with the current state's head
  pointer; its \<^verbatim>\<open>prev\<close> is never NULL at that point, so that pointer stays as it is, see
  \<open>Dll_Heap\<close>.)
\<close>

fun resolve_rm_loop :: "data_t list \<Rightarrow> data_t list \<Rightarrow> data_t list \<Rightarrow> data_t list \<times> data_t list" where
  "resolve_rm_loop cur kept [] = (cur, kept)"
| "resolve_rm_loop cur kept (p # new) =
     (case data_list_find_data cur p cmp_libs of
        None \<Rightarrow> resolve_rm_loop cur kept new
      | Some i \<Rightarrow>
          let sch = cur ! i; before = take i cur; after = drop (Suc i) cur in
          if d_list p = [] then resolve_rm_loop (before @ after) (sch # kept) new
          else
            let (sch', p') = split_requested sch p [] (d_list p) in
            resolve_rm_loop
              (if d_list sch' = [] then before @ after else before @ sch' # after)
              (kept @ [p']) new)"

definition resolve_collisions_for_rm_msg ::
  "data_t list \<Rightarrow> data_t list \<Rightarrow> data_t list \<times> data_t list" where
  "resolve_collisions_for_rm_msg cur new = resolve_rm_loop cur [] new"

section \<open>Applying an add request\<close>

fun data_list_move_with_hash :: "data_t list \<Rightarrow> data_t list \<Rightarrow> data_t list option" where
  "data_list_move_with_hash to [] = Some to"
| "data_list_move_with_hash to (p # from) =
     (case data_list_find_data to p cmp_libs of
        None \<Rightarrow> data_list_move_with_hash (data_list_append to p) from
      | Some i \<Rightarrow>
          (case data_list_append_probes_hash (to ! i) p of
             None \<Rightarrow> None
           | Some sch \<Rightarrow> data_list_move_with_hash (to[i := sch]) from))"

section \<open>What a search finds\<close>

lemma find_data_SomeD:
  "data_list_find_data ws what cmp = Some i \<Longrightarrow>
     i < length ws \<and> d_hash (ws ! i) = d_hash what \<and> cmp (ws ! i) what"
  by (induction ws arbitrary: i) (auto split: if_splits)

lemma find_data_NoneD:
  "data_list_find_data ws what cmp = None \<longleftrightarrow> (\<forall>w \<in> set ws. \<not> (d_hash w = d_hash what \<and> cmp w what))"
  by (induction ws) auto

lemma find_probe_SomeD:
  "find_probe ps probe = Some i \<Longrightarrow> i < length ps \<and> same_probe (ps ! i) probe"
  by (induction ps arbitrary: i) (auto split: if_splits)

lemma find_probe_None_iff: "find_probe ps probe = None \<longleftrightarrow> (\<forall>p \<in> set ps. \<not> same_probe p probe)"
  by (induction ps) auto

section \<open>Well-formed lists\<close>

text \<open>
  The sizes the messages are computed from agree with the data: the invariant that makes the packing
  below fill its blocks exactly.
\<close>

definition wf_probe :: "probe_t \<Rightarrow> bool" where
  "wf_probe p \<longleftrightarrow> unat (p_size p) = length (func_block p) \<and> is_str (func_args p)"

fun head_block :: "inst_data \<Rightarrow> bytes" where
  "head_block (LibData path) = path @ [0]"
| "head_block (AppData ty ident exe) = le32 ty @ ident @ [0] @ exe @ [0]"

fun head_strs :: "inst_data \<Rightarrow> bool" where
  "head_strs (LibData path) = is_str path"
| "head_strs (AppData ty ident exe) = (is_str ident \<and> is_str exe)"

definition probes_size :: "probe_t list \<Rightarrow> nat" where
  "probes_size ps = (\<Sum>p\<leftarrow>ps. unat (p_size p))"

definition wf_data :: "data_t \<Rightarrow> bool" where
  "wf_data d \<longleftrightarrow>
     unat (d_size d) = length (head_block (d_data d)) + 4 + probes_size (d_list d)
     \<and> unat (d_func_num d) = length (d_list d)
     \<and> list_all wf_probe (d_list d) \<and> head_strs (d_data d)"

lemma probes_size_simps [simp]:
  "probes_size [] = 0"
  "probes_size (p # ps) = unat (p_size p) + probes_size ps"
  "probes_size (ps @ qs) = probes_size ps + probes_size qs"
  by (simp_all add: probes_size_def)

lemma length_func_block [size_simps]: "length (func_block p) = 10 + length (func_args p)"
  by (simp add: func_block_def)

lemma wf_rm_element:
  assumes "wf_data l" "d_list l = prev @ element # next"
  shows "wf_data (probe_list_rm_element l prev element next)"
proof -
  have "unat (p_size element) \<le> unat (d_size l)" "unat (d_func_num l) \<noteq> 0"
    using assms by (auto simp: wf_data_def)
  then show ?thesis
    using assms by (auto simp: wf_data_def probe_list_rm_element_def unat_sub_small unat_sub_if' unat_eq_zero
      split: if_splits)
qed

end
