(* ===== verification/Inst_Pack.thy ===== *)
theory Inst_Pack
  imports Inst_Lists
begin

text \<open>
  Packing libraries and applications for the kernel, \<^verbatim>\<open>daemon/da_inst.c\<close>. Sizes are computed in 32
  bits and the bytes are then written into a block of the computed size: \<open>None\<close> is a write or a read
  outside a block. Allocation itself is taken to succeed. The code passes the packer of the element's
  head as a function pointer, \<^verbatim>\<open>pack_head_t\<close>; its contract is the locale \<open>pack_head\<close>.
\<close>

section \<open>Blocks\<close>

text \<open>
  \<open>fill_block pad n bs\<close>: the bytes \<open>bs\<close> written from the start of a block of \<open>n\<close> bytes that held
  \<open>pad\<close>.
\<close>

definition fill_block :: "byte \<Rightarrow> nat \<Rightarrow> bytes \<Rightarrow> bytes option" where
  "fill_block pad n bs =
     (if length bs \<le> n then Some (bs @ replicate (n - length bs) pad) else None)"

text \<open>\<^verbatim>\<open>memcpy\<close> of \<open>n\<close> bytes from the start of a block.\<close>

definition copy_from :: "bytes \<Rightarrow> nat \<Rightarrow> bytes option" where
  "copy_from block n = (if n \<le> length block then Some (take n block) else None)"

section \<open>Packing\<close>

definition pack_lib_head_to_array :: "inst_data \<Rightarrow> bytes" where
  "pack_lib_head_to_array lib = bin_path lib @ [0]"

definition pack_app_head_to_array :: "inst_data \<Rightarrow> bytes" where
  "pack_app_head_to_array app = le32 (app_type app) @ app_id app @ [0] @ exe_path app @ [0]"

definition pack_data_to_array :: "(inst_data \<Rightarrow> bytes) \<Rightarrow> data_t \<Rightarrow> bytes option" where
  "pack_data_to_array pack_head data =
     map_option (\<lambda>funcs. pack_head (d_data data) @ le32 (d_func_num data) @ concat funcs)
       (those (map (\<lambda>p. copy_from (func_block p) (unat (p_size p))) (d_list data)))"

text \<open>The packed block, its length and the number of elements. A block of size 0 is NULL.\<close>

definition pack_data_list_to_array ::
  "(inst_data \<Rightarrow> bytes) \<Rightarrow> data_t list \<Rightarrow> (bytes \<times> u32 \<times> u32) option" where
  "pack_data_list_to_array pack list =
     (let size = sum_list (map d_size list) + 4; cnt = of_nat (length list) in
      if size = 0 then Some ([], size, cnt)
      else Option.bind (those (map (pack_data_to_array pack) list)) (\<lambda>elements.
           Option.bind (fill_block 0 (unat size) (le32 cnt @ concat elements)) (\<lambda>block.
           Some (block, size, cnt))))"

definition pack_lib_list_to_array :: "data_t list \<Rightarrow> (bytes \<times> u32 \<times> u32) option" where
  "pack_lib_list_to_array list = pack_data_list_to_array pack_lib_head_to_array list"

definition pack_app_list_to_array :: "data_t list \<Rightarrow> (bytes \<times> u32 \<times> u32) option" where
  "pack_app_list_to_array list = pack_data_list_to_array pack_app_head_to_array list"

section \<open>The message to the kernel\<close>

text \<open>The loop over the applications: each one's packed bytes, followed by all packed libraries.\<close>

fun pack_apps_with_libs :: "bytes \<Rightarrow> bytes \<Rightarrow> data_t list \<Rightarrow> bytes option" where
  "pack_apps_with_libs app_p libs [] = Some []"
| "pack_apps_with_libs app_p libs (app # apps) =
     Option.bind (copy_from app_p (unat (d_size app))) (\<lambda>a.
     Option.bind (pack_apps_with_libs (drop (unat (d_size app)) app_p) libs apps) (\<lambda>rest.
     Some (a @ libs @ rest)))"

text \<open>
  \<open>generate_msg\<close>: a block of \<open>size + 8\<close> bytes, the first \<open>size\<close> of them set to \<^verbatim>\<open>'*'\<close>, then
  number (0, the caller sets it), payload size, application count and the applications.
\<close>

definition generate_msg :: "data_t list \<Rightarrow> data_t list \<Rightarrow> bytes option" where
  "generate_msg lib_list app_list =
     Option.bind (pack_lib_list_to_array lib_list) (\<lambda>(libs, libs_size, libs_count).
     Option.bind (pack_app_list_to_array app_list) (\<lambda>(apps, apps_size, apps_count).
     let size = apps_count * libs_size + apps_size; block_size = size + 8 in
     if block_size < size then None
     else
       Option.bind (pack_apps_with_libs (drop 4 apps) libs app_list) (\<lambda>body.
       fill_block 42 (unat block_size) (le32 0 @ le32 size @ le32 apps_count @ body))))"

text \<open>\<^verbatim>\<open>pack_int32(p, id)\<close> over the first word of the finished message.\<close>

definition set_msg_id :: "u32 \<Rightarrow> bytes \<Rightarrow> bytes" where
  "set_msg_id i msg = le32 i @ drop 4 msg"

section \<open>Auxiliary facts\<close>

lemma those_map_Some: "(\<And>x. x \<in> set xs \<Longrightarrow> f x = Some (g x)) \<Longrightarrow> those (map f xs) = Some (map g xs)"
  by (induction xs) auto

lemma fill_block_exact [simp]: "length bs = n \<Longrightarrow> fill_block pad n bs = Some bs"
  by (simp add: fill_block_def)

lemma fill_block_None_iff: "fill_block pad n bs = None \<longleftrightarrow> n < length bs"
  by (auto simp: fill_block_def)

lemma copy_from_self [simp]: "n = length block \<Longrightarrow> copy_from block n = Some block"
  by (simp add: copy_from_def)

lemma sum_list_unat:
  "(\<Sum>x\<leftarrow>xs. unat (f x)) < 2 ^ LENGTH('a) \<Longrightarrow>
     unat (sum_list (map f xs) :: 'a::len word) = (\<Sum>x\<leftarrow>xs. unat (f x))"
  by (induction xs) (auto simp: unat_add_small)

lemma length_concat_map: "length (concat (map f xs)) = (\<Sum>x\<leftarrow>xs. length (f x))"
  by (induction xs) auto

section \<open>Element heads\<close>

text \<open>The bytes of an element's probes, and of an element whose head is \<open>h\<close>.\<close>

definition enc_element :: "bytes \<Rightarrow> data_t \<Rightarrow> bytes" where
  "enc_element h d = h @ le32 (d_func_num d) @ concat (map func_block (d_list d))"

definition enc_data :: "(inst_data \<Rightarrow> bytes) \<Rightarrow> data_t \<Rightarrow> bytes" where
  "enc_data head d = enc_element (head (d_data d)) d"

definition wf_elements :: "(inst_data \<Rightarrow> bool) \<Rightarrow> data_t list \<Rightarrow> bool" where
  "wf_elements kind ds \<longleftrightarrow> list_all (\<lambda>d. wf_data d \<and> kind (d_data d)) ds"

lemma wf_elements_simps [simp]:
  "wf_elements kind []"
  "wf_elements kind (d # ds) \<longleftrightarrow> wf_data d \<and> kind (d_data d) \<and> wf_elements kind ds"
  by (auto simp: wf_elements_def)

abbreviation "enc_lib \<equiv> enc_data pack_lib_head_to_array"
abbreviation "enc_app \<equiv> enc_data pack_app_head_to_array"
abbreviation "wf_lib_list \<equiv> wf_elements is_LibData"
abbreviation "wf_app_list \<equiv> wf_elements (\<lambda>d. \<not> is_LibData d)"

definition list_size :: "data_t list \<Rightarrow> nat" where
  "list_size ds = (\<Sum>d\<leftarrow>ds. unat (d_size d))"

lemma list_size_simps [simp]:
  "list_size [] = 0"
  "list_size (d # ds) = unat (d_size d) + list_size ds"
  by (simp_all add: list_size_def)

lemma length_probe_blocks [size_simps]:
  "list_all wf_probe ps \<Longrightarrow> length (concat (map func_block ps)) = probes_size ps"
  by (induction ps) (auto simp: wf_probe_def)

text \<open>The packed bytes determine the element.\<close>

lemma func_block_prefix:
  assumes "is_str (func_args p)" "is_str (func_args q)" "func_block p @ r = func_block q @ s"
  shows "func_addr p = func_addr q \<and> func_args p = func_args q \<and> ret_type p = ret_type q \<and> r = s"
proof -
  from assms(3) have a: "func_addr p = func_addr q"
    and t: "func_args p @ 0 # ret_type p # r = func_args q @ 0 # ret_type q # s"
    by (auto simp: func_block_def append_eq_append_conv)
  from arg_cong [OF t, of cstrlen] assms(1,2) have "length (func_args p) = length (func_args q)"
    by simp
  with t a show ?thesis by (simp add: append_eq_append_conv)
qed

locale pack_head =
  fixes head :: "inst_data \<Rightarrow> bytes" and kind :: "inst_data \<Rightarrow> bool"
  assumes head_length: "kind d \<Longrightarrow> length (head d) = length (head_block d)"
    and head_prefix: "kind d \<Longrightarrow> kind e \<Longrightarrow> head_strs d \<Longrightarrow> head_strs e \<Longrightarrow>
           head d @ r = head e @ s \<Longrightarrow> d = e \<and> r = s"
begin

lemma pack_element: "wf_data d \<Longrightarrow> pack_data_to_array head d = Some (enc_data head d)"
proof -
  assume "wf_data d"
  then have "those (map (\<lambda>p. copy_from (func_block p) (unat (p_size p))) (d_list d))
      = Some (map func_block (d_list d))"
    by (intro those_map_Some) (auto simp: wf_data_def wf_probe_def list_all_iff)
  then show ?thesis by (simp add: pack_data_to_array_def enc_data_def enc_element_def)
qed

lemma length_enc: "wf_data d \<Longrightarrow> kind (d_data d) \<Longrightarrow> length (enc_data head d) = unat (d_size d)"
  by (simp add: enc_data_def enc_element_def head_length wf_data_def size_simps)

lemma length_enc_list: "wf_elements kind ds \<Longrightarrow> length (concat (map (enc_data head) ds)) = list_size ds"
  by (induction ds) (auto simp: length_enc)

text \<open>A well-formed list whose size fits in 32 bits fills its block exactly.\<close>

lemma pack_list:
  assumes "wf_elements kind ds" "list_size ds + 4 < 2 ^ 32"
  shows "pack_data_list_to_array head ds =
    Some (le32 (of_nat (length ds)) @ concat (map (enc_data head) ds), of_nat (list_size ds + 4),
          of_nat (length ds))"
proof -
  have "unat (sum_list (map d_size ds)) = list_size ds"
    using assms by (simp add: sum_list_unat list_size_def)
  then have sum: "sum_list (map d_size ds) = of_nat (list_size ds)"
    using assms(2) by (simp add: word_unat_eq_iff)
  have size: "of_nat (list_size ds) + 4 = (of_nat (list_size ds + 4) :: u32)" by simp
  have "unat (of_nat (list_size ds + 4) :: u32) = list_size ds + 4"
    using assms(2) by (intro unat_of_nat_small) simp
  moreover from this have "of_nat (list_size ds + 4) \<noteq> (0 :: u32)" by (metis add_is_0 unat_0 zero_neq_numeral)
  moreover have "those (map (pack_data_to_array head) ds) = Some (map (enc_data head) ds)"
    using assms(1) by (intro those_map_Some pack_element) (auto simp: wf_elements_def list_all_iff)
  ultimately show ?thesis using assms
    unfolding pack_data_list_to_array_def sum size Let_def
    by (simp add: length_enc_list del: of_nat_add)
qed

end

interpretation lib_head: pack_head pack_lib_head_to_array is_LibData
proof unfold_locales
  fix d e r s
  assume "is_LibData d" "is_LibData e" "head_strs d" "head_strs e"
    and eq: "pack_lib_head_to_array d @ r = pack_lib_head_to_array e @ s"
  then obtain p q where d: "d = LibData p" "e = LibData q" "is_str p" "is_str q"
    by (auto elim!: is_LibData_def [THEN iffD1, elim_format])
  with eq have t: "p @ 0 # r = q @ 0 # s" by (simp add: pack_lib_head_to_array_def)
  from arg_cong [OF t, of cstrlen] d have "length p = length q" by simp
  with t d show "d = e \<and> r = s" by (simp add: append_eq_append_conv)
qed (auto simp: pack_lib_head_to_array_def is_LibData_def)

interpretation app_head: pack_head pack_app_head_to_array "\<lambda>d. \<not> is_LibData d"
proof unfold_locales
  fix d e r s
  assume "\<not> is_LibData d" "\<not> is_LibData e" "head_strs d" "head_strs e"
    and eq: "pack_app_head_to_array d @ r = pack_app_head_to_array e @ s"
  then obtain ty i x ty' i' x' where d: "d = AppData ty i x" "e = AppData ty' i' x'"
      "is_str i" "is_str x" "is_str i'" "is_str x'"
    by (cases d; cases e) auto
  with eq have ty: "ty = ty'" and t: "i @ 0 # x @ 0 # r = i' @ 0 # x' @ 0 # s"
    by (auto simp: pack_app_head_to_array_def append_eq_append_conv)
  from arg_cong [OF t, of cstrlen] d have "length i = length i'" by simp
  with t have i: "i = i'" and u: "x @ 0 # r = x' @ 0 # s" by (auto simp: append_eq_append_conv)
  from arg_cong [OF u, of cstrlen] d have "length x = length x'" by simp
  with u d ty i show "d = e \<and> r = s" by (simp add: append_eq_append_conv)
next
  fix d
  show "\<not> is_LibData d \<Longrightarrow> length (pack_app_head_to_array d) = length (head_block d)"
    by (cases d) (auto simp: pack_app_head_to_array_def)
qed

section \<open>The kernel message fits its block exactly when its size fits in 32 bits\<close>

lemma pack_apps_with_libs_enc:
  assumes "wf_app_list apps"
  shows "pack_apps_with_libs (concat (map enc_app apps) @ rest) libs apps =
    Some (concat (map (\<lambda>a. enc_app a @ libs) apps))"
  using assms
  by (induction apps) (auto simp: copy_from_def app_head.length_enc)

definition msg_size :: "data_t list \<Rightarrow> data_t list \<Rightarrow> nat" where
  "msg_size libs apps = length apps * (list_size libs + 4) + (list_size apps + 4)"

definition enc_msg :: "u32 \<Rightarrow> data_t list \<Rightarrow> data_t list \<Rightarrow> bytes" where
  "enc_msg i libs apps =
     le32 i @ le32 (of_nat (msg_size libs apps)) @ le32 (of_nat (length apps))
     @ concat (map (\<lambda>a. enc_app a @ le32 (of_nat (length libs)) @ concat (map enc_lib libs)) apps)"

lemma length_msg_body:
  assumes "wf_lib_list libs" "wf_app_list apps"
  shows "length (concat (map (\<lambda>a. enc_app a @ le32 n @ concat (map enc_lib libs)) apps))
    + 4 = msg_size libs apps"
  using assms(2)
  by (induction apps)
    (auto simp: msg_size_def app_head.length_enc lib_head.length_enc_list [OF assms(1)])

lemma generate_msg_enc:
  assumes libs: "wf_lib_list libs" and apps: "wf_app_list apps"
    and len: "length apps < 2 ^ 32"
    and ls: "list_size libs + 4 < 2 ^ 32" and as: "list_size apps + 4 < 2 ^ 32"
  shows "generate_msg libs apps =
    (if msg_size libs apps + 8 < 2 ^ 32 then Some (enc_msg 0 libs apps) else None)"
proof -
  let ?L = "le32 (of_nat (length libs)) @ concat (map enc_lib libs)"
  let ?body = "concat (map (\<lambda>a. enc_app a @ ?L) apps)"
  let ?sz = "of_nat (msg_size libs apps) :: u32"
  have sz: "of_nat (length apps) * of_nat (list_size libs + 4) + of_nat (list_size apps + 4) = ?sz"
    by (simp add: msg_size_def)
  have gen: "generate_msg libs apps =
      (if ?sz + 8 < ?sz then None
       else fill_block 42 (unat (?sz + 8)) (le32 0 @ le32 ?sz @ le32 (of_nat (length apps)) @ ?body))"
    using lib_head.pack_list [OF libs ls] app_head.pack_list [OF apps as]
      pack_apps_with_libs_enc [OF apps, of "[]" ?L]
    by (simp add: generate_msg_def pack_lib_list_to_array_def pack_app_list_to_array_def Let_def
        sz del: of_nat_add)
  have body: "length ?body + 4 = msg_size libs apps" by (rule length_msg_body) fact+
  show ?thesis
  proof (cases "msg_size libs apps + 8 < 2 ^ 32")
    case True
    then have u: "unat (?sz + 8) = msg_size libs apps + 8" "unat ?sz = msg_size libs apps"
      by (simp_all add: unat_add_small)
    then have "\<not> ?sz + 8 < ?sz" by (simp add: word_less_nat_alt)
    with True gen body u show ?thesis by (simp add: enc_msg_def)
  next
    case False
    have "unat (?sz + 8) < 2 ^ 32" using unsigned_less [of "?sz + 8"] by simp
    then have "unat (?sz + 8) < length ?body + 12" using False body by simp
    then have "fill_block 42 (unat (?sz + 8))
        (le32 0 @ le32 ?sz @ le32 (of_nat (length apps)) @ ?body) = None"
      by (simp add: fill_block_None_iff)
    with False gen show ?thesis by simp
  qed
qed

lemma set_msg_id_enc [simp]: "set_msg_id i (enc_msg j libs apps) = enc_msg i libs apps"
  by (simp add: set_msg_id_def enc_msg_def)

lemma length_enc_msg:
  assumes "wf_lib_list libs" "wf_app_list apps"
  shows "length (enc_msg i libs apps) = msg_size libs apps + 8"
  using length_msg_body [OF assms, of "of_nat (length libs)"] by (simp add: enc_msg_def add.commute)

section \<open>Properties\<close>

text \<open>
  C7. On well-formed lists the message to the kernel is the number, the payload size, the number of
  applications and each application with all libraries behind it, and fills its block exactly,
  when its size fits in 32 bits; when it does not, packing leaves the block that was allocated.
\<close>

theorem kernel_message:
  assumes "wf_lib_list libs" "wf_app_list apps" "length apps < 2 ^ 32"
    and "list_size libs + 4 < 2 ^ 32" "list_size apps + 4 < 2 ^ 32"
  shows "generate_msg libs apps = (if msg_size libs apps + 8 < 2 ^ 32 then Some (enc_msg 0 libs apps) else None)
    \<and> length (enc_msg 0 libs apps) = msg_size libs apps + 8"
  using generate_msg_enc [OF assms] length_enc_msg [OF assms(1,2)] by simp

theorem kernel_message_witness:
  "generate_msg [] [\<lparr>d_hash = 0, d_size = 12, d_data = AppData 1 [97] [47], d_func_num = 0, d_list = []\<rparr>]
     = Some (le32 0 @ le32 20 @ le32 1 @ le32 1 @ [97, 0, 47, 0] @ le32 0 @ le32 0)"
  using kernel_message [of "[]" "[\<lparr>d_hash = 0, d_size = 12, d_data = AppData 1 [97] [47], d_func_num = 0, d_list = []\<rparr>]"]
  by (simp add: wf_data_def msg_size_def enc_msg_def enc_data_def enc_element_def pack_app_head_to_array_def)

end
