(* ===== verification/Inst_Collisions.thy ===== *)
theory Inst_Collisions
  imports Inst_Lists
begin

text \<open>
  What the collision routines of \<^verbatim>\<open>daemon/da_inst.c\<close> promise, over the set of installed probes
  (library path, address, argument string): an add request keeps what is new, a remove request
  splits the current state into what goes and what stays.
\<close>

section \<open>The abstract state\<close>

type_synonym probe_key = "u64 \<times> bytes"

definition probe_key :: "probe_t \<Rightarrow> probe_key" where
  "probe_key p = (func_addr p, func_args p)"

abbreviation keys :: "probe_t list \<Rightarrow> probe_key set" where
  "keys ps \<equiv> probe_key ` set ps"

definition lib_path :: "data_t \<Rightarrow> bytes" where
  "lib_path d = bin_path (d_data d)"

definition lib_keys :: "data_t \<Rightarrow> (bytes \<times> probe_key) set" where
  "lib_keys d = {lib_path d} \<times> keys (d_list d)"

definition installed :: "data_t list \<Rightarrow> (bytes \<times> probe_key) set" where
  "installed libs = (\<Union>d \<in> set libs. lib_keys d)"

text \<open>A request without probes names every probe of its library.\<close>

definition requested :: "data_t list \<Rightarrow> (bytes \<times> probe_key) set" where
  "requested libs =
     (\<Union>d \<in> set libs. if d_list d = [] then {lib_path d} \<times> UNIV else lib_keys d)"

definition wf_lib :: "data_t \<Rightarrow> bool" where
  "wf_lib d \<longleftrightarrow> wf_data d \<and> is_LibData (d_data d) \<and> d_hash d = calc_lib_hash (d_data d)"

definition wf_libs :: "data_t list \<Rightarrow> bool" where
  "wf_libs libs \<longleftrightarrow> list_all wf_lib libs"

text \<open>No library twice, and no probe twice in a library.\<close>

definition no_dups :: "data_t list \<Rightarrow> bool" where
  "no_dups libs \<longleftrightarrow>
     distinct (map lib_path libs) \<and> (\<forall>d \<in> set libs. distinct (map probe_key (d_list d)))"

lemma wf_libs_simps [simp]:
  "wf_libs []"
  "wf_libs (d # ds) \<longleftrightarrow> wf_lib d \<and> wf_libs ds"
  "wf_libs (ds @ es) \<longleftrightarrow> wf_libs ds \<and> wf_libs es"
  by (simp_all add: wf_libs_def)

lemma wf_libs_nth: "wf_libs ds \<Longrightarrow> i < length ds \<Longrightarrow> wf_lib (ds ! i)"
  by (simp add: wf_libs_def list_all_length)

lemma wf_libs_setD: "wf_libs ds \<Longrightarrow> d \<in> set ds \<Longrightarrow> wf_lib d"
  by (simp add: wf_libs_def list_all_iff)

lemma installed_simps [simp]:
  "installed [] = {}"
  "installed (d # ds) = lib_keys d \<union> installed ds"
  "installed (ds @ es) = installed ds \<union> installed es"
  by (auto simp: installed_def)

lemma requested_simps [simp]:
  "requested [] = {}"
  "requested (d # ds) = (if d_list d = [] then {lib_path d} \<times> UNIV else lib_keys d) \<union> requested ds"
  by (auto simp: requested_def)

lemma lib_keys_iff: "(pth, k) \<in> lib_keys d \<longleftrightarrow> pth = lib_path d \<and> k \<in> keys (d_list d)"
  by (auto simp: lib_keys_def)

lemma installed_pathD: "(pth, k) \<in> installed ds \<Longrightarrow> pth \<in> lib_path ` set ds"
  by (auto simp: installed_def lib_keys_def)

lemma not_installed: "pth \<notin> lib_path ` set ds \<Longrightarrow> (pth, k) \<notin> installed ds"
  by (blast dest: installed_pathD)

lemma image_filter_notin: "f ` {x \<in> S. f x \<notin> K} = f ` S - K"
  by auto

section \<open>Searches on well-formed lists\<close>

lemma same_probe_key:
  assumes "wf_probe p" "wf_probe q"
  shows "same_probe p q \<longleftrightarrow> probe_key p = probe_key q"
  using assms
  by (auto simp: same_probe_def probe_key_def wf_probe_def size_simps word_unat_eq_iff)

lemma find_probe_key:
  assumes "list_all wf_probe ps" "wf_probe q"
  shows "find_probe ps q = None \<longleftrightarrow> probe_key q \<notin> keys ps"
  using assms by (auto simp: find_probe_None_iff same_probe_key list_all_iff image_iff)

lemma wf_lib_probes: "wf_lib d \<Longrightarrow> list_all wf_probe (d_list d)"
  by (simp add: wf_lib_def wf_data_def)

lemma cmp_libs_path: "cmp_libs a b \<longleftrightarrow> lib_path a = lib_path b"
  by (simp add: cmp_libs_def lib_path_def)

lemma wf_lib_hash: "wf_lib a \<Longrightarrow> wf_lib b \<Longrightarrow> lib_path a = lib_path b \<Longrightarrow> d_hash a = d_hash b"
  by (auto simp: wf_lib_def calc_lib_hash_def lib_path_def)

lemma find_lib_None:
  assumes "wf_libs cur" "wf_lib p"
  shows "data_list_find_data cur p cmp_libs = None \<longleftrightarrow> lib_path p \<notin> lib_path ` set cur"
proof -
  have "(d_hash w = d_hash p \<and> cmp_libs w p) = (lib_path p = lib_path w)" if "w \<in> set cur" for w
    using wf_lib_hash [OF wf_libs_setD [OF assms(1) that] assms(2)] by (auto simp: cmp_libs_path)
  then show ?thesis by (auto simp: find_data_NoneD image_iff)
qed

lemma find_lib_split:
  assumes "wf_libs cur" "data_list_find_data cur p cmp_libs = Some i"
  shows "cur = take i cur @ cur ! i # drop (Suc i) cur" and "lib_path (cur ! i) = lib_path p"
    and "wf_lib (cur ! i)"
proof -
  from find_data_SomeD [OF assms(2)] have i: "i < length cur" and "cmp_libs (cur ! i) p" by auto
  show "cur = take i cur @ cur ! i # drop (Suc i) cur" using i by (rule id_take_nth_drop)
  show "lib_path (cur ! i) = lib_path p" using \<open>cmp_libs _ _\<close> by (simp add: cmp_libs_path)
  show "wf_lib (cur ! i)" using assms(1) i by (rule wf_libs_nth)
qed

text \<open>Without duplicates, the library found holds every installed probe of its path.\<close>

lemma no_dups_split:
  assumes "no_dups (before @ d # after)"
  shows "no_dups (before @ after)" and "lib_path d \<notin> lib_path ` set (before @ after)"
    and "distinct (map probe_key (d_list d))"
    and "lib_path d' = lib_path d \<Longrightarrow> distinct (map probe_key (d_list d')) \<Longrightarrow>
           no_dups (before @ d' # after)"
  using assms by (auto simp: no_dups_def)

section \<open>Add requests\<close>

lemma d_list_same: "d_list p = ps \<Longrightarrow> p\<lparr>d_list := ps\<rparr> = p"
  by (cases p) simp

lemma strip_present_list:
  "d_list (strip_present cur p kept rest) = kept @ filter (\<lambda>q. find_probe cur q = None) rest"
  by (induction cur p kept rest rule: strip_present.induct) auto

lemma strip_present_frame [simp, frame_simps]:
  "d_data (strip_present cur p kept rest) = d_data p"
  "d_hash (strip_present cur p kept rest) = d_hash p"
  "lib_path (strip_present cur p kept rest) = lib_path p"
  by (induction cur p kept rest rule: strip_present.induct)
    (auto simp: probe_list_rm_element_def lib_path_def)

lemma strip_present_wf:
  "wf_data p \<Longrightarrow> d_list p = kept @ rest \<Longrightarrow> wf_data (strip_present cur p kept rest)"
proof (induction cur p kept rest rule: strip_present.induct)
  case (1 cur p kept)
  then show ?case by (simp add: d_list_same)
next
  case (2 cur p kept pr rest)
  show ?case
  proof (cases "find_probe cur pr = None")
    case False
    with 2 show ?thesis
      by (auto intro!: "2.IH"(1) wf_rm_element) (simp add: probe_list_rm_element_def)
  next
    case True
    with 2 show ?thesis by simp
  qed
qed

lemma strip_present_wf_lib: "wf_lib p \<Longrightarrow> wf_lib (strip_present cur p [] (d_list p))"
  by (simp add: wf_lib_def strip_present_wf)

lemma strip_present_keys:
  assumes "list_all wf_probe cur" "list_all wf_probe rest"
  shows "keys (d_list (strip_present cur p [] rest)) = keys rest - keys cur"
proof -
  have "filter (\<lambda>q. find_probe cur q = None) rest = filter (\<lambda>q. probe_key q \<notin> keys cur) rest"
    using assms by (intro filter_cong refl) (simp add: find_probe_key list_all_iff)
  then show ?thesis by (simp only: strip_present_list append_Nil set_filter image_filter_notin)
qed

lemma resolve_add_wf:
  "wf_libs new \<Longrightarrow> wf_libs (resolve_collisions_for_add_msg cur new)"
  by (induction cur new rule: resolve_collisions_for_add_msg.induct)
    (auto simp: Let_def strip_present_wf_lib split: option.splits)

lemma resolve_add_installed:
  assumes cur: "wf_libs cur" "no_dups cur" and new: "wf_libs new"
  shows "installed (resolve_collisions_for_add_msg cur new) = installed new - installed cur"
  using new
proof (induction new)
  case (Cons p new)
  then have IH: "installed (resolve_collisions_for_add_msg cur new) = installed new - installed cur"
    and p: "wf_lib p" by auto
  show ?case
  proof (cases "data_list_find_data cur p cmp_libs")
    case None
    with cur(1) p have "lib_path p \<notin> lib_path ` set cur" by (simp add: find_lib_None)
    then have "lib_keys p \<inter> installed cur = {}"
      by (auto simp: lib_keys_iff not_installed)
    with None IH show ?thesis by auto
  next
    case (Some i)
    note sch = find_lib_split [OF cur(1) Some]
    let ?sch = "cur ! i" and ?p' = "strip_present (d_list (cur ! i)) p [] (d_list p)"
    have "lib_path ?sch \<notin> lib_path ` set (take i cur @ drop (Suc i) cur)"
      using cur(2) no_dups_split(2) sch(1) by metis
    then have off: "(lib_path p, k) \<notin> installed (take i cur @ drop (Suc i) cur)" for k
      unfolding sch(2) by (rule not_installed)
    have "installed cur = lib_keys ?sch \<union> installed (take i cur @ drop (Suc i) cur)"
      by (subst sch(1)) auto
    with off have "lib_keys p \<inter> installed cur = lib_keys p \<inter> lib_keys ?sch"
      by (auto simp: lib_keys_iff)
    moreover have "lib_keys ?p' = lib_keys p - lib_keys ?sch"
      using strip_present_keys [OF wf_lib_probes wf_lib_probes] sch p by (auto simp: lib_keys_def)
    ultimately have "lib_keys ?p' = lib_keys p - installed cur" by auto
    moreover have "d_list ?p' = [] \<Longrightarrow> lib_keys ?p' = {}" by (auto simp: lib_keys_def)
    ultimately show ?thesis using Some IH by (auto simp: Let_def)
  qed
qed simp

section \<open>Remove requests\<close>

lemma find_probe_split:
  assumes "find_probe ps q = Some i"
  shows "ps = take i ps @ ps ! i # drop (Suc i) ps"
  using find_probe_SomeD [OF assms] by (intro id_take_nth_drop) simp

lemma rm_element_simps [simp]:
  "d_list (probe_list_rm_element l prev e nxt) = prev @ nxt"
  "d_data (probe_list_rm_element l prev e nxt) = d_data l"
  "d_hash (probe_list_rm_element l prev e nxt) = d_hash l"
  by (simp_all add: probe_list_rm_element_def)

text \<open>One step of the inner loop on the installed library.\<close>

lemma rm_found:
  assumes wf: "wf_data sch" and dist: "distinct (map probe_key (d_list sch))"
    and q: "wf_probe q" and find: "find_probe (d_list sch) q = Some i"
    and sch': "sch' = probe_list_rm_element sch (take i (d_list sch)) (d_list sch ! i)
       (drop (Suc i) (d_list sch))"
  shows "wf_data sch'" and "distinct (map probe_key (d_list sch'))"
    and "keys (d_list sch') = keys (d_list sch) - {probe_key q}"
    and "probe_key q \<in> keys (d_list sch)" and "d_data sch' = d_data sch" and "d_hash sch' = d_hash sch"
proof -
  note split = find_probe_split [OF find]
  have "wf_probe (d_list sch ! i)"
    using wf find_probe_SomeD [OF find] by (simp add: wf_data_def list_all_length)
  with find_probe_SomeD [OF find] q have key: "probe_key (d_list sch ! i) = probe_key q"
    by (simp add: same_probe_key)
  show "wf_data sch'" unfolding sch' using wf split by (rule wf_rm_element)
  let ?l = "take i (d_list sch)" and ?r = "drop (Suc i) (d_list sch)"
  have "map probe_key (d_list sch) = map probe_key ?l @ probe_key q # map probe_key ?r"
    by (subst split) (simp add: key)
  with dist have d: "distinct (map probe_key ?l @ probe_key q # map probe_key ?r)" by simp
  then show "distinct (map probe_key (d_list sch'))" by (simp add: sch')
  have nq: "probe_key q \<notin> keys ?l" "probe_key q \<notin> keys ?r" using d by auto
  have ks: "keys (d_list sch) = insert (probe_key q) (keys ?l \<union> keys ?r)"
    by (subst split) (auto simp: key)
  with nq show "keys (d_list sch') = keys (d_list sch) - {probe_key q}"
    by (simp add: sch' image_Un)
  show "probe_key q \<in> keys (d_list sch)" using ks by simp
qed (simp_all add: sch')

lemma split_requested_spec:
  assumes "split_requested sch p kept rest = (sch', p')"
    and "wf_data sch" "distinct (map probe_key (d_list sch))"
    and "wf_data p" "d_list p = kept @ rest"
  shows "wf_data sch' \<and> distinct (map probe_key (d_list sch')) \<and> wf_data p'
    \<and> keys (d_list sch') = keys (d_list sch) - keys rest
    \<and> keys (d_list p') = keys kept \<union> (keys rest \<inter> keys (d_list sch))
    \<and> d_data sch' = d_data sch \<and> d_hash sch' = d_hash sch
    \<and> d_data p' = d_data p \<and> d_hash p' = d_hash p"
  using assms
proof (induction sch p kept rest rule: split_requested.induct)
  case (1 sch p kept)
  then show ?case by (auto simp: d_list_same)
next
  case (2 sch p kept pr rest)
  have pr: "wf_probe pr" and ps: "list_all wf_probe (d_list sch)"
    using 2 by (auto simp: wf_data_def)
  show ?case
  proof (cases "find_probe (d_list sch) pr")
    case None
    let ?p = "probe_list_rm_element p kept pr rest"
    have "wf_data ?p" using "2.prems" by (intro wf_rm_element) auto
    moreover have "probe_key pr \<notin> keys (d_list sch)" using None ps pr by (simp add: find_probe_key)
    ultimately show ?thesis using "2.IH"(1) [OF None] "2.prems" None by auto
  next
    case (Some i)
    note rm = rm_found [OF "2.prems"(2,3) pr Some refl]
    from "2.IH"(2) [OF Some] "2.prems" Some rm show ?thesis by auto
  qed
qed

lemma resolve_rm_loop_spec:
  assumes "resolve_rm_loop cur kept new = (cur', new')"
    and "wf_libs cur" "no_dups cur" "wf_libs kept" "wf_libs new"
  shows "wf_libs cur' \<and> no_dups cur' \<and> wf_libs new'
    \<and> installed cur' = installed cur - requested new
    \<and> installed new' = installed kept \<union> (installed cur \<inter> requested new)"
  using assms
proof (induction cur kept new rule: resolve_rm_loop.induct)
  case (2 cur kept p new)
  then have p: "wf_lib p" by simp
  show ?case
  proof (cases "data_list_find_data cur p cmp_libs")
    case None
    with 2 p have "lib_path p \<notin> lib_path ` set cur" by (simp add: find_lib_None)
    then have "installed cur \<inter> {lib_path p} \<times> UNIV = {}" "installed cur \<inter> lib_keys p = {}"
      by (auto simp: lib_keys_iff not_installed)
    moreover note "2.IH"(1) [OF None]
    ultimately show ?thesis using "2.prems" None by auto
  next
    case (Some i)
    define sch where "sch = cur ! i"
    define before where "before = take i cur"
    define after where "after = drop (Suc i) cur"
    note sch = find_lib_split [OF "2.prems"(2) Some, folded sch_def before_def after_def]
    have dups: "no_dups (before @ sch # after)" using "2.prems"(3) sch(1) by simp
    note nd = no_dups_split [OF dups]
    have wfs: "wf_libs before" "wf_libs after" using "2.prems"(2) sch(1) by (metis wf_libs_simps)+
    have inst: "installed cur = lib_keys sch \<union> installed (before @ after)"
      by (subst sch(1)) auto
    have off: "(lib_path p, k) \<notin> installed (before @ after)" for k
      by (rule not_installed) (use nd(2) sch(2) in simp)
    show ?thesis
    proof (cases "d_list p = []")
      case True
      have "installed cur \<inter> {lib_path p} \<times> UNIV = lib_keys sch"
        unfolding inst using off sch(2) by (auto simp: lib_keys_iff)
      moreover have "installed (before @ after) = installed cur - {lib_path p} \<times> UNIV"
        unfolding inst using off sch(2) by (auto simp: lib_keys_iff)
      moreover have run: "resolve_rm_loop (before @ after) (sch # kept) new = (cur', new')"
        using "2.prems"(1) Some True by (simp add: Let_def sch_def before_def after_def)
      have "wf_libs (before @ after)" "wf_libs (sch # kept)" "wf_libs new"
        using wfs sch(3) "2.prems" by simp_all
      note "2.IH"(2) [OF Some sch_def before_def after_def True run this(1) nd(1) this(2,3)]
      ultimately show ?thesis using True by auto
    next
      case False
      obtain sch' p' where sp: "split_requested sch p [] (d_list p) = (sch', p')"
        by fastforce
      have spec: "wf_data sch' \<and> distinct (map probe_key (d_list sch')) \<and> wf_data p'
        \<and> keys (d_list sch') = keys (d_list sch) - keys (d_list p)
        \<and> keys (d_list p') = keys [] \<union> (keys (d_list p) \<inter> keys (d_list sch))
        \<and> d_data sch' = d_data sch \<and> d_hash sch' = d_hash sch
        \<and> d_data p' = d_data p \<and> d_hash p' = d_hash p"
        using p sch(3) nd(3) by (intro split_requested_spec [OF sp]) (simp_all add: wf_lib_def)
      let ?cur = "if d_list sch' = [] then before @ after else before @ sch' # after"
      have libs: "wf_lib sch'" "wf_lib p'" "lib_path sch' = lib_path sch" "lib_path p' = lib_path p"
        using spec p sch(3) by (auto simp: wf_lib_def lib_path_def)
      have cur: "wf_libs ?cur" "no_dups ?cur"
        using libs wfs nd(1) nd(4) [of sch'] spec by auto
      have "lib_keys sch' = lib_keys sch - lib_keys p" "lib_keys p' = lib_keys sch \<inter> lib_keys p"
        using spec libs sch(2) by (auto simp: lib_keys_def)
      moreover have "d_list sch' = [] \<Longrightarrow> lib_keys sch' = {}" by (simp add: lib_keys_def)
      moreover have "installed (before @ after) \<inter> lib_keys p = {}"
        using off by (auto simp: lib_keys_iff)
      ultimately have eqs: "installed ?cur = installed cur - lib_keys p"
          "lib_keys p' = installed cur \<inter> lib_keys p"
        unfolding inst by auto
      have "resolve_rm_loop ?cur (kept @ [p']) new = (cur', new')"
        using "2.prems"(1) Some False sp
        by (simp add: Let_def sch_def before_def after_def split: if_splits)
      from "2.IH"(3) [OF Some sch_def before_def after_def False sp [symmetric] refl, OF this]
      show ?thesis using cur libs "2.prems"(4,5) eqs False by auto
    qed
  qed
qed auto

lemma resolve_rm_spec:
  assumes "resolve_collisions_for_rm_msg cur new = (cur', new')"
    and "wf_libs cur" "no_dups cur" "wf_libs new"
  shows "wf_libs cur'" and "no_dups cur'" and "wf_libs new'"
    and "installed cur' = installed cur - requested new"
    and "installed new' = installed cur \<inter> requested new"
  using resolve_rm_loop_spec [of cur "[]" new] assms
  by (auto simp: resolve_collisions_for_rm_msg_def)

section \<open>Properties\<close>

definition sample_probe :: "u64 \<Rightarrow> probe_t" where
  "sample_probe a = new_probe 12 a [112, 100] 118"

definition sample_lib :: "byte \<Rightarrow> probe_t list \<Rightarrow> data_t" where
  "sample_lib c ps =
     \<lparr>d_hash = calc_lib_hash (LibData [47, c]), d_size = of_nat (7 + 12 * length ps),
      d_data = LibData [47, c], d_func_num = of_nat (length ps), d_list = ps\<rparr>"

lemma sample_lib_wf [simp]:
  assumes "c \<noteq> 0" "length as \<le> 1000"
  shows "wf_lib (sample_lib c (map sample_probe as))"
proof -
  have "probes_size (map sample_probe as) = 12 * length as"
    by (induction as) (simp_all add: sample_probe_def new_probe_def)
  moreover have "list_all wf_probe (map sample_probe as)"
    by (simp add: list_all_iff sample_probe_def new_probe_def wf_probe_def func_block_def)
  ultimately show ?thesis
    using assms by (simp add: wf_lib_def wf_data_def sample_lib_def unat_of_nat_small del: of_nat_add of_nat_mult)
qed

text \<open>
  C14. Of the probes of an add request, those that are already installed are dropped and all others
  are kept, and libraries left without probes disappear from the request.
\<close>

theorem add_collisions:
  assumes "wf_libs cur" "no_dups cur" "wf_libs new"
  shows "installed (resolve_collisions_for_add_msg cur new) = installed new - installed cur
    \<and> wf_libs (resolve_collisions_for_add_msg cur new)"
  using resolve_add_installed [OF assms] resolve_add_wf [OF assms(3)] by simp

theorem add_collisions_witness:
  "let cur = [sample_lib 97 (map sample_probe [1, 2])]; new = [sample_lib 97 (map sample_probe [2, 3])] in
   installed (resolve_collisions_for_add_msg cur new) = {([47, 97], 3, [112, 100])}"
proof -
  have "no_dups [sample_lib 97 (map sample_probe [1, 2])]"
    by (simp add: no_dups_def sample_lib_def probe_key_def sample_probe_def new_probe_def)
  with add_collisions [of "[sample_lib 97 (map sample_probe [1, 2])]" "[sample_lib 97 (map sample_probe [2, 3])]"]
    sample_lib_wf [of 97 "[1, 2]"] sample_lib_wf [of 97 "[2, 3]"]
  have "installed (resolve_collisions_for_add_msg [sample_lib 97 (map sample_probe [1, 2])]
      [sample_lib 97 (map sample_probe [2, 3])])
    = installed [sample_lib 97 (map sample_probe [2, 3])] - installed [sample_lib 97 (map sample_probe [1, 2])]"
    by (simp del: list.map)
  then show ?thesis
    by (auto simp: Let_def lib_keys_def lib_path_def sample_lib_def probe_key_def sample_probe_def new_probe_def)
qed

text \<open>
  C12. A remove request splits the installed probes: those it names leave the current state and make
  up the message to the kernel, all others stay. A library named without probes goes as a whole.
  Well-formedness and the absence of duplicates are kept.
\<close>

theorem remove_collisions:
  assumes "resolve_collisions_for_rm_msg cur new = (cur', new')"
    and "wf_libs cur" "no_dups cur" "wf_libs new"
  shows "installed cur' = installed cur - requested new
    \<and> installed new' = installed cur \<inter> requested new
    \<and> wf_libs cur' \<and> no_dups cur' \<and> wf_libs new'"
  using resolve_rm_spec [OF assms] by simp

theorem remove_collisions_witness:
  "let cur = [sample_lib 97 (map sample_probe [1, 2]), sample_lib 98 (map sample_probe [7])];
       new = [sample_lib 97 (map sample_probe [2, 3]), sample_lib 98 []];
       (cur', new') = resolve_collisions_for_rm_msg cur new
   in installed cur' = {([47, 97], 1, [112, 100])} \<and> wf_libs cur'"
proof -
  let ?cur = "[sample_lib 97 (map sample_probe [1, 2]), sample_lib 98 (map sample_probe [7])]"
  let ?new = "[sample_lib 97 (map sample_probe [2, 3]), sample_lib 98 (map sample_probe [])]"
  obtain cur' new' where r: "resolve_collisions_for_rm_msg ?cur ?new = (cur', new')" by fastforce
  have "no_dups ?cur"
    by (simp add: no_dups_def sample_lib_def probe_key_def sample_probe_def new_probe_def lib_path_def)
  moreover have "wf_libs ?cur" "wf_libs ?new"
    using sample_lib_wf [of 97 "[1, 2]"] sample_lib_wf [of 98 "[7]"] sample_lib_wf [of 97 "[2, 3]"]
      sample_lib_wf [of 98 "[]"]
    by (simp_all del: list.map)
  ultimately have "installed cur' = installed ?cur - requested ?new \<and> wf_libs cur'"
    using remove_collisions [OF r] by blast
  moreover have "installed ?cur - requested ?new = {([47, 97], 1, [112, 100])}"
    by (auto simp: lib_keys_def lib_path_def sample_lib_def probe_key_def sample_probe_def new_probe_def)
  ultimately show ?thesis using r by simp
qed

end
