(* ===== verification/Msg_Buf.thy ===== *)
theory Msg_Buf
  imports Protocol_Check
begin

text \<open>
  Reading a received message, the parse primitives of \<^verbatim>\<open>daemon/da_protocol.c\<close>. A
  \<open>msg_buf_t\<close> is a cursor into the payload of one message; pointers are offsets from the payload's
  first byte, and the payload list is the block that \<^verbatim>\<open>controlSocketHandler\<close> allocates for it.
  Every access goes through the block's bounds, so a read outside it is a value of the model
  (\<open>PFault\<close>), next to the parsers' own success and failure. After a failure no caller looks at the
  cursor again, so \<open>PFail\<close> does not carry it.
\<close>

section \<open>Messages and cursors\<close>

record msg_t =
  msg_id :: u32
  msg_len :: u32
  msg_payload :: bytes

record msg_buf_t =
  payload :: bytes
  cur_pos :: nat
  end_pos :: nat
  buf_len :: u32

definition init_parse_control :: "msg_t \<Rightarrow> msg_buf_t" where
  "init_parse_control msg =
     \<lparr>payload = msg_payload msg, cur_pos = 0, end_pos = unat (msg_len msg), buf_len = msg_len msg\<rparr>"

datatype 'a pres = POk 'a msg_buf_t | PFail | PFault

fun pbind :: "'a pres \<Rightarrow> ('a \<Rightarrow> msg_buf_t \<Rightarrow> 'b pres) \<Rightarrow> 'b pres" where
  "pbind (POk v b) f = f v b"
| "pbind PFail f = PFail"
| "pbind PFault f = PFault"

text \<open>A check after a parse: \<^verbatim>\<open>if (!parse(...) || !check(v)) return 0\<close>.\<close>

definition pcheck :: "bool \<Rightarrow> 'a pres \<Rightarrow> 'a pres" where
  "pcheck ok r = (if ok then r else PFail)"

definition get_avail_msg_size :: "msg_buf_t \<Rightarrow> u32" where
  "get_avail_msg_size b = of_nat (end_pos b) - of_nat (cur_pos b)"

definition get_msg_cur_size :: "msg_buf_t \<Rightarrow> u32" where
  "get_msg_cur_size b = of_nat (cur_pos b)"

text \<open>The memory from the cursor to the end of the block, and a read of \<open>n\<close> bytes of it.\<close>

definition mem_at :: "msg_buf_t \<Rightarrow> bytes" where
  "mem_at b = drop (cur_pos b) (payload b)"

definition advance :: "nat \<Rightarrow> msg_buf_t \<Rightarrow> msg_buf_t" where
  "advance n b = b\<lparr>cur_pos := cur_pos b + n\<rparr>"

section \<open>The primitives\<close>

definition parse_int8 :: "msg_buf_t \<Rightarrow> byte pres" where
  "parse_int8 b =
     (if get_avail_msg_size b < 1 then PFail
      else if length (mem_at b) < 1 then PFault
      else POk (hd (mem_at b)) (advance 1 b))"

definition parse_int32 :: "msg_buf_t \<Rightarrow> u32 pres" where
  "parse_int32 b =
     (if get_avail_msg_size b < 4 then PFail
      else if length (mem_at b) < 4 then PFault
      else POk (le_dec (take 4 (mem_at b))) (advance 4 b))"

definition parse_int64 :: "msg_buf_t \<Rightarrow> u64 pres" where
  "parse_int64 b =
     (if get_avail_msg_size b < 8 then PFail
      else if length (mem_at b) < 8 then PFault
      else POk (le_dec (take 8 (mem_at b))) (advance 8 b))"

text \<open>
  \<open>parse_string\<close> takes the length with an unbounded \<^verbatim>\<open>strlen\<close> before it compares it with what
  is left of the message. \<open>parse_string_no_alloc\<close> differs in the destination of the copy only.
\<close>

definition parse_string :: "msg_buf_t \<Rightarrow> bytes pres" where
  "parse_string b =
     (case cstrlen (mem_at b) of
        None \<Rightarrow> PFault
      | Some n \<Rightarrow>
          if get_avail_msg_size b < of_nat (n + 1) then PFail
          else POk (take n (mem_at b)) (advance (n + 1) b))"

definition parse_string_no_alloc :: "msg_buf_t \<Rightarrow> bytes pres" where
  "parse_string_no_alloc b =
     (case cstrlen (mem_at b) of
        None \<Rightarrow> PFault
      | Some n \<Rightarrow>
          if get_avail_msg_size b < of_nat (n + 1) then PFail
          else POk (take n (mem_at b)) (advance (n + 1) b))"

text \<open>\<^verbatim>\<open>strnlen\<close>, reading at most \<open>n\<close> bytes.\<close>

definition cstrnlen :: "bytes \<Rightarrow> nat \<Rightarrow> nat option" where
  "cstrnlen mem n =
     (case cstrlen (take n mem) of
        Some k \<Rightarrow> Some k
      | None \<Rightarrow> if n \<le> length mem then Some n else None)"

definition parse_string_inplace :: "msg_buf_t \<Rightarrow> bytes pres" where
  "parse_string_inplace b =
     (let avail_size = unat (get_avail_msg_size b) in
      case cstrnlen (mem_at b) avail_size of
        None \<Rightarrow> PFault
      | Some len \<Rightarrow>
          if len = avail_size then PFail
          else POk (take len (mem_at b)) (advance (len + 1) b))"

section \<open>Well-formed cursors\<close>

definition HOST_CTL_MSG_MAX_LEN :: u32 where "HOST_CTL_MSG_MAX_LEN = 10 * 1024 * 1024"

definition wf_msg :: "msg_t \<Rightarrow> bool" where
  "wf_msg m \<longleftrightarrow> length (msg_payload m) = unat (msg_len m) \<and> msg_len m \<le> HOST_CTL_MSG_MAX_LEN"

definition wf_buf :: "msg_buf_t \<Rightarrow> bool" where
  "wf_buf b \<longleftrightarrow> cur_pos b \<le> end_pos b \<and> end_pos b = length (payload b)
     \<and> length (payload b) \<le> unat HOST_CTL_MSG_MAX_LEN"

text \<open>What is still unread, as the parsers see it.\<close>

abbreviation unread :: "msg_buf_t \<Rightarrow> bytes" where "unread \<equiv> mem_at"

lemma wf_init [simp]: "wf_msg m \<Longrightarrow> wf_buf (init_parse_control m)"
  by (auto simp: wf_msg_def wf_buf_def init_parse_control_def word_le_nat_alt)

lemma unread_init [simp]: "unread (init_parse_control m) = msg_payload m"
  by (simp add: mem_at_def init_parse_control_def)

lemma unread_advance [simp]: "unread (advance n b) = drop n (unread b)"
  by (simp add: mem_at_def advance_def add.commute)

lemma advance_advance [simp]: "advance m (advance n b) = advance (n + m) b"
  by (simp add: advance_def add.assoc)

lemma wf_advance [simp]: "wf_buf b \<Longrightarrow> n \<le> length (unread b) \<Longrightarrow> wf_buf (advance n b)"
  by (auto simp: wf_buf_def advance_def mem_at_def)

lemma payload_advance [simp, frame_simps]: "payload (advance n b) = payload b"
  by (simp add: advance_def)

lemma wf_unread_length: "wf_buf b \<Longrightarrow> length (unread b) \<le> 10485760"
  by (auto simp: wf_buf_def mem_at_def HOST_CTL_MSG_MAX_LEN_def)

lemma avail_unread [simp]: "wf_buf b \<Longrightarrow> unat (get_avail_msg_size b) = length (unread b)"
  by (auto simp: wf_buf_def get_avail_msg_size_def mem_at_def HOST_CTL_MSG_MAX_LEN_def unat_sub_small)

lemma avail_less_iff:
  "wf_buf b \<Longrightarrow> n < 2 ^ 32 \<Longrightarrow> get_avail_msg_size b < of_nat n \<longleftrightarrow> length (unread b) < n"
  by (simp add: word_less_nat_alt)

lemma avail_zero [simp]: "wf_buf b \<Longrightarrow> get_avail_msg_size b = 0 \<longleftrightarrow> unread b = []"
  using avail_unread [of b] by (simp add: unat_eq_zero [symmetric] del: avail_unread)

lemma avail_less_numeral [simp]:
  assumes "wf_buf b"
  shows "get_avail_msg_size b < 1 \<longleftrightarrow> length (unread b) < 1"
    and "get_avail_msg_size b < 4 \<longleftrightarrow> length (unread b) < 4"
    and "get_avail_msg_size b < 8 \<longleftrightarrow> length (unread b) < 8"
  using assms by (simp_all add: word_less_nat_alt)

section \<open>Safe results\<close>

text \<open>
  \<open>pgood r\<close>: no access outside the block, and a well-formed cursor to go on with. Its rules follow
  the sequencing of the parsers.
\<close>

named_theorems pgood \<open>safety of parser combinations\<close>

definition pgood :: "'a pres \<Rightarrow> bool" where
  "pgood r \<longleftrightarrow> (case r of POk v b \<Rightarrow> wf_buf b | PFail \<Rightarrow> True | PFault \<Rightarrow> False)"

lemma pgood_simps [simp]: "pgood (POk v b) = wf_buf b" "pgood PFail" "\<not> pgood PFault"
  by (simp_all add: pgood_def)

lemma pgood_no_fault: "pgood r \<Longrightarrow> r \<noteq> PFault"
  by auto

lemma pgood_okD: "pgood r \<Longrightarrow> r = POk v b \<Longrightarrow> wf_buf b"
  by simp

lemma pgood_bind [pgood]:
  "pgood r \<Longrightarrow> (\<And>v b. wf_buf b \<Longrightarrow> pgood (f v b)) \<Longrightarrow> pgood (pbind r f)"
  by (cases r) auto

lemma pgood_check [pgood]: "(ok \<Longrightarrow> pgood r) \<Longrightarrow> pgood (pcheck ok r)"
  by (simp add: pcheck_def)

lemma pgood_POk [pgood]: "wf_buf b \<Longrightarrow> pgood (POk v b)"
  by simp

lemma pbind_POk_iff: "pbind r f = POk v b \<longleftrightarrow> (\<exists>u c. r = POk u c \<and> f u c = POk v b)"
  by (cases r) auto

lemma pcheck_POk_iff: "pcheck ok r = POk v b \<longleftrightarrow> ok \<and> r = POk v b"
  by (simp add: pcheck_def)

lemmas pres_POk_iffs = pbind_POk_iff pcheck_POk_iff

section \<open>The contract of a fixed-width reader\<close>

text \<open>
  \<open>parse_int8\<close>, \<open>parse_int32\<close> and \<open>parse_int64\<close> keep one contract, which their callers rely on: on
  enough bytes they return the encoded value and move past it, on too few they fail, and they touch
  nothing outside the block. \<open>read_many\<close> is the loop that reads an array of such fields.
\<close>

primrec read_many :: "(msg_buf_t \<Rightarrow> 'a pres) \<Rightarrow> nat \<Rightarrow> msg_buf_t \<Rightarrow> 'a list pres" where
  "read_many rd 0 b = POk [] b"
| "read_many rd (Suc n) b = pbind (rd b) (\<lambda>v b. pbind (read_many rd n b) (\<lambda>vs b. POk (v # vs) b))"

locale fixed_reader =
  fixes rd :: "msg_buf_t \<Rightarrow> 'a pres" and enc :: "'a \<Rightarrow> bytes" and dec :: "bytes \<Rightarrow> 'a"
    and width :: nat
  assumes width_pos: "0 < width"
    and enc_length: "length (enc v) = width"
    and dec_enc: "dec (enc v) = v"
    and enc_dec: "length bs = width \<Longrightarrow> enc (dec bs) = bs"
    and rd_enough: "wf_buf b \<Longrightarrow> width \<le> length (unread b) \<Longrightarrow>
           rd b = POk (dec (take width (unread b))) (advance width b)"
    and rd_short: "wf_buf b \<Longrightarrow> length (unread b) < width \<Longrightarrow> rd b = PFail"
begin

lemma rd_enc: "wf_buf b \<Longrightarrow> unread b = enc v @ rest \<Longrightarrow> rd b = POk v (advance width b)"
  by (simp add: rd_enough enc_length dec_enc)

lemma rd_eq:
  "wf_buf b \<Longrightarrow> rd b =
     (if width \<le> length (unread b) then POk (dec (take width (unread b))) (advance width b)
      else PFail)"
  using rd_enough rd_short by simp

lemma rd_good: "wf_buf b \<Longrightarrow> pgood (rd b)"
  using rd_enough rd_short by (cases "width \<le> length (unread b)") (auto simp: not_le)

lemma rd_no_fault: "wf_buf b \<Longrightarrow> rd b \<noteq> PFault"
  by (rule pgood_no_fault [OF rd_good])

lemma rd_okD:
  assumes "wf_buf b" "rd b = POk v b'"
  shows "b' = advance width b" and "unread b = enc v @ unread b'" and "wf_buf b'"
proof -
  have w: "width \<le> length (unread b)"
    using assms rd_short by (cases "width \<le> length (unread b)") (auto simp: not_le)
  with assms rd_enough show "b' = advance width b" by simp
  with assms w rd_enough show "wf_buf b'" "unread b = enc v @ unread b'"
    by (auto simp: enc_dec)
qed

lemma rd_iff:
  assumes "wf_buf b"
  shows "rd b = POk v b' \<longleftrightarrow> unread b = enc v @ drop width (unread b) \<and> b' = advance width b"
  by (metis rd_okD rd_enc unread_advance assms)

lemma read_many_concat:
  assumes "wf_buf b" and "unread b = concat (map enc vs) @ rest"
  shows "read_many rd (length vs) b = POk vs (advance (width * length vs) b)"
  using assms
proof (induction vs arbitrary: b)
  case Nil
  then show ?case by (simp add: advance_def)
next
  case (Cons v vs)
  then have rd: "rd b = POk v (advance width b)" by (simp add: rd_enc)
  have "wf_buf (advance width b)"
    using Cons.prems by (intro wf_advance) (simp_all add: enc_length)
  moreover have "unread (advance width b) = concat (map enc vs) @ rest"
    using Cons.prems by (simp add: enc_length)
  ultimately show ?case using Cons.IH by (simp add: rd)
qed

lemma read_many_good: "wf_buf b \<Longrightarrow> pgood (read_many rd n b)"
  by (induction n arbitrary: b) (auto intro!: pgood_bind rd_good)

lemma read_many_short: "wf_buf b \<Longrightarrow> length (unread b) < width * n \<Longrightarrow> read_many rd n b = PFail"
proof (induction n arbitrary: b)
  case (Suc n)
  show ?case
  proof (cases "rd b")
    case (POk v b')
    have "length (unread b') < width * n"
      using Suc.prems(2) rd_okD(2) [OF Suc.prems(1) POk] by (simp add: enc_length)
    with POk rd_okD(3) [OF Suc.prems(1) POk] Suc.IH show ?thesis by simp
  qed (use rd_no_fault [OF Suc.prems(1)] in simp_all)
qed simp

end

interpretation r8: fixed_reader parse_int8 "\<lambda>v. [v]" hd 1
proof unfold_locales
  fix bs :: bytes
  show "length bs = 1 \<Longrightarrow> [hd bs] = bs" by (cases bs) auto
qed (auto simp: parse_int8_def hd_take)

interpretation r32: fixed_reader parse_int32 le32 le_dec 4
  by unfold_locales (auto simp: parse_int32_def le32_of_dec)

interpretation r64: fixed_reader parse_int64 le64 le_dec 8
  by unfold_locales (auto simp: parse_int64_def le64_of_dec)

lemmas int_good [pgood] = r8.rd_good r32.rd_good r64.rd_good
lemmas parse_enc [parse_simps] = r8.rd_enc r32.rd_enc r64.rd_enc

section \<open>Strings\<close>

lemma parse_string_enc [parse_simps]:
  assumes "wf_buf b" "is_str s" "unread b = s @ 0 # rest"
  shows "parse_string b = POk s (advance (length s + 1) b)"
    and "parse_string_no_alloc b = POk s (advance (length s + 1) b)"
    and "parse_string_inplace b = POk s (advance (length s + 1) b)"
proof -
  have "length (unread b) \<le> 10485760" by (rule wf_unread_length) fact
  then have "\<not> get_avail_msg_size b < of_nat (length s + 1)"
    using assms by (subst avail_less_iff) auto
  then show "parse_string b = POk s (advance (length s + 1) b)"
    and "parse_string_no_alloc b = POk s (advance (length s + 1) b)"
    using assms by (simp_all add: parse_string_def parse_string_no_alloc_def)
  show "parse_string_inplace b = POk s (advance (length s + 1) b)"
    using assms by (simp add: parse_string_inplace_def cstrnlen_def)
qed

lemma parse_string_cases:
  assumes "wf_buf b"
  shows "parse_string b =
    (case cstrlen (unread b) of None \<Rightarrow> PFault
     | Some n \<Rightarrow> POk (take n (unread b)) (advance (n + 1) b))"
proof (cases "cstrlen (unread b)")
  case (Some n)
  then have n: "n < length (unread b)" by (rule cstrlen_Some_less)
  with wf_unread_length [OF assms] have "\<not> get_avail_msg_size b < of_nat (n + 1)"
    by (subst avail_less_iff [OF assms]) auto
  with Some show ?thesis by (simp add: parse_string_def)
qed (simp add: parse_string_def)

lemma parse_string_no_alloc_eq: "parse_string_no_alloc b = parse_string b"
  by (simp add: parse_string_def parse_string_no_alloc_def)

lemma parse_string_inplace_cases:
  assumes "wf_buf b"
  shows "parse_string_inplace b =
    (case cstrlen (unread b) of None \<Rightarrow> PFail
     | Some n \<Rightarrow> POk (take n (unread b)) (advance (n + 1) b))"
  using assms
  by (auto simp: parse_string_inplace_def cstrnlen_def Let_def split: option.splits
      dest: cstrlen_Some_less [THEN less_imp_neq])

lemma parse_string_okD:
  assumes "wf_buf b" "parse_string b = POk s b'"
  shows "is_str s" and "unread b = s @ 0 # unread b'" and "wf_buf b'"
    and "b' = advance (length s + 1) b"
proof -
  from assms obtain n where n: "cstrlen (unread b) = Some n" "s = take n (unread b)"
      "b' = advance (n + 1) b"
    by (auto simp: parse_string_cases split: option.splits)
  have l: "n < length (unread b)" using n(1) by (rule cstrlen_Some_less)
  show "is_str s" using n cstrlen_SomeD by blast
  show "unread b = s @ 0 # unread b'" using cstrlen_split [OF n(1)] n by simp
  show "wf_buf b'" using n l assms by simp
  show "b' = advance (length s + 1) b" using n l by simp
qed

end
