(* ===== verification/Conf_Replay.thy ===== *)
theory Conf_Replay
  imports Msg_Buf
begin

text \<open>
  The configuration and the replay events of \<^verbatim>\<open>daemon/da_protocol.c\<close>. The replay sequence is
  parsed straight into the profiling session, so the part written before a failure stays; the
  \<open>GFail\<close> result carries it. The events go to a heap block whose size is computed in 32 bits:
  \<open>room\<close> is what the block has from the event's start on, and a store outside it is \<open>GFault\<close>.
\<close>

section \<open>Configuration\<close>

definition parse_conf :: "msg_buf_t \<Rightarrow> conf_t pres" where
  "parse_conf b =
     pbind (parse_int64 b) (\<lambda>f0 b.
     pbind (parse_int64 b) (\<lambda>f1 b.
     pcheck (check_conf_features f0 f1) (
     pbind (parse_int32 b) (\<lambda>sp b.
     pcheck (check_conf_systrace_period sp) (
     pbind (parse_int32 b) (\<lambda>dp b.
     pcheck (check_conf_datamsg_period dp) (
     POk \<lparr>use_features0 = f0, use_features1 = f1, system_trace_period = sp,
          data_message_period = dp\<rparr> b)))))))"

definition parse_msg_config :: "msg_buf_t \<Rightarrow> conf_t pres" where
  "parse_msg_config b = parse_conf b"

text \<open>The wire form of a configuration.\<close>

definition enc_conf :: "conf_t \<Rightarrow> bytes" where
  "enc_conf c = le64 (use_features0 c) @ le64 (use_features1 c)
     @ le32 (system_trace_period c) @ le32 (data_message_period c)"

section \<open>Replay events\<close>

record timeval =
  tv_sec :: u32
  tv_usec :: u32

record input_event =
  ev_time :: timeval
  ev_type :: u16
  ev_code :: u16
  ev_value :: u32

record replay_event_t =
  re_id :: u32
  re_ev :: input_event

text \<open>\<open>events\<close> is the heap block the pointer leads to; \<open>None\<close> when there is none to read.\<close>

record replay_event_seq_t =
  enabled :: u32
  seq_tv :: timeval
  event_num :: u32
  events :: "replay_event_t list option"

definition sizeof_replay_event :: u32 where "sizeof_replay_event = 20"

definition zero_tv :: timeval where "zero_tv = \<lparr>tv_sec = 0, tv_usec = 0\<rparr>"

datatype 's gres = GOk msg_buf_t 's | GFail 's | GFault

definition parse_timeval :: "nat \<Rightarrow> msg_buf_t \<Rightarrow> timeval \<Rightarrow> timeval gres" where
  "parse_timeval room b tv =
     (case parse_int32 b of
        PFault \<Rightarrow> GFault | PFail \<Rightarrow> GFail tv
      | POk sec b \<Rightarrow>
          if room < 4 then GFault
          else (let tv = tv\<lparr>tv_sec := sec\<rparr> in
            case parse_int32 b of
              PFault \<Rightarrow> GFault | PFail \<Rightarrow> GFail tv
            | POk nsec b \<Rightarrow>
                if room < 8 then GFault else GOk b (tv\<lparr>tv_usec := nsec div 1000\<rparr>)))"

text \<open>
  Offsets in \<^verbatim>\<open>struct replay_event_t\<close>: \<^verbatim>\<open>id\<close> 0, \<^verbatim>\<open>ev.time\<close> 4, \<^verbatim>\<open>ev.type\<close> 12, \<^verbatim>\<open>ev.code\<close> 14,
  \<^verbatim>\<open>ev.value\<close> 16.
\<close>

definition parse_replay_event :: "nat \<Rightarrow> msg_buf_t \<Rightarrow> replay_event_t pres" where
  "parse_replay_event room b =
     (case parse_timeval (room - 4) b zero_tv of
        GFault \<Rightarrow> PFault | GFail _ \<Rightarrow> PFail
      | GOk b tv \<Rightarrow>
          pbind (parse_int32 b) (\<lambda>dev b. if room < 4 then PFault else
          pbind (parse_int32 b) (\<lambda>ty b. if room < 14 then PFault else
          pbind (parse_int32 b) (\<lambda>code b. if room < 16 then PFault else
          pbind (parse_int32 b) (\<lambda>val b. if room < 20 then PFault else
          POk \<lparr>re_id = dev, re_ev = \<lparr>ev_time = tv, ev_type = ucast ty, ev_code = ucast code,
                ev_value = val\<rparr>\<rparr> b)))))"

primrec parse_replay_events :: "nat \<Rightarrow> nat \<Rightarrow> msg_buf_t \<Rightarrow> replay_event_t list pres" where
  "parse_replay_events 0 room b = POk [] b"
| "parse_replay_events (Suc n) room b =
     pbind (parse_replay_event room b) (\<lambda>re b.
     pbind (parse_replay_events n (room - unat sizeof_replay_event) b) (\<lambda>res b.
     POk (re # res) b))"

definition reset_replay_event_seq :: "replay_event_seq_t \<Rightarrow> replay_event_seq_t" where
  "reset_replay_event_seq res =
     res\<lparr>enabled := 0, seq_tv := zero_tv,
         events := (if event_num res \<noteq> 0 then None else events res), event_num := 0\<rparr>"

definition parse_replay_event_seq ::
  "(u32 \<Rightarrow> bool) \<Rightarrow> msg_buf_t \<Rightarrow> replay_event_seq_t \<Rightarrow> replay_event_seq_t gres" where
  "parse_replay_event_seq malloc_ok b res =
     (case parse_int32 b of
        PFault \<Rightarrow> GFault | PFail \<Rightarrow> GFail res
      | POk en b \<Rightarrow>
          let res = res\<lparr>enabled := en\<rparr> in
          if en = 0 then GOk b res
          else (case parse_timeval 8 b (seq_tv res) of
            GFault \<Rightarrow> GFault | GFail tv \<Rightarrow> GFail (res\<lparr>seq_tv := tv\<rparr>)
          | GOk b tv \<Rightarrow>
              let res = res\<lparr>seq_tv := tv\<rparr> in
              case parse_int32 b of
                PFault \<Rightarrow> GFault | PFail \<Rightarrow> GFail res
              | POk num b \<Rightarrow>
                  let res = res\<lparr>event_num := num\<rparr>; size = num * sizeof_replay_event in
                  if \<not> malloc_ok size then GFail (res\<lparr>events := None\<rparr>)
                  else (case parse_replay_events (unat num) (unat size) b of
                    PFault \<Rightarrow> GFault
                  | PFail \<Rightarrow> GFail (res\<lparr>events := None, event_num := 0\<rparr>)
                  | POk evs b \<Rightarrow> GOk b (res\<lparr>events := Some evs\<rparr>))))"

text \<open>What the replay thread may rely on: as many events in the block as \<open>event_num\<close> says.\<close>

definition wf_replay :: "replay_event_seq_t \<Rightarrow> bool" where
  "wf_replay res \<longleftrightarrow>
     event_num res = 0 \<or> (\<exists>es. events res = Some es \<and> length es = unat (event_num res))"

section \<open>Configuration: what is accepted\<close>

lemma parse_conf_enc:
  assumes "wf_buf b" "unread b = enc_conf c @ rest"
  shows "parse_conf b = (if check_conf c then POk c (advance 24 b) else PFail)"
  using assms
  by (auto simp: parse_conf_def enc_conf_def parse_simps pcheck_def check_conf_def)

lemma parse_conf_valid: "parse_conf b = POk c b' \<Longrightarrow> check_conf c"
  by (auto simp: parse_conf_def check_conf_def pres_POk_iffs)

lemma parse_conf_good [pgood]: "wf_buf b \<Longrightarrow> pgood (parse_conf b)"
  unfolding parse_conf_def by (intro pgood)

section \<open>Replay: round trip and bounds\<close>

text \<open>One event on the wire: seconds, nanoseconds, device, type, code, value.\<close>

type_synonym wire_event = "u32 \<times> u32 \<times> u32 \<times> u32 \<times> u32 \<times> u32"

fun enc_event :: "wire_event \<Rightarrow> bytes" where
  "enc_event (sec, nsec, dev, ty, code, val) =
     le32 sec @ le32 nsec @ le32 dev @ le32 ty @ le32 code @ le32 val"

fun event_of_wire :: "wire_event \<Rightarrow> replay_event_t" where
  "event_of_wire (sec, nsec, dev, ty, code, val) =
     \<lparr>re_id = dev, re_ev = \<lparr>ev_time = \<lparr>tv_sec = sec, tv_usec = nsec div 1000\<rparr>,
        ev_type = ucast ty, ev_code = ucast code, ev_value = val\<rparr>\<rparr>"

definition enc_replay :: "u32 \<Rightarrow> u32 \<Rightarrow> u32 \<Rightarrow> wire_event list \<Rightarrow> bytes" where
  "enc_replay en sec nsec evs =
     le32 en @ le32 sec @ le32 nsec @ le32 (of_nat (length evs)) @ concat (map enc_event evs)"

lemma length_enc_event [simp, size_simps]: "length (enc_event e) = 24"
  by (cases e) simp

lemma parse_timeval_enc [parse_simps]:
  assumes "wf_buf b" "unread b = le32 sec @ le32 nsec @ rest" "8 \<le> room"
  shows "parse_timeval room b tv =
    GOk (advance 8 b) (tv\<lparr>tv_sec := sec, tv_usec := nsec div 1000\<rparr>)"
  using assms by (simp add: parse_timeval_def parse_simps)

lemma parse_replay_event_enc [parse_simps]:
  assumes "wf_buf b" "unread b = enc_event e @ rest" "20 \<le> room"
  shows "parse_replay_event room b = POk (event_of_wire e) (advance 24 b)"
  using assms
  by (cases e) (simp add: parse_replay_event_def parse_simps zero_tv_def)

lemma parse_replay_events_enc:
  assumes "wf_buf b" "unread b = concat (map enc_event evs) @ rest" "20 * length evs \<le> room"
  shows "parse_replay_events (length evs) room b
    = POk (map event_of_wire evs) (advance (24 * length evs) b)"
  using assms
proof (induction evs arbitrary: b room)
  case Nil
  then show ?case by (simp add: advance_def)
next
  case (Cons e evs)
  then have "parse_replay_event room b = POk (event_of_wire e) (advance 24 b)"
    by (simp add: parse_replay_event_enc)
  moreover have "parse_replay_events (length evs) (room - 20) (advance 24 b)
      = POk (map event_of_wire evs) (advance (24 * length evs) (advance 24 b))"
    using Cons.prems by (intro Cons.IH wf_advance) auto
  ultimately show ?case by (simp add: sizeof_replay_event_def)
qed

lemma length_concat_enc_events [size_simps]:
  "length (concat (map enc_event evs)) = 24 * length evs"
  by (induction evs) auto

lemma parse_replay_event_seq_enc:
  assumes wf: "wf_buf b" and u: "unread b = enc_replay en sec nsec evs @ rest"
    and en: "en \<noteq> 0" and ok: "\<And>n. malloc_ok n"
  shows "parse_replay_event_seq malloc_ok b res =
    GOk (advance (16 + 24 * length evs) b)
      \<lparr>enabled = en, seq_tv = \<lparr>tv_sec = sec, tv_usec = nsec div 1000\<rparr>,
       event_num = of_nat (length evs), events = Some (map event_of_wire evs)\<rparr>"
proof -
  have "24 * length evs \<le> 10485760"
    using wf_unread_length [OF wf] u by (simp add: enc_replay_def size_simps)
  then have n: "unat (of_nat (length evs) * sizeof_replay_event) = 20 * length evs"
      "unat (of_nat (length evs) :: u32) = length evs"
    by (simp_all add: sizeof_replay_event_def unat_mult_small)
  have "parse_replay_events (length evs) (20 * length evs) (advance 16 b)
      = POk (map event_of_wire evs) (advance (24 * length evs) (advance 16 b))"
    using wf u by (intro parse_replay_events_enc [where rest = rest] wf_advance)
      (auto simp: enc_replay_def)
  then show ?thesis
    using wf u en ok
    by (cases res) (simp add: parse_replay_event_seq_def enc_replay_def parse_simps n Let_def)
qed

section \<open>Replay: safety and the state kept\<close>

definition ggood :: "'s gres \<Rightarrow> bool" where
  "ggood r \<longleftrightarrow> (case r of GOk b s \<Rightarrow> wf_buf b | GFail s \<Rightarrow> True | GFault \<Rightarrow> False)"

lemma ggood_simps [simp]: "ggood (GOk b s) = wf_buf b" "ggood (GFail s)" "\<not> ggood GFault"
  by (simp_all add: ggood_def)

lemma parse_timeval_good: "wf_buf b \<Longrightarrow> 8 \<le> room \<Longrightarrow> ggood (parse_timeval room b tv)"
  by (simp add: parse_timeval_def Let_def r32.rd_eq)

lemma parse_replay_event_good [pgood]:
  assumes "wf_buf b" "20 \<le> room"
  shows "pgood (parse_replay_event room b)"
proof -
  have "ggood (parse_timeval (room - 4) b zero_tv)"
    using assms by (intro parse_timeval_good) auto
  with assms show ?thesis
    unfolding parse_replay_event_def
    by (cases "parse_timeval (room - 4) b zero_tv") (auto intro!: pgood)
qed

lemma parse_replay_events_good [pgood]:
  "wf_buf b \<Longrightarrow> 20 * n \<le> room \<Longrightarrow> pgood (parse_replay_events n room b)"
  by (induction n arbitrary: b room) (auto intro!: pgood simp: sizeof_replay_event_def)

lemma parse_replay_events_length: "parse_replay_events n room b = POk evs b' \<Longrightarrow> length evs = n"
  by (induction n arbitrary: b room evs) (auto simp: pres_POk_iffs)

text \<open>The event count of an enabled replay: the fourth word of the message.\<close>

definition wire_event_num :: "msg_buf_t \<Rightarrow> u32" where
  "wire_event_num b = le_dec (take 4 (drop 12 (unread b)))"

lemma parse_timeval_eq:
  "wf_buf b \<Longrightarrow> 8 \<le> length (unread b) \<Longrightarrow> 8 \<le> room \<Longrightarrow>
     \<exists>tv'. parse_timeval room b tv = GOk (advance 8 b) tv'"
  by (simp add: parse_timeval_def Let_def r32.rd_eq)

lemma parse_timeval_short:
  "wf_buf b \<Longrightarrow> length (unread b) < 8 \<Longrightarrow> 8 \<le> room \<Longrightarrow> \<exists>tv'. parse_timeval room b tv = GFail tv'"
  by (auto simp: parse_timeval_def Let_def r32.rd_eq)

lemma parse_replay_event_seq_good:
  assumes wf: "wf_buf b" and small: "unat (wire_event_num b) * 20 < 2 ^ 32"
  shows "ggood (parse_replay_event_seq malloc_ok b res)"
proof -
  let ?num = "wire_event_num b"
  have size: "unat (?num * sizeof_replay_event) = 20 * unat ?num"
    using small by (simp add: sizeof_replay_event_def unat_mult_small)
  consider (short) "length (unread b) < 4" | (time) "4 \<le> length (unread b)" "length (unread b) < 12"
    | (num) "12 \<le> length (unread b)" "length (unread b) < 16" | (events) "16 \<le> length (unread b)"
    by linarith
  then show ?thesis
  proof cases
    case short
    with wf show ?thesis by (simp add: parse_replay_event_seq_def r32.rd_eq)
  next
    case time
    with wf obtain tv where
      "parse_timeval 8 (advance 4 b) (seq_tv (res\<lparr>enabled := le_dec (take 4 (unread b))\<rparr>)) = GFail tv"
      using parse_timeval_short [of "advance 4 b" 8] by fastforce
    with wf time show ?thesis by (simp add: parse_replay_event_seq_def r32.rd_eq Let_def)
  next
    case num
    with wf obtain tv where
      "parse_timeval 8 (advance 4 b) (seq_tv (res\<lparr>enabled := le_dec (take 4 (unread b))\<rparr>))
        = GOk (advance 12 b) tv"
      using parse_timeval_eq [of "advance 4 b" 8] by fastforce
    with wf num show ?thesis by (simp add: parse_replay_event_seq_def r32.rd_eq Let_def)
  next
    case events
    with wf obtain tv where
      "parse_timeval 8 (advance 4 b) (seq_tv (res\<lparr>enabled := le_dec (take 4 (unread b))\<rparr>))
        = GOk (advance 12 b) tv"
      using parse_timeval_eq [of "advance 4 b" 8] by fastforce
    moreover have "pgood (parse_replay_events (unat ?num) (unat (?num * sizeof_replay_event))
        (advance 16 b))"
      using wf events size by (intro pgood wf_advance) simp_all
    ultimately show ?thesis using wf events
      by (auto simp: parse_replay_event_seq_def r32.rd_eq Let_def wire_event_num_def pgood_def
          split: pres.splits)
  qed
qed

lemma wf_replay_updates [simp]:
  "wf_replay (res\<lparr>enabled := e\<rparr>) = wf_replay res"
  "wf_replay (res\<lparr>seq_tv := t\<rparr>) = wf_replay res"
  "wf_replay (res\<lparr>event_num := 0\<rparr>)"
  "wf_replay (res\<lparr>event_num := n, events := Some es\<rparr>) = (n = 0 \<or> length es = unat n)"
  by (simp_all add: wf_replay_def)

text \<open>The state a parse leaves, whether it succeeds or fails.\<close>

primrec gstate :: "'s gres \<Rightarrow> 's option" where
  "gstate (GOk b s) = Some s"
| "gstate (GFail s) = Some s"
| "gstate GFault = None"

lemma parse_replay_event_seq_wf:
  assumes "wf_replay res" and "\<And>n. malloc_ok n"
    and "gstate (parse_replay_event_seq malloc_ok b res) = Some res'"
  shows "wf_replay res'"
  using assms
  by (auto simp: parse_replay_event_seq_def Let_def
      split: pres.splits gres.splits if_splits dest!: parse_replay_events_length)

lemma reset_replay_wf: "wf_replay (reset_replay_event_seq res)"
  by (simp add: reset_replay_event_seq_def wf_replay_def)

lemma parse_replay_disabled:
  assumes "wf_buf b" "unread b = le32 0 @ rest"
  shows "parse_replay_event_seq malloc_ok b res = GOk (advance 4 b) (res\<lparr>enabled := 0\<rparr>)"
  using assms by (simp add: parse_replay_event_seq_def parse_simps)

text \<open>
  The product of count and size wraps: 214748365 events ask for 4 bytes, and the first event's time
  is stored past them.
\<close>

lemma replay_size_wraps: "214748365 * sizeof_replay_event = 4"
  by (simp add: sizeof_replay_event_def)

lemma parse_replay_event_seq_overflow:
  assumes wf: "wf_buf b" and ok: "\<And>n. malloc_ok n" and en: "en \<noteq> 0"
    and u: "unread b = le32 en @ le32 sec @ le32 nsec @ le32 214748365 @ enc_event e @ rest"
  shows "parse_replay_event_seq malloc_ok b res = GFault"
proof -
  obtain s ns r where e: "enc_event e = le32 s @ le32 ns @ r" by (cases e) simp
  have "unat (214748365 :: u32) = Suc 214748364" by simp
  then have "parse_replay_events (unat (214748365 :: u32)) 4 (advance 16 b) = PFault"
    using wf u e
    by (simp only: parse_replay_events.simps)
      (simp add: parse_replay_event_def parse_timeval_def parse_simps)
  then show ?thesis
    using wf ok en u
    by (simp add: parse_replay_event_seq_def parse_simps Let_def replay_size_wraps)
qed

section \<open>Properties\<close>

text \<open>
  C32. Reading back a configuration on the wire gives the configuration when the checks accept it,
  and fails otherwise; nothing but an accepted configuration is ever returned.
\<close>

theorem conf_roundtrip:
  assumes "wf_buf b" "unread b = enc_conf c @ rest"
  shows "parse_msg_config b = (if check_conf c then POk c (advance 24 b) else PFail)"
  using parse_conf_enc [OF assms] by (simp add: parse_msg_config_def)

definition sample_conf :: conf_t where
  "sample_conf = \<lparr>use_features0 = 12, use_features1 = 0, system_trace_period = 100, data_message_period = 10\<rparr>"

definition sample_buf :: "bytes \<Rightarrow> msg_buf_t" where
  "sample_buf bs = \<lparr>payload = bs, cur_pos = 0, end_pos = length bs, buf_len = of_nat (length bs)\<rparr>"

lemma sample_buf_simps [simp]:
  "unread (sample_buf bs) = bs"
  "wf_buf (sample_buf bs) \<longleftrightarrow> length bs \<le> 10485760"
  by (simp_all add: sample_buf_def mem_at_def wf_buf_def HOST_CTL_MSG_MAX_LEN_def)

theorem conf_roundtrip_witness:
  "parse_msg_config (sample_buf (enc_conf sample_conf)) = POk sample_conf (advance 24 (sample_buf (enc_conf sample_conf)))"
proof -
  have "check_conf sample_conf"
    by (simp add: check_conf_def sample_conf_def check_conf_features_def FL_ALL_FEATURES_def
        check_conf_systrace_period_def check_conf_datamsg_period_def limit_defs)
  moreover have "wf_buf (sample_buf (enc_conf sample_conf))" by (simp add: enc_conf_def)
  ultimately show ?thesis
    using conf_roundtrip [of "sample_buf (enc_conf sample_conf)" sample_conf "[]"] by simp
qed

text \<open>
  A replay sequence on the wire is read back into the session: its time, its count and all its
  events, with nanoseconds turned to microseconds.
\<close>

theorem replay_roundtrip:
  assumes "wf_buf b" "unread b = enc_replay en sec nsec evs @ rest" "en \<noteq> 0" "\<And>n. malloc_ok n"
  shows "parse_replay_event_seq malloc_ok b res =
    GOk (advance (16 + 24 * length evs) b)
      \<lparr>enabled = en, seq_tv = \<lparr>tv_sec = sec, tv_usec = nsec div 1000\<rparr>,
       event_num = of_nat (length evs), events = Some (map event_of_wire evs)\<rparr>"
  by (rule parse_replay_event_seq_enc) fact+

theorem replay_roundtrip_witness:
  "let b = sample_buf (enc_replay 1 5 7000 [(1, 2000, 3, 4, 5, 6)]) in
   parse_replay_event_seq (\<lambda>_. True) b \<lparr>enabled = 0, seq_tv = zero_tv, event_num = 0, events = None\<rparr> =
   GOk (advance 40 b)
     \<lparr>enabled = 1, seq_tv = \<lparr>tv_sec = 5, tv_usec = 7\<rparr>, event_num = 1,
      events = Some [event_of_wire (1, 2000, 3, 4, 5, 6)]\<rparr>"
proof -
  let ?b = "sample_buf (enc_replay 1 5 7000 [(1, 2000, 3, 4, 5, 6)])"
  have "wf_buf ?b" "unread ?b = enc_replay 1 5 7000 [(1, 2000, 3, 4, 5, 6)] @ []"
    by (simp_all add: enc_replay_def)
  from replay_roundtrip [OF this, of "\<lambda>_. True" "\<lparr>enabled = 0, seq_tv = zero_tv, event_num = 0, events = None\<rparr>"]
  show ?thesis by (simp only: Let_def) simp
qed

text \<open>
  The size of the event block is count times 20 in 32 bits. As long as the product does not wrap,
  reading a replay sequence, complete or truncated, touches nothing outside the block.
\<close>

theorem replay_in_bounds:
  assumes "wf_buf b" "unat (wire_event_num b) * 20 < 2 ^ 32"
  shows "parse_replay_event_seq malloc_ok b res \<noteq> GFault"
  using parse_replay_event_seq_good [OF assms, of malloc_ok res] by auto

theorem replay_in_bounds_witness:
  "\<forall>res. parse_replay_event_seq (\<lambda>_. True) (sample_buf (enc_replay 1 5 7 [(1, 2, 3, 4, 5, 6)])) res \<noteq> GFault"
  using replay_in_bounds [of "sample_buf (enc_replay 1 5 7 [(1, 2, 3, 4, 5, 6)])" "\<lambda>_. True"]
  by (simp add: enc_replay_def wire_event_num_def)

text \<open>
  C33. With a count of 214748365 the size wraps to 4 bytes, and the first event is written past the
  block.
\<close>

theorem replay_size_overflow:
  assumes "wf_buf b" "\<And>n. malloc_ok n" "en \<noteq> 0"
    and "unread b = le32 en @ le32 sec @ le32 nsec @ le32 214748365 @ enc_event e @ rest"
  shows "parse_replay_event_seq malloc_ok b res = GFault"
  by (rule parse_replay_event_seq_overflow) fact+

theorem replay_size_overflow_witness:
  "\<forall>res. parse_replay_event_seq (\<lambda>_. True)
     (sample_buf (le32 1 @ le32 5 @ le32 7 @ le32 214748365 @ enc_event (1, 2, 3, 4, 5, 6))) res = GFault"
  using replay_size_overflow [of "sample_buf (le32 1 @ le32 5 @ le32 7 @ le32 214748365 @ enc_event (1, 2, 3, 4, 5, 6))"
      "\<lambda>_. True" 1 5 7 "(1, 2, 3, 4, 5, 6)" "[]"]
  by simp

end
