(* ===== verification/Inst_Parse.thy ===== *)
theory Inst_Parse
  imports Inst_Pack Inst_Collisions Conf_Replay
begin

text \<open>
  Parsing instrumentation lists, \<^verbatim>\<open>daemon/da_protocol_inst.c\<close>. Elements are put at the head of the
  lists, so a parsed list is the received one reversed, at both levels. The lists live in the
  session: a failure in the middle leaves what was appended before it, which \<open>GFail\<close> carries.
  The lemmas say that a parser accepts exactly the packed form of a well-formed, valid element.
\<close>

section \<open>The loops\<close>

text \<open>
  All lists are read by one kind of loop: \<open>n\<close> elements, each put into the structure \<open>s\<close> by \<open>step\<close>.
\<close>

primrec parse_elements ::
  "(msg_buf_t \<Rightarrow> 'a pres) \<Rightarrow> ('s \<Rightarrow> 'a \<Rightarrow> 's) \<Rightarrow> nat \<Rightarrow> msg_buf_t \<Rightarrow> 's \<Rightarrow> 's gres" where
  "parse_elements rd step 0 b s = GOk b s"
| "parse_elements rd step (Suc n) b s =
     (case rd b of
        PFault \<Rightarrow> GFault | PFail \<Rightarrow> GFail s
      | POk v b \<Rightarrow> parse_elements rd step n b (step s v))"

fun gmap :: "('s \<Rightarrow> 't) \<Rightarrow> 's gres \<Rightarrow> 't gres" where
  "gmap f (GOk b s) = GOk b (f s)"
| "gmap f (GFail s) = GFail (f s)"
| "gmap f GFault = GFault"

section \<open>Probes\<close>

text \<open>
  The length of the argument string is taken 8 bytes ahead of the cursor, before anything is known
  about what is left of the message. The block of \<open>size\<close> bytes then holds the address, the same
  string with its NUL, and the return type.
\<close>

definition parse_us_inst_func :: "msg_buf_t \<Rightarrow> probe_t pres" where
  "parse_us_inst_func b =
     (case cstrlen (drop 8 (mem_at b)) of
        None \<Rightarrow> PFault
      | Some par_count \<Rightarrow>
          let size = of_nat (8 + par_count + 1 + 1) in
          pbind (parse_int64 b) (\<lambda>addr b.
          pbind (parse_string_no_alloc b) (\<lambda>args b.
          pcheck (check_us_inst_func_args args) (
          pbind (parse_int8 b) (\<lambda>ret b.
          pcheck (check_us_inst_func_ret_type ret) (
          POk (new_probe size addr args ret) b))))))"

text \<open>On failure the caller frees \<open>dest\<close>, so its partial contents are not kept.\<close>

definition parse_func_inst_list :: "msg_buf_t \<Rightarrow> data_t \<Rightarrow> data_t pres" where
  "parse_func_inst_list b dest =
     pbind (parse_int32 b) (\<lambda>num b.
     pcheck (check_us_app_inst_func_count num) (
     (case parse_elements parse_us_inst_func probe_list_append (unat num) b dest of
        GFault \<Rightarrow> PFault | GFail _ \<Rightarrow> PFail
      | GOk b dest \<Rightarrow> POk (dest\<lparr>d_func_num := num\<rparr>) b)))"

section \<open>Libraries\<close>

definition parse_inst_lib :: "(bytes \<Rightarrow> bool) \<Rightarrow> msg_buf_t \<Rightarrow> data_t pres" where
  "parse_inst_lib stat_ok b =
     pbind (parse_string b) (\<lambda>path b.
     pcheck (check_exec_path stat_ok path) (
     pbind (parse_func_inst_list b (new_lib\<lparr>d_data := LibData path\<rparr>)) (\<lambda>dest b.
     POk (dest\<lparr>d_size := d_size dest + (of_nat (length path) + 1 + 4),
               d_hash := calc_lib_hash (d_data dest)\<rparr>) b)))"

text \<open>The caller's counter and list, both through pointers.\<close>

definition parse_lib_inst_list ::
  "(bytes \<Rightarrow> bool) \<Rightarrow> msg_buf_t \<Rightarrow> u32 \<Rightarrow> data_t list \<Rightarrow> (u32 \<times> data_t list) gres" where
  "parse_lib_inst_list stat_ok b num lib_list =
     (case parse_int32 b of
        PFault \<Rightarrow> GFault | PFail \<Rightarrow> GFail (num, lib_list)
      | POk num b \<Rightarrow>
          if check_lib_inst_count num
          then gmap (Pair num)
                 (parse_elements (parse_inst_lib stat_ok) data_list_append (unat num) b lib_list)
          else GFail (num, lib_list))"

section \<open>Applications\<close>

definition app_path_ok :: "(bytes \<Rightarrow> bool) \<Rightarrow> u32 \<Rightarrow> bytes \<Rightarrow> bytes \<Rightarrow> bool" where
  "app_path_ok stat_ok ty ident exe \<longleftrightarrow>
     \<not> (ty \<noteq> app_type_val APP_TYPE_WEB
        \<and> (ty \<noteq> app_type_val APP_TYPE_RUNNING \<or> ident \<noteq> [])
        \<and> \<not> check_exec_path stat_ok exe)"

definition parse_inst_app :: "(bytes \<Rightarrow> bool) \<Rightarrow> msg_buf_t \<Rightarrow> data_t pres" where
  "parse_inst_app stat_ok start =
     pbind (parse_int32 start) (\<lambda>ty b.
     pcheck (check_app_type ty) (
     pbind (parse_string b) (\<lambda>ident b.
     pcheck (check_app_id ty ident) (
     pbind (parse_string b) (\<lambda>exe end.
     pcheck (app_path_ok stat_ok ty ident exe) (
     pbind (parse_func_inst_list end (new_app\<lparr>d_data := AppData ty ident exe\<rparr>)) (\<lambda>dest b.
     POk (dest\<lparr>d_size := d_size dest + (of_nat (cur_pos end - cur_pos start) + 4),
               d_hash := calc_app_hash (d_data dest)\<rparr>) b)))))))"

definition parse_app_inst_list ::
  "(bytes \<Rightarrow> bool) \<Rightarrow> (u32 \<Rightarrow> bool) \<Rightarrow> msg_buf_t \<Rightarrow> u32 \<Rightarrow> data_t list \<Rightarrow> replay_event_seq_t \<Rightarrow>
     (u32 \<times> data_t list \<times> replay_event_seq_t) gres" where
  "parse_app_inst_list stat_ok malloc_ok b num app_list seq =
     (case parse_int32 b of
        PFault \<Rightarrow> GFault | PFail \<Rightarrow> GFail (num, app_list, seq)
      | POk num b \<Rightarrow>
          if check_lib_inst_count num
          then (case parse_elements (parse_inst_app stat_ok) data_list_append (unat num) b app_list of
                  GFault \<Rightarrow> GFault | GFail app_list \<Rightarrow> GFail (num, app_list, seq)
                | GOk b app_list \<Rightarrow>
                    gmap (\<lambda>seq. (num, app_list, seq)) (parse_replay_event_seq malloc_ok b seq))
          else GFail (num, app_list, seq))"

section \<open>What a cursor stands in front of\<close>

definition begins :: "msg_buf_t \<Rightarrow> bytes \<Rightarrow> bool" where
  "begins b bs \<longleftrightarrow> take (length bs) (unread b) = bs"

lemma begins_iff: "begins b bs \<longleftrightarrow> (\<exists>rest. unread b = bs @ rest)"
  unfolding begins_def by (metis append_eq_conv_conj append_take_drop_id)

lemma begins_append [simp]:
  "begins b (xs @ ys) \<longleftrightarrow> begins b xs \<and> begins (advance (length xs) b) ys"
  by (auto simp: begins_iff)

lemma begins_Cons_Cons [simp]:
  "begins b (x # y # ys) \<longleftrightarrow> begins b [x] \<and> begins (advance 1 b) (y # ys)"
  using begins_append [of b "[x]" "y # ys"] by simp

lemma begins_Cons_append [simp]:
  "begins b (x # ys @ zs) \<longleftrightarrow> begins b [x] \<and> begins (advance 1 b) (ys @ zs)"
  using begins_append [of b "[x]" "ys @ zs"] by simp

lemma begins_Nil [simp]: "begins b []"
  by (simp add: begins_def)

lemma begins_length: "begins b bs \<Longrightarrow> length bs \<le> length (unread b)"
  by (auto simp: begins_iff)

lemma begins_small: "wf_buf b \<Longrightarrow> begins b bs \<Longrightarrow> length bs \<le> 10485760"
  by (meson begins_length le_trans wf_unread_length)

lemma begins_wf [intro]: "wf_buf b \<Longrightarrow> begins b bs \<Longrightarrow> n = length bs \<Longrightarrow> wf_buf (advance n b)"
  by (simp add: begins_length)

lemma parse_int_iffs:
  assumes "wf_buf b"
  shows "parse_int8 b = POk c b' \<longleftrightarrow> begins b [c] \<and> b' = advance 1 b"
    and "parse_int32 b = POk v b' \<longleftrightarrow> begins b (le32 v) \<and> b' = advance 4 b"
    and "parse_int64 b = POk w b' \<longleftrightarrow> begins b (le64 w) \<and> b' = advance 8 b"
  using assms by (auto simp: r8.rd_iff r32.rd_iff r64.rd_iff begins_iff)

lemma parse_string_iff:
  assumes "wf_buf b"
  shows "parse_string b = POk s b' \<longleftrightarrow> is_str s \<and> begins b (s @ [0]) \<and> b' = advance (length s + 1) b"
proof
  assume ok: "parse_string b = POk s b'"
  then have "unread b = (s @ [0]) @ unread b'" using parse_string_okD(2) [OF assms ok] by simp
  with parse_string_okD(1,4) [OF assms ok]
  show "is_str s \<and> begins b (s @ [0]) \<and> b' = advance (length s + 1) b"
    unfolding begins_iff by blast
next
  assume "is_str s \<and> begins b (s @ [0]) \<and> b' = advance (length s + 1) b"
  then obtain rest where "is_str s" "unread b = s @ 0 # rest" "b' = advance (length s + 1) b"
    unfolding begins_iff by auto
  with assms show "parse_string b = POk s b'" by (simp add: parse_string_enc)
qed

section \<open>Exact readers\<close>

text \<open>
  The contract of an element parser \<open>rd\<close>: it succeeds exactly in front of the encoding of a valid
  element, and leaves the cursor behind it. The loop over such a parser is exact too.
\<close>

locale exact_reader =
  fixes rd :: "msg_buf_t \<Rightarrow> 'a pres" and enc :: "'a \<Rightarrow> bytes" and ok :: "'a \<Rightarrow> bool"
  assumes rd_iff: "wf_buf b \<Longrightarrow>
    rd b = POk v b' \<longleftrightarrow> ok v \<and> begins b (enc v) \<and> b' = advance (length (enc v)) b"
begin

lemma elements_iff:
  "wf_buf b \<Longrightarrow> parse_elements rd step n b s = GOk b' s' \<longleftrightarrow>
     (\<exists>vs. length vs = n \<and> list_all ok vs \<and> s' = foldl step s vs
        \<and> begins b (concat (map enc vs)) \<and> b' = advance (length (concat (map enc vs))) b)"
proof (induction n arbitrary: b s)
  case 0
  then show ?case by (auto simp: advance_def)
next
  case (Suc n)
  show ?case
  proof (cases "\<exists>v. ok v \<and> begins b (enc v)")
    case True
    then obtain v where v: "ok v" "begins b (enc v)" by blast
    then have rd: "rd b = POk v (advance (length (enc v)) b)" using Suc.prems by (simp add: rd_iff)
    have wf: "wf_buf (advance (length (enc v)) b)" using Suc.prems v by blast
    have uniq: "u = v" if "ok u" "begins b (enc u)" for u
      using that rd Suc.prems rd_iff [of b u "advance (length (enc u)) b"] by simp
    show ?thesis
    proof
      assume "parse_elements rd step (Suc n) b s = GOk b' s'"
      then obtain vs where vs: "length vs = n" "list_all ok vs" "s' = foldl step (step s v) vs"
          "begins (advance (length (enc v)) b) (concat (map enc vs))"
          "b' = advance (length (concat (map enc vs))) (advance (length (enc v)) b)"
        using rd Suc.IH [OF wf] by auto
      with v show "\<exists>vs. length vs = Suc n \<and> list_all ok vs \<and> s' = foldl step s vs
          \<and> begins b (concat (map enc vs)) \<and> b' = advance (length (concat (map enc vs))) b"
        by (intro exI [of _ "v # vs"]) simp
    next
      assume "\<exists>vs. length vs = Suc n \<and> list_all ok vs \<and> s' = foldl step s vs
          \<and> begins b (concat (map enc vs)) \<and> b' = advance (length (concat (map enc vs))) b"
      then obtain us where us: "length us = Suc n" "list_all ok us" "s' = foldl step s us"
          "begins b (concat (map enc us))" "b' = advance (length (concat (map enc us))) b"
        by blast
      then obtain u vs where "us = u # vs" by (cases us) auto
      with us uniq [of u] show "parse_elements rd step (Suc n) b s = GOk b' s'"
        using rd Suc.IH [OF wf] by auto
    qed
  next
    case False
    then have "rd b \<noteq> POk v c" for v c by (auto simp: rd_iff [OF Suc.prems])
    moreover have "\<not> (length vs = Suc n \<and> list_all ok vs \<and> begins b (concat (map enc vs)))" for vs
      using False by (cases vs) auto
    ultimately show ?thesis by (auto split: pres.split)
  qed
qed

text \<open>A count and as many elements.\<close>

lemma counted_iff:
  assumes wf: "wf_buf b" and N: "N < 2 ^ 32"
  shows "(\<exists>c. parse_int32 b = POk num c \<and> unat num \<le> N \<and> parse_elements rd step (unat num) c s = GOk b' s')
    \<longleftrightarrow> (\<exists>vs. length vs \<le> N \<and> num = of_nat (length vs) \<and> list_all ok vs \<and> s' = foldl step s vs
          \<and> begins b (le32 num @ concat (map enc vs))
          \<and> b' = advance (length (le32 num @ concat (map enc vs))) b)" (is "?L \<longleftrightarrow> (\<exists>vs. ?P vs)")
proof
  assume ?L
  then obtain c where c: "begins b (le32 num)" "c = advance 4 b" "unat num \<le> N"
    and els: "parse_elements rd step (unat num) c s = GOk b' s'" by (auto simp: parse_int_iffs wf)
  have "wf_buf c" using wf c by auto
  from els [unfolded elements_iff [OF this]] obtain vs where
    vs: "length vs = unat num" "list_all ok vs" "s' = foldl step s vs" "begins c (concat (map enc vs))"
      "b' = advance (length (concat (map enc vs))) c" by blast
  from vs(1) have "num = of_nat (length vs)" by simp
  then have "?P vs" using vs c by simp
  then show "\<exists>vs. ?P vs" ..
next
  assume "\<exists>vs. ?P vs"
  then obtain vs where vs: "length vs \<le> N" "num = of_nat (length vs)" "list_all ok vs"
    "s' = foldl step s vs" "begins b (le32 num)" "begins (advance 4 b) (concat (map enc vs))"
    "b' = advance (length (concat (map enc vs))) (advance 4 b)" by auto
  have wf1: "wf_buf (advance 4 b)" by (rule begins_wf [OF wf vs(5)]) simp
  have n: "unat num = length vs" using vs N by (simp add: unat_of_nat_small)
  have "parse_elements rd step (length vs) (advance 4 b) s = GOk b' s'"
    unfolding elements_iff [OF wf1] using vs by (intro exI [of _ vs]) simp
  moreover have "parse_int32 b = POk num (advance 4 b)" using vs(5) by (simp add: parse_int_iffs wf)
  ultimately show ?L using vs(1) n by auto
qed

text \<open>A failing loop has taken in some elements, all valid.\<close>

lemma elements_fail:
  "wf_buf b \<Longrightarrow> parse_elements rd step n b s = GFail s' \<Longrightarrow>
     \<exists>vs. length vs < n \<and> list_all ok vs \<and> s' = foldl step s vs"
proof (induction n arbitrary: b s)
  case (Suc n)
  show ?case
  proof (cases "rd b")
    case (POk v b')
    with Suc.prems have "ok v" "wf_buf b'" "parse_elements rd step n b' (step s v) = GFail s'"
      by (auto simp: rd_iff)
    with Suc.IH [of b' "step s v"] obtain vs where
      "length vs < n" "list_all ok vs" "s' = foldl step (step s v) vs" by blast
    with \<open>ok v\<close> show ?thesis by (intro exI [of _ "v # vs"]) simp
  qed (use Suc.prems in \<open>auto intro: exI [of _ "[]"]\<close>)
qed simp

end

section \<open>Probes are read exactly\<close>

definition valid_probe :: "probe_t \<Rightarrow> bool" where
  "valid_probe p \<longleftrightarrow>
     wf_probe p \<and> check_us_inst_func_args (func_args p) \<and> check_us_inst_func_ret_type (ret_type p)"

lemma parse_us_inst_func_iff:
  assumes wf: "wf_buf b"
  shows "parse_us_inst_func b = POk p b' \<longleftrightarrow>
    valid_probe p \<and> begins b (func_block p) \<and> b' = advance (length (func_block p)) b"
    (is "?L = ?R")
proof
  assume ?L
  then obtain k ad b1 args b2 rt where
    k: "cstrlen (drop 8 (unread b)) = Some k"
    and ad: "parse_int64 b = POk ad b1" and str: "parse_string b1 = POk args b2"
    and rt: "parse_int8 b2 = POk rt b'"
    and chk: "check_us_inst_func_args args" "check_us_inst_func_ret_type rt"
    and p: "p = new_probe (of_nat (8 + k + 1 + 1)) ad args rt"
    by (auto simp: parse_us_inst_func_def pres_POk_iffs parse_string_no_alloc_eq Let_def
        split: option.splits)
  from ad have b1: "begins b (le64 ad)" "b1 = advance 8 b" by (simp_all add: parse_int_iffs wf)
  with wf have wf1: "wf_buf b1" by auto
  with str have b2: "is_str args" "begins b1 (args @ [0])" "b2 = advance (length args + 1) b1"
    by (simp_all add: parse_string_iff del: begins_append)
  with wf1 have wf2: "wf_buf b2" by (auto simp del: begins_append)
  with rt have b': "begins b2 [rt]" "b' = advance 1 b2" by (simp_all add: parse_int_iffs)
  have "cstrlen (unread b1) = Some (length args)"
    using b2(1,2) unfolding begins_iff by auto
  with k b1 have "k = length args" by simp
  moreover have "begins b (func_block p)"
    using b1 b2 b' by (simp add: func_block_def p new_probe_def add.commute)
  moreover from begins_small [OF wf this] have "length args + 10 < 2 ^ 32"
    by (simp add: func_block_def p new_probe_def)
  ultimately show ?R
    using chk b1 b2 b' by (simp add: valid_probe_def wf_probe_def p new_probe_def func_block_def
        unat_of_nat_small del: of_nat_add)
next
  assume ?R
  then have p: "begins b (le64 (func_addr p))" "begins (advance 8 b) (func_args p @ [0])"
      "begins (advance (9 + length (func_args p)) b) [ret_type p]"
    and str: "is_str (func_args p)" and chk: "check_us_inst_func_args (func_args p)"
      "check_us_inst_func_ret_type (ret_type p)"
    and sz: "unat (p_size p) = length (func_args p) + 10"
    and b': "b' = advance (length (func_args p) + 10) b"
    by (simp_all add: func_block_def valid_probe_def wf_probe_def add.commute)
  have wf1: "wf_buf (advance 8 b)" using wf p(1) by auto
  then have wf2: "wf_buf (advance (9 + length (func_args p)) b)"
    using begins_wf [OF wf1 p(2) refl] by (simp add: add.commute)
  have len: "cstrlen (drop 8 (unread b)) = Some (length (func_args p))"
    using p(2) str unfolding begins_iff by auto
  have ad: "parse_int64 b = POk (func_addr p) (advance 8 b)" using p wf by (simp add: parse_int_iffs)
  have st: "parse_string_no_alloc (advance 8 b)
      = POk (func_args p) (advance (9 + length (func_args p)) b)"
    unfolding parse_string_no_alloc_eq
    using p(2) str by (simp add: parse_string_iff [OF wf1] del: begins_append)
  have rt: "parse_int8 (advance (9 + length (func_args p)) b) = POk (ret_type p) b'"
    using p wf2 b' by (simp add: parse_int_iffs add.commute)
  have "of_nat (8 + length (func_args p) + 1 + 1) = p_size p"
    using arg_cong [OF sz, of "of_nat :: nat \<Rightarrow> u32"] by (simp add: add.commute)
  then have "new_probe (of_nat (8 + length (func_args p) + 1 + 1)) (func_addr p) (func_args p) (ret_type p) = p"
    by (simp add: new_probe_def del: of_nat_add)
  with len ad st rt chk show ?L by (simp add: parse_us_inst_func_def pcheck_def)
qed

interpretation probe_reader: exact_reader parse_us_inst_func func_block valid_probe
  by unfold_locales (rule parse_us_inst_func_iff)

text \<open>
  Where the look-ahead reads outside the message: whenever there is no NUL behind the address, in
  particular in front of a truncated probe. Such a message does not fail, it faults.
\<close>

lemma parse_us_inst_func_fault_iff:
  assumes wf: "wf_buf b"
  shows "parse_us_inst_func b = PFault \<longleftrightarrow> 0 \<notin> set (drop 8 (unread b))"
proof (cases "cstrlen (drop 8 (unread b))")
  case None
  then have "parse_us_inst_func b = PFault" by (simp only: parse_us_inst_func_def option.case)
  with None show ?thesis by (simp add: cstrlen_None_iff)
next
  case (Some k)
  then have "k < length (drop 8 (unread b))" by (rule cstrlen_Some_less)
  then have wf1: "wf_buf (advance 8 b)" and wf2: "wf_buf (advance (k + 9) b)"
    and enough: "8 \<le> length (unread b)"
    using wf by (auto simp: add.commute)
  have int8: "parse_int8 (advance (k + 9) b) \<noteq> PFault" using r8.rd_no_fault wf2 by blast
  have str: "parse_string_no_alloc (advance 8 b) = POk (take k (drop 8 (unread b))) (advance (k + 9) b)"
    using Some wf1 by (simp add: parse_string_no_alloc_eq parse_string_cases add.commute)
  have "parse_us_inst_func b \<noteq> PFault"
    using Some int8 str r64.rd_eq [OF wf] enough
    by (cases "parse_int8 (advance (k + 9) b)") (auto simp: parse_us_inst_func_def pcheck_def)
  with Some cstrlen_None_iff [of "drop 8 (unread b)"] show ?thesis by auto
qed

section \<open>Libraries and applications are read exactly\<close>

text \<open>The lists come out reversed: \<open>mirror\<close> puts an element's probes back into the received order.\<close>

definition mirror :: "data_t \<Rightarrow> data_t" where
  "mirror d = d\<lparr>d_list := rev (d_list d)\<rparr>"

lemma mirror_mirror [simp]: "mirror (mirror d) = d"
  by (simp add: mirror_def)

lemma mirror_sels [simp]:
  "d_size (mirror d) = d_size d" "d_hash (mirror d) = d_hash d" "d_data (mirror d) = d_data d"
  "d_func_num (mirror d) = d_func_num d" "d_list (mirror d) = rev (d_list d)"
  by (simp_all add: mirror_def)

lemma probes_size_rev [simp]: "probes_size (rev ps) = probes_size ps"
  by (simp add: probes_size_def rev_map [symmetric])

lemma wf_data_mirror [simp]: "wf_data (mirror d) = wf_data d"
  by (simp add: wf_data_def)

lemma foldl_data_list_append [simp]: "foldl data_list_append l vs = rev vs @ l"
  by (induction vs arbitrary: l) (simp_all add: data_list_append_def)

lemma foldl_probe_list_append:
  "d_func_num_update (\<lambda>_. n) (foldl probe_list_append d ps) =
     d\<lparr>d_size := d_size d + of_nat (probes_size ps), d_func_num := n, d_list := rev ps @ d_list d\<rparr>"
  by (induction ps arbitrary: d) (simp_all add: probe_list_append_def Let_def add.assoc)

text \<open>What a parsed element looks like once its header \<open>h\<close> is added to the size.\<close>

definition built :: "inst_data \<Rightarrow> u32 \<Rightarrow> probe_t list \<Rightarrow> data_t" where
  "built x hash ps =
     \<lparr>d_hash = hash, d_size = of_nat (probes_size ps + (length (head_block x) + 4)), d_data = x,
      d_func_num = of_nat (length ps), d_list = rev ps\<rparr>"

abbreviation funcs_enc :: "probe_t list \<Rightarrow> bytes" where
  "funcs_enc ps \<equiv> le32 (of_nat (length ps)) @ concat (map func_block ps)"

lemma gres_to_pres_iff:
  "(case r of GOk b s \<Rightarrow> f b s | GFail s \<Rightarrow> PFail | GFault \<Rightarrow> PFault) = POk v b' \<longleftrightarrow>
     (\<exists>c s. r = GOk c s \<and> f c s = POk v b')"
  by (cases r) auto

lemma parse_func_inst_list_iff:
  assumes wf: "wf_buf b"
  shows "parse_func_inst_list b d = POk d' b' \<longleftrightarrow>
    (\<exists>ps. length ps \<le> 100000 \<and> list_all valid_probe ps
       \<and> d' = d\<lparr>d_size := d_size d + of_nat (probes_size ps), d_func_num := of_nat (length ps),
               d_list := rev ps @ d_list d\<rparr>
       \<and> begins b (funcs_enc ps) \<and> b' = advance (length (funcs_enc ps)) b)"
proof -
  have "parse_func_inst_list b d = POk d' b' \<longleftrightarrow> (\<exists>num s'. (\<exists>c. parse_int32 b = POk num c \<and> unat num \<le> 100000
      \<and> parse_elements parse_us_inst_func probe_list_append (unat num) c d = GOk b' s')
      \<and> d' = s'\<lparr>d_func_num := num\<rparr>)"
    by (auto simp: parse_func_inst_list_def pres_POk_iffs check_func_count_iff gres_to_pres_iff)
  also have "\<dots> \<longleftrightarrow> (\<exists>num s'. (\<exists>ps. length ps \<le> 100000 \<and> num = of_nat (length ps) \<and> list_all valid_probe ps
      \<and> s' = foldl probe_list_append d ps \<and> begins b (le32 num @ concat (map func_block ps))
      \<and> b' = advance (length (le32 num @ concat (map func_block ps))) b) \<and> d' = s'\<lparr>d_func_num := num\<rparr>)"
    by (subst probe_reader.counted_iff [OF wf]) simp_all
  also have "\<dots> \<longleftrightarrow> (\<exists>ps. length ps \<le> 100000 \<and> list_all valid_probe ps
      \<and> d' = (foldl probe_list_append d ps)\<lparr>d_func_num := of_nat (length ps)\<rparr>
      \<and> begins b (funcs_enc ps) \<and> b' = advance (length (funcs_enc ps)) b)"
    by blast
  finally show ?thesis by (simp only: foldl_probe_list_append)
qed

text \<open>Valid libraries and applications, as the checks have them.\<close>

definition valid_funcs :: "data_t \<Rightarrow> bool" where
  "valid_funcs d \<longleftrightarrow> wf_data d \<and> list_all valid_probe (d_list d) \<and> length (d_list d) \<le> 100000"

definition valid_lib :: "(bytes \<Rightarrow> bool) \<Rightarrow> data_t \<Rightarrow> bool" where
  "valid_lib stat_ok d \<longleftrightarrow>
     is_LibData (d_data d) \<and> valid_funcs d \<and> d_hash d = calc_lib_hash (d_data d)
     \<and> check_exec_path stat_ok (bin_path (d_data d))"

definition valid_app :: "(bytes \<Rightarrow> bool) \<Rightarrow> data_t \<Rightarrow> bool" where
  "valid_app stat_ok d \<longleftrightarrow>
     \<not> is_LibData (d_data d) \<and> valid_funcs d \<and> d_hash d = calc_app_hash (d_data d)
     \<and> check_app_id (app_type (d_data d)) (app_id (d_data d))
     \<and> app_path_ok stat_ok (app_type (d_data d)) (app_id (d_data d)) (exe_path (d_data d))"

lemma length_funcs_enc:
  "list_all valid_probe ps \<Longrightarrow> length (funcs_enc ps) = 4 + probes_size ps"
  by (induction ps) (auto simp: valid_probe_def wf_probe_def)

lemma built_wf:
  assumes "list_all valid_probe ps" "length ps \<le> 100000" "head_strs x"
    and "probes_size ps + (length (head_block x) + 4) < 2 ^ 32"
  shows "valid_funcs (built x h ps)"
  using assms
  by (auto simp: valid_funcs_def built_def wf_data_def unat_of_nat_small list_all_iff valid_probe_def
      simp del: of_nat_add)

lemma valid_funcs_built:
  assumes "valid_funcs d"
  shows "d = built (d_data d) (d_hash d) (rev (d_list d))"
proof -
  from assms have "unat (d_size d) = probes_size (d_list d) + (length (head_block (d_data d)) + 4)"
    and "unat (d_func_num d) = length (d_list d)"
    by (simp_all add: valid_funcs_def wf_data_def)
  from arg_cong [OF this(1), of "of_nat :: nat \<Rightarrow> u32"] arg_cong [OF this(2), of "of_nat :: nat \<Rightarrow> u32"]
  show ?thesis by (simp add: built_def)
qed

lemma enc_built:
  "enc_data head (mirror (built x h ps)) = head x @ funcs_enc ps"
  by (simp add: enc_data_def enc_element_def built_def)

lemma cur_pos_advance [simp]: "cur_pos (advance n b) = cur_pos b + n"
  by (simp add: advance_def)

text \<open>
  A library and an application are read alike: a head, then the functions; the size counts both. The
  contract of a head parser gives that of the element parser.
\<close>

definition parse_element ::
  "(msg_buf_t \<Rightarrow> inst_data pres) \<Rightarrow> (inst_data \<Rightarrow> u32) \<Rightarrow> msg_buf_t \<Rightarrow> data_t pres" where
  "parse_element rd_head hash b =
     pbind (rd_head b) (\<lambda>x c.
     pbind (parse_func_inst_list c (new_data x)) (\<lambda>d e.
     POk (d\<lparr>d_size := d_size d + (of_nat (cur_pos c - cur_pos b) + 4), d_hash := hash x\<rparr>) e))"

locale head_reader = exact_reader rd_head head ok
  for rd_head :: "msg_buf_t \<Rightarrow> inst_data pres" and head :: "inst_data \<Rightarrow> bytes"
    and ok :: "inst_data \<Rightarrow> bool" +
  fixes hash :: "inst_data \<Rightarrow> u32"
  assumes head_len: "ok x \<Longrightarrow> length (head x) = length (head_block x)"
    and head_str: "ok x \<Longrightarrow> head_strs x"
begin

lemma element_built:
  assumes wf: "wf_buf b"
  shows "parse_element rd_head hash b = POk d b' \<longleftrightarrow>
    (\<exists>x ps. ok x \<and> list_all valid_probe ps \<and> length ps \<le> 100000 \<and> d = built x (hash x) ps
       \<and> begins b (head x @ funcs_enc ps) \<and> b' = advance (length (head x @ funcs_enc ps)) b)"
    (is "?L \<longleftrightarrow> ?R")
proof
  assume ?L
  then obtain x c d1 where x: "rd_head b = POk x c"
    and fs: "parse_func_inst_list c (new_data x) = POk d1 b'"
    and d: "d = d1\<lparr>d_size := d_size d1 + (of_nat (cur_pos c - cur_pos b) + 4), d_hash := hash x\<rparr>"
    by (auto simp: parse_element_def pres_POk_iffs)
  from x have c: "ok x" "begins b (head x)" "c = advance (length (head x)) b"
    by (simp_all add: rd_iff wf)
  with wf have "wf_buf c" by auto
  from fs [unfolded parse_func_inst_list_iff [OF this]] obtain ps where
    ps: "length ps \<le> 100000" "list_all valid_probe ps" "begins c (funcs_enc ps)"
      "b' = advance (length (funcs_enc ps)) c"
    and d1: "d1 = (new_data x)\<lparr>d_size := of_nat (probes_size ps),
          d_func_num := of_nat (length ps), d_list := rev ps\<rparr>"
    by (auto simp: new_data_def)
  have "d = built x (hash x) ps"
    using c by (simp add: d d1 built_def new_data_def head_len)
  with c ps show ?R by (intro exI [of _ x] exI [of _ ps]) simp
next
  assume ?R
  then obtain x ps where m: "ok x" "list_all valid_probe ps" "length ps \<le> 100000"
    "d = built x (hash x) ps" "begins b (head x)" "begins (advance (length (head x)) b) (funcs_enc ps)"
    "b' = advance (length (funcs_enc ps)) (advance (length (head x)) b)" by auto
  have x: "rd_head b = POk x (advance (length (head x)) b)" using m by (simp add: rd_iff wf)
  have wfc: "wf_buf (advance (length (head x)) b)" by (rule begins_wf [OF wf m(5) refl])
  have "parse_func_inst_list (advance (length (head x)) b) (new_data x)
    = POk ((new_data x)\<lparr>d_size := of_nat (probes_size ps), d_func_num := of_nat (length ps),
          d_list := rev ps\<rparr>) b'"
    unfolding parse_func_inst_list_iff [OF wfc] using m by (intro exI [of _ ps]) (simp add: new_data_def)
  with x m show ?L by (simp add: parse_element_def built_def new_data_def head_len)
qed

lemma element_iff:
  assumes wf: "wf_buf b"
  shows "parse_element rd_head hash b = POk d b' \<longleftrightarrow>
    (ok (d_data d) \<and> valid_funcs d \<and> d_hash d = hash (d_data d))
    \<and> begins b (enc_data head (mirror d)) \<and> b' = advance (length (enc_data head (mirror d))) b"
    (is "_ \<longleftrightarrow> ?R")
  unfolding element_built [OF wf]
proof
  assume "\<exists>x ps. ok x \<and> list_all valid_probe ps \<and> length ps \<le> 100000 \<and> d = built x (hash x) ps
      \<and> begins b (head x @ funcs_enc ps) \<and> b' = advance (length (head x @ funcs_enc ps)) b"
  then obtain x ps where m: "ok x" "list_all valid_probe ps" "length ps \<le> 100000"
    "d = built x (hash x) ps" "begins b (head x @ funcs_enc ps)"
    "b' = advance (length (head x @ funcs_enc ps)) b" by blast
  have "length (head x @ funcs_enc ps) < 2 ^ 32" using begins_small [OF wf m(5)] by simp
  then have "probes_size ps + (length (head_block x) + 4) < 2 ^ 32"
    using length_funcs_enc [OF m(2)] head_len [OF m(1)] by simp
  with m have "valid_funcs d" by (simp add: built_wf head_str)
  moreover have "d_data d = x" "d_hash d = hash x" by (simp_all add: m(4) built_def)
  moreover have "enc_data head (mirror d) = head x @ funcs_enc ps" by (simp add: m(4) enc_built)
  ultimately show ?R using m by simp
next
  assume R: ?R
  let ?ps = "rev (d_list d)"
  have d: "d = built (d_data d) (hash (d_data d)) ?ps" using R valid_funcs_built [of d] by simp
  have e: "enc_data head (mirror d) = head (d_data d) @ funcs_enc ?ps"
    using arg_cong [OF d, of mirror] by (simp only: enc_built)
  have "list_all valid_probe ?ps" "length ?ps \<le> 100000"
    using R by (auto simp: valid_funcs_def list_all_iff)
  with d e R show "\<exists>x ps. ok x \<and> list_all valid_probe ps \<and> length ps \<le> 100000 \<and> d = built x (hash x) ps
      \<and> begins b (head x @ funcs_enc ps) \<and> b' = advance (length (head x @ funcs_enc ps)) b"
    by metis
qed

end

lemma pbind_cong:
  "r = r' \<Longrightarrow> (\<And>v b. r' = POk v b \<Longrightarrow> f v b = g v b) \<Longrightarrow> pbind r f = pbind r' g"
  by (cases r') auto

lemma pbind_assoc: "pbind (pbind r f) g = pbind r (\<lambda>v b. pbind (f v b) g)"
  by (cases r) auto

lemma pbind_pcheck: "pbind (pcheck c r) g = pcheck c (pbind r g)"
  by (simp add: pcheck_def)

lemma parse_func_inst_list_data:
  assumes "wf_buf b" "parse_func_inst_list b d = POk d' b'"
  shows "d_data d' = d_data d"
  using assms(2) by (auto simp: parse_func_inst_list_iff [OF assms(1)])

definition parse_lib_head :: "(bytes \<Rightarrow> bool) \<Rightarrow> msg_buf_t \<Rightarrow> inst_data pres" where
  "parse_lib_head stat_ok b =
     pbind (parse_string b) (\<lambda>path b. pcheck (check_exec_path stat_ok path) (POk (LibData path) b))"

definition lib_head_ok :: "(bytes \<Rightarrow> bool) \<Rightarrow> inst_data \<Rightarrow> bool" where
  "lib_head_ok stat_ok x \<longleftrightarrow> is_LibData x \<and> head_strs x \<and> check_exec_path stat_ok (bin_path x)"

definition parse_app_head :: "(bytes \<Rightarrow> bool) \<Rightarrow> msg_buf_t \<Rightarrow> inst_data pres" where
  "parse_app_head stat_ok b =
     pbind (parse_int32 b) (\<lambda>ty b.
     pcheck (check_app_type ty) (
     pbind (parse_string b) (\<lambda>ident b.
     pcheck (check_app_id ty ident) (
     pbind (parse_string b) (\<lambda>exe b.
     pcheck (app_path_ok stat_ok ty ident exe) (
     POk (AppData ty ident exe) b))))))"

definition app_head_ok :: "(bytes \<Rightarrow> bool) \<Rightarrow> inst_data \<Rightarrow> bool" where
  "app_head_ok stat_ok x \<longleftrightarrow>
     \<not> is_LibData x \<and> head_strs x \<and> check_app_id (app_type x) (app_id x)
     \<and> app_path_ok stat_ok (app_type x) (app_id x) (exe_path x)"

interpretation lib_head_reader: head_reader "parse_lib_head stat_ok" pack_lib_head_to_array
  "lib_head_ok stat_ok" calc_lib_hash for stat_ok
proof
  fix b x b'
  assume wf: "wf_buf b"
  show "parse_lib_head stat_ok b = POk x b' \<longleftrightarrow> lib_head_ok stat_ok x
      \<and> begins b (pack_lib_head_to_array x) \<and> b' = advance (length (pack_lib_head_to_array x)) b"
    by (cases x) (auto simp: parse_lib_head_def pres_POk_iffs parse_string_iff wf lib_head_ok_def
        pack_lib_head_to_array_def)
next
  fix x
  show "lib_head_ok stat_ok x \<Longrightarrow> length (pack_lib_head_to_array x) = length (head_block x)"
    by (cases x) (auto simp: lib_head_ok_def pack_lib_head_to_array_def)
qed (simp add: lib_head_ok_def)

lemma parse_inst_lib_element:
  assumes wf: "wf_buf b"
  shows "parse_inst_lib stat_ok b = parse_element (parse_lib_head stat_ok) calc_lib_hash b"
  unfolding parse_inst_lib_def parse_element_def parse_lib_head_def pbind_assoc pbind_pcheck pbind.simps
proof (rule pbind_cong [OF refl])
  fix path c
  assume "parse_string b = POk path c"
  then have c: "begins b (path @ [0])" "c = advance (length (path @ [0])) b"
    by (simp_all add: parse_string_iff wf del: begins_append)
  then have "wf_buf c" using begins_wf [OF wf c(1) refl] by simp
  then have "d_data d = LibData path"
    if "parse_func_inst_list c (new_data (LibData path)) = POk d e" for d e
    using that parse_func_inst_list_data by (fastforce simp: new_data_def)
  then show "pcheck (check_exec_path stat_ok path)
         (pbind (parse_func_inst_list c (new_lib\<lparr>d_data := LibData path\<rparr>))
           (\<lambda>dest. POk (dest\<lparr>d_size := d_size dest + (word_of_nat (length path) + 1 + 4),
                           d_hash := calc_lib_hash (d_data dest)\<rparr>))) =
        pcheck (check_exec_path stat_ok path)
         (pbind (parse_func_inst_list c (new_data (LibData path)))
           (\<lambda>d. POk (d\<lparr>d_size := d_size d + (word_of_nat (cur_pos c - cur_pos b) + 4),
                        d_hash := calc_lib_hash (LibData path)\<rparr>)))"
    using c by (intro arg_cong [of _ _ "pcheck _"] pbind_cong)
      (auto simp: new_lib_def new_data_def add.commute)
qed

lemma parse_app_head_iff:
  assumes wf: "wf_buf b"
  shows "parse_app_head stat_ok b = POk x b' \<longleftrightarrow>
    (\<exists>ty ident exe. x = AppData ty ident exe \<and> check_app_type ty \<and> check_app_id ty ident
       \<and> app_path_ok stat_ok ty ident exe \<and> is_str ident \<and> is_str exe
       \<and> begins b (le32 ty @ ident @ 0 # exe @ [0]) \<and> b' = advance (length ident + length exe + 6) b)"
    (is "?L \<longleftrightarrow> ?R")
proof
  assume ?L
  then obtain ty c ident d exe where ty: "parse_int32 b = POk ty c"
    and ident: "parse_string c = POk ident d" and exe: "parse_string d = POk exe b'"
    and x: "check_app_type ty" "check_app_id ty ident" "app_path_ok stat_ok ty ident exe"
      "x = AppData ty ident exe"
    by (auto simp: parse_app_head_def pres_POk_iffs)
  from ty have c: "begins b (le32 ty)" "c = advance 4 b" by (simp_all add: parse_int_iffs wf)
  with wf have wfc: "wf_buf c" by auto
  with ident have d: "is_str ident" "begins c (ident @ [0])" "d = advance (length (ident @ [0])) c"
    by (simp_all add: parse_string_iff del: begins_append)
  then have "wf_buf d" using begins_wf [OF wfc d(2) refl] by simp
  with exe have "is_str exe" "begins d (exe @ [0])" "b' = advance (length (exe @ [0])) d"
    by (simp_all add: parse_string_iff del: begins_append)
  with x c d show ?R by (simp add: add.commute add.left_commute)
next
  assume ?R
  then obtain ty ident exe where x: "check_app_type ty" "check_app_id ty ident"
      "app_path_ok stat_ok ty ident exe" "x = AppData ty ident exe" "is_str ident" "is_str exe"
    and b: "begins b (le32 ty)" "begins (advance 4 b) (ident @ [0])"
      "begins (advance (length ident + 5) b) (exe @ [0])"
      "b' = advance (length ident + length exe + 6) b"
    by (auto simp: ac_simps)
  have wfc: "wf_buf (advance 4 b)" using wf b by auto
  have wfd: "wf_buf (advance (length ident + 5) b)"
    using begins_wf [OF wfc b(2) refl] by (simp add: ac_simps)
  have "parse_int32 b = POk ty (advance 4 b)" using b by (simp add: parse_int_iffs wf)
  moreover have "parse_string (advance 4 b) = POk ident (advance (length ident + 5) b)"
    using b x by (simp add: parse_string_iff wfc ac_simps del: begins_append)
  moreover have "parse_string (advance (length ident + 5) b) = POk exe b'"
    using b x by (simp add: parse_string_iff wfd ac_simps del: begins_append)
  ultimately show ?L using x by (simp add: parse_app_head_def pcheck_def)
qed

interpretation app_head_reader: head_reader "parse_app_head stat_ok" pack_app_head_to_array
  "app_head_ok stat_ok" calc_app_hash for stat_ok
proof
  fix b x b'
  assume wf: "wf_buf b"
  show "parse_app_head stat_ok b = POk x b' \<longleftrightarrow> app_head_ok stat_ok x
      \<and> begins b (pack_app_head_to_array x) \<and> b' = advance (length (pack_app_head_to_array x)) b"
    by (cases x) (auto simp: parse_app_head_iff [OF wf] app_head_ok_def pack_app_head_to_array_def
        add.commute add.left_commute dest: check_app_id_needs_type)
next
  fix x
  show "app_head_ok stat_ok x \<Longrightarrow> length (pack_app_head_to_array x) = length (head_block x)"
    by (cases x) (auto simp: app_head_ok_def pack_app_head_to_array_def)
qed (simp add: app_head_ok_def)

lemma parse_inst_app_element:
  assumes wf: "wf_buf b"
  shows "parse_inst_app stat_ok b = parse_element (parse_app_head stat_ok) calc_app_hash b"
proof -
  have "d_data d = AppData ty ident exe"
    if "parse_app_head stat_ok b = POk (AppData ty ident exe) c"
      and "parse_func_inst_list c (new_data (AppData ty ident exe)) = POk d e" for ty ident exe c d e
  proof -
    have "wf_buf c"
      using that(1) begins_wf [OF wf] by (auto simp: app_head_reader.rd_iff [OF wf])
    from parse_func_inst_list_data [OF this that(2)] show ?thesis by (simp add: new_data_def)
  qed
  then have *: "pbind (parse_func_inst_list c (new_data x))
        (\<lambda>d e. POk (d\<lparr>d_size := d_size d + k, d_hash := calc_app_hash x\<rparr>) e)
      = pbind (parse_func_inst_list c (new_data x))
        (\<lambda>d e. POk (d\<lparr>d_size := d_size d + k, d_hash := calc_app_hash (d_data d)\<rparr>) e)"
    if "parse_app_head stat_ok b = POk x c" for x c k
    using that
    by (cases "parse_func_inst_list c (new_data x)")
      (auto simp: parse_app_head_def pres_POk_iffs)
  have "parse_element (parse_app_head stat_ok) calc_app_hash b
      = pbind (parse_app_head stat_ok b) (\<lambda>x c.
        pbind (parse_func_inst_list c (new_data x)) (\<lambda>d e.
        POk (d\<lparr>d_size := d_size d + (of_nat (cur_pos c - cur_pos b) + 4),
               d_hash := calc_app_hash (d_data d)\<rparr>) e))"
    unfolding parse_element_def by (rule pbind_cong [OF refl]) (rule *)
  then show ?thesis
    by (simp add: parse_inst_app_def parse_app_head_def pbind_assoc pbind_pcheck new_app_def new_data_def
        if_distrib [of "\<lambda>r. pbind r _"])
qed

section \<open>The lists\<close>

text \<open>Elements of a received list, in the received order.\<close>

lemma lib_head_ok_valid:
  "lib_head_ok stat_ok (d_data d) \<and> valid_funcs d \<and> d_hash d = calc_lib_hash (d_data d)
     \<longleftrightarrow> valid_lib stat_ok d"
  by (auto simp: lib_head_ok_def valid_lib_def valid_funcs_def wf_data_def)

lemma app_head_ok_valid:
  "app_head_ok stat_ok (d_data d) \<and> valid_funcs d \<and> d_hash d = calc_app_hash (d_data d)
     \<longleftrightarrow> valid_app stat_ok d"
  by (auto simp: app_head_ok_def valid_app_def valid_funcs_def wf_data_def)

interpretation lib_reader: exact_reader "parse_inst_lib stat_ok" "\<lambda>d. enc_lib (mirror d)"
  "valid_lib stat_ok" for stat_ok
  by unfold_locales
    (simp add: parse_inst_lib_element lib_head_reader.element_iff lib_head_ok_valid)

interpretation app_reader: exact_reader "parse_inst_app stat_ok" "\<lambda>d. enc_app (mirror d)"
  "valid_app stat_ok" for stat_ok
  by unfold_locales
    (simp add: parse_inst_app_element app_head_reader.element_iff app_head_ok_valid)

definition libs_enc :: "data_t list \<Rightarrow> bytes" where
  "libs_enc ds = le32 (of_nat (length ds)) @ concat (map (\<lambda>d. enc_lib (mirror d)) ds)"

definition apps_enc :: "data_t list \<Rightarrow> bytes" where
  "apps_enc ds = le32 (of_nat (length ds)) @ concat (map (\<lambda>d. enc_app (mirror d)) ds)"

lemma gmap_iffs:
  "gmap f r = GOk b t \<longleftrightarrow> (\<exists>s. r = GOk b s \<and> t = f s)"
  "gmap f r = GFail t \<longleftrightarrow> (\<exists>s. r = GFail s \<and> t = f s)"
  "gmap f r = GFault \<longleftrightarrow> r = GFault"
  by (cases r; auto)+

lemma parse_lib_inst_list_iff:
  assumes wf: "wf_buf b"
  shows "parse_lib_inst_list stat_ok b num lib_list = GOk b' (num', lib_list') \<longleftrightarrow>
    (\<exists>libs. length libs \<le> 1000 \<and> num' = of_nat (length libs) \<and> list_all (valid_lib stat_ok) libs
       \<and> lib_list' = rev libs @ lib_list
       \<and> begins b (libs_enc libs) \<and> b' = advance (length (libs_enc libs)) b)"
proof -
  have "parse_lib_inst_list stat_ok b num lib_list = GOk b' (num', lib_list') \<longleftrightarrow>
    (\<exists>c. parse_int32 b = POk num' c \<and> unat num' \<le> 1000
       \<and> parse_elements (parse_inst_lib stat_ok) data_list_append (unat num') c lib_list = GOk b' lib_list')"
    by (auto simp: parse_lib_inst_list_def check_lib_inst_count_iff gmap_iffs split: pres.splits)
  then show ?thesis
    by (subst (asm) lib_reader.counted_iff [OF wf]) (auto simp: libs_enc_def)
qed

lemma parse_app_inst_list_iff:
  assumes wf: "wf_buf b"
  shows "parse_app_inst_list stat_ok malloc_ok b num app_list seq = GOk b' (num', app_list', seq') \<longleftrightarrow>
    (\<exists>apps. length apps \<le> 1000 \<and> num' = of_nat (length apps) \<and> list_all (valid_app stat_ok) apps
       \<and> app_list' = rev apps @ app_list \<and> begins b (apps_enc apps)
       \<and> parse_replay_event_seq malloc_ok (advance (length (apps_enc apps)) b) seq = GOk b' seq')"
proof -
  have "parse_app_inst_list stat_ok malloc_ok b num app_list seq = GOk b' (num', app_list', seq') \<longleftrightarrow>
    (\<exists>d. (\<exists>c. parse_int32 b = POk num' c \<and> unat num' \<le> 1000
       \<and> parse_elements (parse_inst_app stat_ok) data_list_append (unat num') c app_list = GOk d app_list')
     \<and> parse_replay_event_seq malloc_ok d seq = GOk b' seq')"
    by (auto simp: parse_app_inst_list_def check_lib_inst_count_iff gmap_iffs split: pres.splits gres.splits)
  also have "\<dots> \<longleftrightarrow> (\<exists>d. (\<exists>apps. length apps \<le> 1000 \<and> num' = of_nat (length apps)
       \<and> list_all (valid_app stat_ok) apps \<and> app_list' = foldl data_list_append app_list apps
       \<and> begins b (le32 num' @ concat (map (\<lambda>d. enc_app (mirror d)) apps))
       \<and> d = advance (length (le32 num' @ concat (map (\<lambda>d. enc_app (mirror d)) apps))) b)
     \<and> parse_replay_event_seq malloc_ok d seq = GOk b' seq')"
    by (subst app_reader.counted_iff [OF wf]) simp_all
  finally show ?thesis by (auto simp: apps_enc_def)
qed

text \<open>
  Whatever the outcome, the lists grow by valid elements only: what a failing message leaves behind
  is well-formed.
\<close>

lemma parse_lib_inst_list_keeps:
  assumes wf: "wf_buf b" and res: "gstate (parse_lib_inst_list stat_ok b num lib_list) = Some (num', lib_list')"
  shows "\<exists>libs. length libs \<le> 1000 \<and> list_all (valid_lib stat_ok) libs \<and> lib_list' = rev libs @ lib_list"
proof (cases "parse_lib_inst_list stat_ok b num lib_list")
  case (GOk c s)
  with res parse_lib_inst_list_iff [OF wf, of stat_ok num lib_list c num' lib_list'] show ?thesis by auto
next
  case (GFail s)
  with res have s: "s = (num', lib_list')" by simp
  show ?thesis
  proof (cases "lib_list' = lib_list")
    case True
    then show ?thesis by (intro exI [of _ "[]"]) simp
  next
    case False
    with GFail s obtain c where c: "parse_int32 b = POk num' c" "check_lib_inst_count num'"
      "parse_elements (parse_inst_lib stat_ok) data_list_append (unat num') c lib_list = GFail lib_list'"
      by (auto simp: parse_lib_inst_list_def gmap_iffs split: pres.splits if_splits)
    then have "wf_buf c" using r32.rd_okD(3) [OF wf] by blast
    from lib_reader.elements_fail [OF this c(3)] obtain libs where
      "length libs < unat num'" "list_all (valid_lib stat_ok) libs" "lib_list' = rev libs @ lib_list" by auto
    with c(2) show ?thesis by (intro exI [of _ libs]) (simp add: check_lib_inst_count_iff)
  qed
qed (use res in simp)

section \<open>Properties\<close>

lemma sample_lib_valid:
  assumes "c \<noteq> 0" "length as \<le> 1000"
  shows "valid_lib (\<lambda>_. True) (sample_lib c (map sample_probe as))"
proof -
  have "list_all valid_probe (map sample_probe as)"
    by (simp add: list_all_iff valid_probe_def wf_probe_def sample_probe_def new_probe_def func_block_def
        check_us_inst_func_args_def check_us_inst_func_ret_type_def strchr_found_def US_FUNC_ARGS_def
        US_FUNC_RETURN_def cstr_def)
  with sample_lib_wf [OF assms] assms show ?thesis
    by (simp add: valid_lib_def valid_funcs_def wf_lib_def check_exec_path_def sample_lib_def)
qed

lemma sample_lib_enc:
  "enc_lib (mirror (sample_lib c [sample_probe a])) =
     [47, c, 0] @ le32 1 @ le64 a @ [112, 100, 0, 118]"
  by (simp add: enc_data_def enc_element_def sample_lib_def pack_lib_head_to_array_def func_block_def
      sample_probe_def new_probe_def)

text \<open>
  C5. A list of libraries is accepted exactly when the message continues with the encoding of at most
  1000 valid libraries (existing path, at most 100000 probes, allowed argument and return types);
  they are put in front of the list, last one first, and the cursor is behind them.
\<close>

theorem lib_list_exact:
  assumes "wf_buf b"
  shows "parse_lib_inst_list stat_ok b num lib_list = GOk b' (num', lib_list') \<longleftrightarrow>
    (\<exists>libs. length libs \<le> 1000 \<and> num' = of_nat (length libs) \<and> list_all (valid_lib stat_ok) libs
       \<and> lib_list' = rev libs @ lib_list
       \<and> begins b (libs_enc libs) \<and> b' = advance (length (libs_enc libs)) b)"
  by (rule parse_lib_inst_list_iff) fact

theorem lib_list_exact_witness:
  "let b = sample_buf (le32 1 @ [47, 97, 0] @ le32 1 @ le64 4096 @ [112, 100, 0, 118]) in
   parse_lib_inst_list (\<lambda>_. True) b 0 [] = GOk (advance 23 b) (1, [sample_lib 97 [sample_probe 4096]])"
proof -
  let ?b = "sample_buf (le32 1 @ [47, 97, 0] @ le32 1 @ le64 4096 @ [112, 100, 0, 118])"
  let ?lib = "sample_lib 97 [sample_probe 4096]"
  have enc: "libs_enc [?lib] = le32 1 @ [47, 97, 0] @ le32 1 @ le64 4096 @ [112, 100, 0, 118]"
    unfolding libs_enc_def using sample_lib_enc [of 97 4096] by simp
  have "valid_lib (\<lambda>_. True) ?lib" using sample_lib_valid [of 97 "[4096]"] by simp
  moreover have "begins ?b (libs_enc [?lib])" "length (libs_enc [?lib]) = 23" "wf_buf ?b"
    unfolding enc by (simp_all add: begins_def)
  ultimately have "parse_lib_inst_list (\<lambda>_. True) ?b 0 [] = GOk (advance 23 ?b) (1, [?lib])"
    by (subst lib_list_exact) (auto intro!: exI [of _ "[?lib]"])
  then show ?thesis by (simp only: Let_def)
qed

text \<open>
  C13. What \<^verbatim>\<open>pack_lib_list_to_array\<close> packs is what \<^verbatim>\<open>parse_lib_inst_list\<close> reads: parsing a packed list of
  valid libraries gives the libraries back, the list and every chain of probes reversed.
\<close>

theorem pack_parse_roundtrip:
  assumes "wf_buf b" "list_all (valid_lib stat_ok) libs" "length libs \<le> 1000"
    and "pack_lib_list_to_array libs = Some (block, sz, cnt)" "list_size libs + 4 < 2 ^ 32"
    and "unread b = block @ rest"
  shows "\<exists>b'. parse_lib_inst_list stat_ok b num lib_list = GOk b' (cnt, rev (map mirror libs) @ lib_list)"
proof -
  have "wf_lib_list libs"
    using assms(2) by (auto simp: wf_elements_def valid_lib_def valid_funcs_def list_all_iff)
  from lib_head.pack_list [OF this assms(5)] assms(4)
  have block: "block = libs_enc (map mirror libs)" and cnt: "cnt = of_nat (length libs)"
    by (auto simp: pack_lib_list_to_array_def libs_enc_def comp_def)
  have valid: "list_all (valid_lib stat_ok) (map mirror libs)"
    using assms(2) by (auto simp: list_all_iff valid_lib_def valid_funcs_def)
  have "begins b (libs_enc (map mirror libs))" using assms(6) block by (simp add: begins_def)
  with valid assms(3) cnt show ?thesis
    by (auto simp: parse_lib_inst_list_iff [OF assms(1)] intro!: exI [of _ "map mirror libs"])
qed

theorem pack_parse_roundtrip_witness:
  "\<exists>b'. parse_lib_inst_list (\<lambda>_. True) (sample_buf (libs_enc [sample_lib 97 [sample_probe 4096]])) 0 []
     = GOk b' (1, [sample_lib 97 [sample_probe 4096]])"
proof -
  let ?lib = "sample_lib 97 [sample_probe 4096]"
  let ?block = "libs_enc [?lib]"
  have v: "valid_lib (\<lambda>_. True) ?lib" using sample_lib_valid [of 97 "[4096]"] by simp
  have m: "mirror ?lib = ?lib" by (simp add: mirror_def sample_lib_def)
  have size: "list_size [?lib] + 4 < 2 ^ 32" by (simp add: sample_lib_def)
  have "wf_lib_list [?lib]" using v by (simp add: valid_lib_def valid_funcs_def)
  from lib_head.pack_list [OF this size]
  have "pack_lib_list_to_array [?lib] = Some (?block, of_nat (list_size [?lib] + 4), 1)"
    by (simp add: pack_lib_list_to_array_def libs_enc_def m)
  moreover have "wf_buf (sample_buf ?block)"
    unfolding libs_enc_def using sample_lib_enc [of 97 4096] by simp
  ultimately show ?thesis
    using pack_parse_roundtrip [of "sample_buf ?block" "\<lambda>_. True" "[?lib]" ?block _ 1 "[]" 0 "[]"] v size m
    by simp
qed

text \<open>
  C30. The look-ahead of \<^verbatim>\<open>parse_us_inst_func\<close> reads outside the message exactly when no NUL follows
  the eight bytes of the address: a probe cut off in its address is not an error but an over-read.
\<close>

theorem probe_over_read:
  assumes "wf_buf b"
  shows "parse_us_inst_func b = PFault \<longleftrightarrow> 0 \<notin> set (drop 8 (unread b))"
  by (rule parse_us_inst_func_fault_iff) fact

theorem probe_over_read_witness: "parse_us_inst_func (sample_buf [1, 0, 0, 0]) = PFault"
  using probe_over_read [of "sample_buf [1, 0, 0, 0]"] by simp

end
