(* ===== verification/Inst_Msgs.thy ===== *)
theory Inst_Msgs
  imports Inst_Parse
begin

text \<open>
  The instrumentation messages of the host, the second half of \<^verbatim>\<open>daemon/da_inst.c\<close>: start, add
  libraries, remove libraries, and the list of paths sent to the targets. Each operation maps the
  state to the new state and its outcome; \<open>None\<close> is an access outside a heap block. The mutexes
  around each operation make it one step. \<open>stat_ok\<close> and \<open>realpath\<close> are the file system.
\<close>

section \<open>State\<close>

record user_space_inst_t =
  app_num :: u32
  app_inst_list :: "data_t list"
  lib_num :: u32
  lib_inst_list :: "data_t list"

text \<open>\<^verbatim>\<open>struct _msg_target_t\<close>: the list of paths for the targets.\<close>

record maps_msg =
  maps_type :: u32
  maps_length :: u32
  maps_data :: bytes

record inst_t =
  us_inst :: user_space_inst_t
  new_lib_inst_list :: "data_t list"
  lib_maps_message :: "maps_msg option"

text \<open>
  The outcome: the value returned, the error code if it was stored, the message for the kernel if
  one was made, and whether the list of paths goes to all targets.
\<close>

record inst_out =
  out_res :: nat
  out_err :: "ErrorCode option"
  out_msg :: "bytes option"
  out_maps :: bool

section \<open>The list of paths\<close>

definition MSG_MAPS_INST_LIST :: u32 where "MSG_MAPS_INST_LIST = 109"

definition maps_header_len :: u32 where "maps_header_len = 8"

definition maps_paths :: "(bytes \<Rightarrow> bytes option) \<Rightarrow> user_space_inst_t \<Rightarrow> bytes list" where
  "maps_paths realpath us =
     map (\<lambda>lib. bin_path (d_data lib)) (lib_inst_list us)
     @ List.map_filter (\<lambda>app. realpath (exe_path (d_data app))) (app_inst_list us)"

text \<open>
  The first pass adds up the lengths, the second one writes into the block allocated in between.
  \<^verbatim>\<open>length\<close> is set to the size of the whole block.
\<close>

definition generate_maps_inst_msg ::
  "(bytes \<Rightarrow> bytes option) \<Rightarrow> user_space_inst_t \<Rightarrow> maps_msg option" where
  "generate_maps_inst_msg realpath us =
     (let paths = maps_paths realpath us;
          total_maps_count = of_nat (length paths);
          total_len = (4 + maps_header_len) + (\<Sum>p\<leftarrow>paths. of_nat (length p) + 1)
      in if total_len < maps_header_len then None
         else map_option
           (\<lambda>data. \<lparr>maps_type = MSG_MAPS_INST_LIST, maps_length = total_len, maps_data = data\<rparr>)
           (fill_block 0 (unat (total_len - maps_header_len))
             (le32 total_maps_count @ concat (map (\<lambda>p. p @ [0]) paths))))"

section \<open>Iterating over the applications\<close>

text \<open>The cursor \<^verbatim>\<open>*app_list\<close> is the rest of the chain.\<close>

definition app_info_get_first :: "user_space_inst_t \<Rightarrow> data_t list \<times> inst_data option" where
  "app_info_get_first us =
     (let app_list = app_inst_list us in
      (app_list, if app_list = [] then None else Some (d_data (hd app_list))))"

definition app_info_get_next :: "data_t list \<Rightarrow> data_t list \<times> inst_data option" where
  "app_info_get_next app_list =
     (if app_list = [] then ([], None)
      else (let app_list = tl app_list in
            (app_list, if app_list = [] then None else Some (d_data (hd app_list)))))"

section \<open>The operations\<close>

definition msg_start ::
  "(bytes \<Rightarrow> bool) \<Rightarrow> (u32 \<Rightarrow> bool) \<Rightarrow> (bytes \<Rightarrow> bytes option) \<Rightarrow> msg_buf_t \<Rightarrow> inst_t \<Rightarrow> replay_event_seq_t
     \<Rightarrow> (inst_t \<times> replay_event_seq_t \<times> inst_out) option" where
  "msg_start stat_ok malloc_ok realpath b st seq =
     (let us = us_inst st in
      case parse_app_inst_list stat_ok malloc_ok b (app_num us) (app_inst_list us) seq of
        GFault \<Rightarrow> None
      | GFail (num, apps, seq) \<Rightarrow>
          Some (st\<lparr>us_inst := us\<lparr>app_num := num, app_inst_list := apps\<rparr>\<rparr>, seq,
            \<lparr>out_res = 1, out_err = Some ERR_WRONG_MESSAGE_FORMAT, out_msg = None, out_maps = False\<rparr>)
      | GOk _ (num, apps, seq) \<Rightarrow>
          (let us = us\<lparr>app_num := num, app_inst_list := apps\<rparr> in
           Option.bind (generate_msg (lib_inst_list us) (app_inst_list us)) (\<lambda>msg.
           let msg = set_msg_id (msg_val NMSG_START) msg in
           Option.bind (generate_maps_inst_msg realpath us) (\<lambda>maps.
           Some (st\<lparr>us_inst := us, lib_maps_message := Some maps\<rparr>, seq,
             \<lparr>out_res = 0, out_err = None, out_msg = Some msg, out_maps = False\<rparr>)))))"

text \<open>
  The received libraries are parsed into the list of installed ones, \<^verbatim>\<open>us_inst->lib_inst_list\<close>; the
  list of new ones, which the collision check, the message to the kernel and the merge work on, is
  what an earlier failed removal left there.
\<close>

definition msg_swap_inst_add ::
  "(bytes \<Rightarrow> bool) \<Rightarrow> (bytes \<Rightarrow> bytes option) \<Rightarrow> msg_buf_t \<Rightarrow> inst_t \<Rightarrow> (inst_t \<times> inst_out) option" where
  "msg_swap_inst_add stat_ok realpath b st =
     (let us = us_inst st in
      case parse_lib_inst_list stat_ok b 0 (lib_inst_list us) of
        GFault \<Rightarrow> None
      | GFail (_, libs) \<Rightarrow>
          Some (st\<lparr>us_inst := us\<lparr>lib_inst_list := libs\<rparr>\<rparr>,
            \<lparr>out_res = 1, out_err = Some ERR_WRONG_MESSAGE_FORMAT, out_msg = None, out_maps = False\<rparr>)
      | GOk _ (_, libs) \<Rightarrow>
          (let new = resolve_collisions_for_add_msg libs (new_lib_inst_list st) in
           Option.bind
             (if app_inst_list us = [] then Some None
              else map_option (\<lambda>m. Some (set_msg_id (msg_val NMSG_SWAP_INST_ADD) m))
                     (generate_msg new (app_inst_list us))) (\<lambda>msg.
           Option.bind (data_list_move_with_hash libs new) (\<lambda>libs.
           let us = us\<lparr>lib_inst_list := libs\<rparr> in
           Option.bind (generate_maps_inst_msg realpath us) (\<lambda>maps.
           Some (st\<lparr>us_inst := us, new_lib_inst_list := [], lib_maps_message := Some maps\<rparr>,
             \<lparr>out_res = 0, out_err = Some ERR_NO, out_msg = msg, out_maps = True\<rparr>))))))"

text \<open>The message to the kernel carries the number of the add request here, too.\<close>

definition msg_swap_inst_remove ::
  "(bytes \<Rightarrow> bool) \<Rightarrow> (bytes \<Rightarrow> bytes option) \<Rightarrow> msg_buf_t \<Rightarrow> inst_t \<Rightarrow> (inst_t \<times> inst_out) option" where
  "msg_swap_inst_remove stat_ok realpath b st =
     (let us = us_inst st in
      case parse_lib_inst_list stat_ok b 0 (new_lib_inst_list st) of
        GFault \<Rightarrow> None
      | GFail (_, new) \<Rightarrow>
          Some (st\<lparr>new_lib_inst_list := new\<rparr>,
            \<lparr>out_res = 1, out_err = Some ERR_WRONG_MESSAGE_FORMAT, out_msg = None, out_maps = False\<rparr>)
      | GOk _ (_, new) \<Rightarrow>
          (let (cur, new) = resolve_collisions_for_rm_msg (lib_inst_list us) new;
               us = us\<lparr>lib_inst_list := cur\<rparr> in
           Option.bind
             (if app_inst_list us = [] then Some None
              else map_option (\<lambda>m. Some (set_msg_id (msg_val NMSG_SWAP_INST_ADD) m))
                     (generate_msg new (app_inst_list us))) (\<lambda>msg.
           Option.bind (generate_maps_inst_msg realpath us) (\<lambda>maps.
           Some (st\<lparr>us_inst := us, new_lib_inst_list := [], lib_maps_message := Some maps\<rparr>,
             \<lparr>out_res = 0, out_err = Some ERR_NO, out_msg = msg, out_maps = True\<rparr>)))))"

definition msg_swap_free_all_data :: "inst_t \<Rightarrow> inst_t" where
  "msg_swap_free_all_data st =
     st\<lparr>new_lib_inst_list := [],
        us_inst := (us_inst st)\<lparr>lib_inst_list := [], app_inst_list := []\<rparr>\<rparr>"

section \<open>The messages that are made\<close>

definition enc_paths :: "bytes list \<Rightarrow> bytes" where
  "enc_paths paths = le32 (of_nat (length paths)) @ concat (map (\<lambda>p. p @ [0]) paths)"

lemma length_enc_paths: "length (enc_paths paths) = 4 + (\<Sum>p\<leftarrow>paths. length p + 1)"
  by (simp add: enc_paths_def length_concat_map)

lemma sum_list_of_nat: "(\<Sum>x\<leftarrow>xs. of_nat (f x) + 1) = (of_nat (\<Sum>x\<leftarrow>xs. f x + 1) :: 'a::semiring_1)"
  by (induction xs) (simp_all add: ac_simps)

text \<open>
  The list of paths fills its block. Its \<^verbatim>\<open>length\<close> field counts the header, which is 8 bytes more than
  the data that follows it.
\<close>

lemma generate_maps_enc:
  assumes "length (enc_paths (maps_paths realpath us)) + 8 < 2 ^ 32"
  shows "generate_maps_inst_msg realpath us =
    Some \<lparr>maps_type = MSG_MAPS_INST_LIST,
          maps_length = of_nat (8 + length (enc_paths (maps_paths realpath us))),
          maps_data = enc_paths (maps_paths realpath us)\<rparr>"
proof -
  let ?ps = "maps_paths realpath us"
  let ?n = "\<Sum>p\<leftarrow>?ps. length p + 1"
  have total: "(4 + maps_header_len) + (\<Sum>p\<leftarrow>?ps. of_nat (length p) + 1) = (of_nat (12 + ?n) :: u32)"
    unfolding sum_list_of_nat by (simp add: maps_header_len_def)
  have n: "12 + ?n < 2 ^ 32" using assms by (simp add: length_enc_paths)
  then have u: "unat (of_nat (12 + ?n) :: u32) = 12 + ?n" by (simp add: unat_of_nat_small del: of_nat_add)
  then have "\<not> of_nat (12 + ?n) < maps_header_len"
    by (simp add: maps_header_len_def word_less_nat_alt del: of_nat_add)
  moreover have "unat (of_nat (12 + ?n) - maps_header_len) = length (enc_paths ?ps)"
    using u by (simp add: maps_header_len_def unat_sub_small word_le_nat_alt length_enc_paths del: of_nat_add)
  ultimately show ?thesis
    unfolding generate_maps_inst_msg_def Let_def total
    by (simp add: enc_paths_def [symmetric] length_enc_paths add.commute [of _ 8] del: of_nat_add)
qed

text \<open>A message to the kernel that 32 bits can count.\<close>

definition fits :: "data_t list \<Rightarrow> data_t list \<Rightarrow> bool" where
  "fits libs apps \<longleftrightarrow> list_size libs + 4 < 2 ^ 32 \<and> msg_size libs apps + 8 < 2 ^ 32"

lemma generate_msg_fits:
  assumes "wf_lib_list libs" "wf_app_list apps" "fits libs apps"
  shows "generate_msg libs apps = Some (enc_msg 0 libs apps)"
proof -
  have "length apps \<le> length apps * (list_size libs + 4)" by simp
  with assms(3) have "length apps < 2 ^ 32" "list_size apps + 4 < 2 ^ 32"
    unfolding fits_def msg_size_def by linarith+
  with assms show ?thesis by (simp add: generate_msg_enc fits_def)
qed

lemma wf_libs_list [simp]: "wf_libs ds \<Longrightarrow> wf_lib_list ds"
  by (auto simp: wf_libs_def wf_elements_def wf_lib_def list_all_iff)

lemma valid_libs_wf: "list_all (valid_lib stat_ok) ds \<Longrightarrow> wf_libs ds"
  by (auto simp: wf_libs_def wf_lib_def valid_lib_def valid_funcs_def list_all_iff)

lemma valid_apps_wf: "list_all (valid_app stat_ok) ds \<Longrightarrow> wf_app_list ds"
  by (auto simp: wf_elements_def valid_app_def valid_funcs_def list_all_iff)

lemma wf_elements_append [simp]:
  "wf_elements k (ds @ es) \<longleftrightarrow> wf_elements k ds \<and> wf_elements k es"
  by (simp add: wf_elements_def)

lemma wf_elements_rev [simp]: "wf_elements k (rev ds) \<longleftrightarrow> wf_elements k ds"
  by (simp add: wf_elements_def)

lemma wf_libs_rev [simp]: "wf_libs (rev ds) \<longleftrightarrow> wf_libs ds"
  by (simp add: wf_libs_def)

section \<open>The invariant of the lists\<close>

definition inst_inv :: "inst_t \<Rightarrow> bool" where
  "inst_inv st \<longleftrightarrow>
     wf_libs (lib_inst_list (us_inst st)) \<and> wf_app_list (app_inst_list (us_inst st))
     \<and> new_lib_inst_list st = []"

lemma inst_inv_init: "inst_inv (msg_swap_free_all_data st)"
  by (simp add: inst_inv_def msg_swap_free_all_data_def)

lemma gstate_gmap [simp]: "gstate (gmap f r) = map_option f (gstate r)"
  by (cases r) auto

lemma parse_app_inst_list_keeps:
  assumes wf: "wf_buf b"
    and res: "gstate (parse_app_inst_list stat_ok malloc_ok b num app_list seq) = Some (num', app_list', seq')"
  shows "\<exists>apps. length apps \<le> 1000 \<and> list_all (valid_app stat_ok) apps \<and> app_list' = rev apps @ app_list"
proof -
  let ?loop = "\<lambda>n c. parse_elements (parse_inst_app stat_ok) data_list_append (unat n) c app_list"
  consider "app_list' = app_list"
    | n c where "parse_int32 b = POk n c" "unat n \<le> 1000" "gstate (?loop n c) = Some app_list'"
    using res by (auto simp: parse_app_inst_list_def check_lib_inst_count_iff gmap_iffs
        split: pres.splits gres.splits if_splits)
  then show ?thesis
  proof cases
    case 1
    then show ?thesis by (intro exI [of _ "[]"]) simp
  next
    case 2
    then have c: "wf_buf c" using r32.rd_okD(3) [OF wf] by blast
    show ?thesis
    proof (cases "?loop n c")
      case (GOk d l)
      from GOk [unfolded app_reader.elements_iff [OF c]] 2 GOk show ?thesis by auto
    next
      case (GFail l)
      with 2 app_reader.elements_fail [OF c GFail] show ?thesis by fastforce
    qed (use 2 in simp)
  qed
qed

section \<open>The operations\<close>

text \<open>
  A successful start: the kernel gets exactly the installed libraries and all applications, and the
  paths for the targets are renewed.
\<close>

lemma msg_start_ok:
  assumes wf: "wf_buf b" and inv: "inst_inv st"
    and parse: "parse_app_inst_list stat_ok malloc_ok b (app_num (us_inst st))
      (app_inst_list (us_inst st)) seq = GOk b' (num, apps, seq')"
    and us: "us = (us_inst st)\<lparr>app_num := num, app_inst_list := apps\<rparr>"
    and fit: "fits (lib_inst_list us) apps"
    and len: "length (enc_paths (maps_paths realpath us)) + 8 < 2 ^ 32"
  shows "msg_start stat_ok malloc_ok realpath b st seq =
    Some (st\<lparr>us_inst := us, lib_maps_message := Some \<lparr>maps_type = MSG_MAPS_INST_LIST,
              maps_length = of_nat (8 + length (enc_paths (maps_paths realpath us))),
              maps_data = enc_paths (maps_paths realpath us)\<rparr>\<rparr>, seq',
      \<lparr>out_res = 0, out_err = None,
       out_msg = Some (enc_msg (msg_val NMSG_START) (lib_inst_list us) apps), out_maps = False\<rparr>)"
proof -
  have gs: "gstate (parse_app_inst_list stat_ok malloc_ok b (app_num (us_inst st))
      (app_inst_list (us_inst st)) seq) = Some (num, apps, seq')" using parse by simp
  from parse_app_inst_list_keeps [OF wf gs] inv have "wf_app_list apps"
    by (auto simp: inst_inv_def valid_apps_wf)
  with inv us fit have "generate_msg (lib_inst_list us) apps = Some (enc_msg 0 (lib_inst_list us) apps)"
    by (intro generate_msg_fits) (auto simp: inst_inv_def)
  moreover have "generate_maps_inst_msg realpath us = Some \<lparr>maps_type = MSG_MAPS_INST_LIST,
              maps_length = of_nat (8 + length (enc_paths (maps_paths realpath us))),
              maps_data = enc_paths (maps_paths realpath us)\<rparr>"
    by (rule generate_maps_enc) fact
  ultimately show ?thesis using parse us by (simp add: msg_start_def Let_def)
qed

text \<open>
  A successful add, from a state with no left-over request: everything received is installed, in
  front and without a look at what is there; the kernel is sent a list with no library at all.
\<close>

lemma msg_swap_inst_add_ok:
  assumes wf: "wf_buf b" and inv: "inst_inv st"
    and parse: "parse_lib_inst_list stat_ok b 0 (lib_inst_list (us_inst st)) = GOk b' (num, libs)"
    and us: "us = (us_inst st)\<lparr>lib_inst_list := libs\<rparr>"
    and fit: "fits [] (app_inst_list us)"
    and len: "length (enc_paths (maps_paths realpath us)) + 8 < 2 ^ 32"
  shows "\<exists>maps. msg_swap_inst_add stat_ok realpath b st =
    Some (st\<lparr>us_inst := us, new_lib_inst_list := [], lib_maps_message := Some maps\<rparr>,
      \<lparr>out_res = 0, out_err = Some ERR_NO,
       out_msg = (if app_inst_list us = [] then None
                  else Some (enc_msg (msg_val NMSG_SWAP_INST_ADD) [] (app_inst_list us))),
       out_maps = True\<rparr>)"
proof -
  have "generate_msg [] (app_inst_list us) = Some (enc_msg 0 [] (app_inst_list us))"
    using inv us fit by (intro generate_msg_fits) (auto simp: inst_inv_def)
  with generate_maps_enc [OF len] parse us inv show ?thesis
    by (auto simp: msg_swap_inst_add_def Let_def inst_inv_def)
qed

text \<open>
  A successful removal: what was requested is no longer installed, the kernel is sent what of it
  was, under the number of the add request.
\<close>

lemma msg_swap_inst_remove_ok:
  assumes wf: "wf_buf b" and inv: "inst_inv st" and nd: "no_dups (lib_inst_list (us_inst st))"
    and parse: "parse_lib_inst_list stat_ok b 0 [] = GOk b' (num, req)"
    and res: "resolve_collisions_for_rm_msg (lib_inst_list (us_inst st)) req = (cur, gone)"
    and us: "us = (us_inst st)\<lparr>lib_inst_list := cur\<rparr>"
    and fit: "fits gone (app_inst_list us)"
    and len: "length (enc_paths (maps_paths realpath us)) + 8 < 2 ^ 32"
  shows "\<exists>maps. msg_swap_inst_remove stat_ok realpath b st =
    Some (st\<lparr>us_inst := us, new_lib_inst_list := [], lib_maps_message := Some maps\<rparr>,
      \<lparr>out_res = 0, out_err = Some ERR_NO,
       out_msg = (if app_inst_list us = [] then None
                  else Some (enc_msg (msg_val NMSG_SWAP_INST_ADD) gone (app_inst_list us))),
       out_maps = True\<rparr>)"
    and "installed cur = installed (lib_inst_list (us_inst st)) - requested req"
    and "installed gone = installed (lib_inst_list (us_inst st)) \<inter> requested req"
    and "wf_libs cur" and "no_dups cur"
proof -
  have gs: "gstate (parse_lib_inst_list stat_ok b 0 []) = Some (num, req)" using parse by simp
  from parse_lib_inst_list_keeps [OF wf gs] have "wf_libs req" by (auto intro: valid_libs_wf)
  note spec = resolve_rm_spec [OF res _ nd this]
  show "installed cur = installed (lib_inst_list (us_inst st)) - requested req"
    "installed gone = installed (lib_inst_list (us_inst st)) \<inter> requested req"
    "wf_libs cur" "no_dups cur"
    using spec inv by (auto simp: inst_inv_def)
  have "generate_msg gone (app_inst_list us) = Some (enc_msg 0 gone (app_inst_list us))"
    using inv us fit spec(3) by (intro generate_msg_fits) (auto simp: inst_inv_def)
  with generate_maps_enc [OF len] parse us inv res
  show "\<exists>maps. msg_swap_inst_remove stat_ok realpath b st =
    Some (st\<lparr>us_inst := us, new_lib_inst_list := [], lib_maps_message := Some maps\<rparr>,
      \<lparr>out_res = 0, out_err = Some ERR_NO,
       out_msg = (if app_inst_list us = [] then None
                  else Some (enc_msg (msg_val NMSG_SWAP_INST_ADD) gone (app_inst_list us))),
       out_maps = True\<rparr>)"
    by (auto simp: msg_swap_inst_remove_def Let_def inst_inv_def)
qed

text \<open>The invariant survives every operation except a removal that fails in the middle.\<close>

lemma msg_start_inv:
  assumes "wf_buf b" "inst_inv st" "msg_start stat_ok malloc_ok realpath b st seq = Some (st', seq', out)"
  shows "inst_inv st'"
proof -
  from assms(3) obtain num apps seq'' where
    gs: "gstate (parse_app_inst_list stat_ok malloc_ok b (app_num (us_inst st)) (app_inst_list (us_inst st)) seq)
      = Some (num, apps, seq'')"
    and st': "us_inst st' = (us_inst st)\<lparr>app_num := num, app_inst_list := apps\<rparr>"
      "new_lib_inst_list st' = new_lib_inst_list st"
    by (auto simp: msg_start_def Let_def bind_eq_Some_conv split: gres.splits prod.splits)
  from parse_app_inst_list_keeps [OF assms(1) gs] assms(2) show ?thesis
    by (auto simp: inst_inv_def st' valid_apps_wf)
qed

lemma data_list_move_nil [simp]: "data_list_move_with_hash libs [] = Some libs"
  by simp

lemma msg_swap_inst_add_inv:
  assumes "wf_buf b" "inst_inv st" "msg_swap_inst_add stat_ok realpath b st = Some (st', out)"
  shows "inst_inv st'"
proof -
  from assms(2,3) obtain num libs where
    gs: "gstate (parse_lib_inst_list stat_ok b 0 (lib_inst_list (us_inst st))) = Some (num, libs)"
    and st': "us_inst st' = (us_inst st)\<lparr>lib_inst_list := libs\<rparr>" "new_lib_inst_list st' = []"
    by (auto simp: msg_swap_inst_add_def Let_def bind_eq_Some_conv inst_inv_def
        split: gres.splits prod.splits)
  from parse_lib_inst_list_keeps [OF assms(1) gs] assms(2) show ?thesis
    by (auto simp: inst_inv_def st' valid_libs_wf)
qed

lemma msg_swap_inst_remove_fail:
  assumes "msg_swap_inst_remove stat_ok realpath b st = Some (st', out)" "out_res out \<noteq> 0"
  shows "us_inst st' = us_inst st \<and> lib_maps_message st' = lib_maps_message st
    \<and> out_err out = Some ERR_WRONG_MESSAGE_FORMAT
    \<and> (\<exists>num. gstate (parse_lib_inst_list stat_ok b 0 (new_lib_inst_list st)) = Some (num, new_lib_inst_list st'))"
  using assms
  by (auto simp: msg_swap_inst_remove_def Let_def bind_eq_Some_conv split: gres.splits prod.splits)

text \<open>A removal that succeeds keeps the invariant, with or without duplicates in the lists.\<close>

lemma split_requested_wf:
  assumes "split_requested sch p kept rest = (sch', p')"
    and "wf_lib sch" "wf_lib p" "d_list p = kept @ rest"
  shows "wf_lib sch' \<and> wf_lib p'"
  using assms
proof (induction sch p kept rest rule: split_requested.induct)
  case (1 sch p kept)
  then show ?case by (auto simp: d_list_same)
next
  case (2 sch p kept pr rest)
  show ?case
  proof (cases "find_probe (d_list sch) pr")
    case None
    with 2 show ?thesis
      by (auto simp: wf_lib_def intro!: 2(2) wf_rm_element)
  next
    case (Some i)
    note split = find_probe_split [OF Some]
    have "wf_data (probe_list_rm_element sch (take i (d_list sch)) (d_list sch ! i) (drop (Suc i) (d_list sch)))"
      using 2 by (intro wf_rm_element split) (simp add: wf_lib_def)
    with 2 Some show ?thesis by (auto simp: wf_lib_def)
  qed
qed

lemma resolve_rm_loop_wf:
  assumes "resolve_rm_loop cur kept new = (cur', new')" and "wf_libs cur" "wf_libs kept" "wf_libs new"
  shows "wf_libs cur' \<and> wf_libs new'"
  using assms
proof (induction cur kept new rule: resolve_rm_loop.induct)
  case (2 cur kept p new)
  show ?case
  proof (cases "data_list_find_data cur p cmp_libs")
    case None
    with 2 show ?thesis by auto
  next
    case (Some i)
    have i: "i < length cur" using find_data_SomeD [OF Some] by simp
    from id_take_nth_drop [OF i] 2 have parts: "wf_libs (take i cur)" "wf_lib (cur ! i)" "wf_libs (drop (Suc i) cur)"
      by (metis wf_libs_simps(2,3))+
    obtain sch' p' where sp: "split_requested (cur ! i) p [] (d_list p) = (sch', p')" by fastforce
    have "wf_lib sch' \<and> wf_lib p'" using split_requested_wf [OF sp parts(2)] 2 by simp
    with 2 Some parts sp show ?thesis
      by (auto simp: Let_def split: if_splits)
  qed
qed simp

lemma msg_swap_inst_remove_inv:
  assumes "wf_buf b" "inst_inv st" "msg_swap_inst_remove stat_ok realpath b st = Some (st', out)"
    and "out_res out = 0"
  shows "inst_inv st'"
proof -
  from assms(3,4) obtain c num req cur gone where
    ok: "parse_lib_inst_list stat_ok b 0 (new_lib_inst_list st) = GOk c (num, req)"
    and r: "resolve_rm_loop (lib_inst_list (us_inst st)) [] req = (cur, gone)"
    and st': "us_inst st' = (us_inst st)\<lparr>lib_inst_list := cur\<rparr>" "new_lib_inst_list st' = []"
    by (auto simp: msg_swap_inst_remove_def Let_def bind_eq_Some_conv resolve_collisions_for_rm_msg_def
        split: gres.splits prod.splits)
  have gs: "gstate (parse_lib_inst_list stat_ok b 0 []) = Some (num, req)"
    using ok assms(2) by (simp add: inst_inv_def)
  from parse_lib_inst_list_keeps [OF assms(1) gs] have "wf_libs req" by (auto simp: valid_libs_wf)
  with resolve_rm_loop_wf [OF r] assms(2) show ?thesis by (simp add: inst_inv_def st')
qed

section \<open>Merging two chains\<close>

text \<open>
  \<open>data_list_append_probes_hash\<close> counts the first merged probe only. With two probes or more the
  library's size is too small, and packing it writes past the block.
\<close>

lemma merge_overflow:
  assumes wf: "wf_data d" "wf_data e" and lib: "is_LibData (d_data d)"
    and e: "d_list e = p # q # ps" and d: "d_list d \<noteq> []"
    and small: "unat (d_size d) + unat (p_size p) + 4 < 2 ^ 32"
  shows "\<exists>t. data_list_append_probes_hash d e = Some t \<and> pack_lib_list_to_array [t] = None"
proof -
  let ?t = "d\<lparr>d_size := d_size d + p_size p, d_func_num := d_func_num d + d_func_num e,
              d_list := d_list e @ d_list d\<rparr>"
  have t: "data_list_append_probes_hash d e = Some ?t"
    using e d by (simp add: data_list_append_probes_hash_def)
  have probes: "list_all wf_probe (d_list e @ d_list d)" using wf by (simp add: wf_data_def)
  then have blocks: "those (map (\<lambda>p. copy_from (func_block p) (unat (p_size p))) (d_list e @ d_list d))
      = Some (map func_block (d_list e @ d_list d))"
    by (intro those_map_Some) (auto simp: wf_probe_def list_all_iff)
  have "0 < unat (p_size q)" using wf e by (simp add: wf_data_def wf_probe_def size_simps)
  have size: "unat (d_size d + p_size p + 4) = unat (d_size d) + unat (p_size p) + 4"
    using small by (simp add: unat_add_small)
  then have nz: "d_size d + p_size p + 4 \<noteq> 0" by (metis add_is_0 unat_0 zero_neq_numeral)
  let ?el = "pack_lib_head_to_array (d_data d) @ le32 (d_func_num d + d_func_num e)
      @ concat (map func_block (d_list e @ d_list d))"
  have el: "pack_data_to_array pack_lib_head_to_array ?t = Some ?el"
    unfolding pack_data_to_array_def using blocks by simp
  have "length ?el = unat (d_size d) + probes_size (d_list e)"
    using wf lib probes by (auto simp: wf_data_def is_LibData_def pack_lib_head_to_array_def size_simps
        simp del: concat_append map_append)
  then have "unat (d_size d) + unat (p_size p) < length ?el" using e \<open>0 < unat (p_size q)\<close> by simp
  then have "fill_block 0 (unat (d_size d + p_size p + 4)) (le32 1 @ ?el) = None"
    by (simp add: fill_block_None_iff size)
  with nz el have "pack_lib_list_to_array [?t] = None"
    by (simp add: pack_lib_list_to_array_def pack_data_list_to_array_def Let_def)
  with t show ?thesis by blast
qed

section \<open>Properties\<close>

definition sample_app :: data_t where
  "sample_app = \<lparr>d_hash = calc_app_hash (AppData 1 [97] [47]), d_size = 12, d_data = AppData 1 [97] [47],
                d_func_num = 0, d_list = []\<rparr>"

definition sample_inst :: "data_t list \<Rightarrow> data_t list \<Rightarrow> inst_t" where
  "sample_inst libs apps =
     \<lparr>us_inst = \<lparr>app_num = of_nat (length apps), app_inst_list = apps, lib_num = 0, lib_inst_list = libs\<rparr>,
      new_lib_inst_list = [], lib_maps_message = None\<rparr>"

lemma sample_app_valid [simp]: "valid_app (\<lambda>_. True) sample_app"
  by (simp add: valid_app_def valid_funcs_def sample_app_def wf_data_def check_app_id_def
      app_path_ok_def check_exec_path_def)

lemma sample_app_wf [simp]: "wf_data sample_app" "\<not> is_LibData (d_data sample_app)"
  using sample_app_valid by (simp_all add: valid_app_def valid_funcs_def)

lemma sample_apps_enc:
  "apps_enc [sample_app] = le32 1 @ le32 1 @ [97, 0, 47, 0] @ le32 0"
  by (simp add: apps_enc_def enc_data_def enc_element_def pack_app_head_to_array_def sample_app_def)

lemma sample_msg_size: "msg_size [] [sample_app] = 20"
  by (simp add: msg_size_def sample_app_def)

lemma msg_start_received:
  assumes wf: "wf_buf b" and inv: "inst_inv st" and apps: "list_all (valid_app stat_ok) apps"
    and n: "length apps \<le> 1000" and unread: "unread b = apps_enc apps @ le32 0 @ rest"
    and us: "us = (us_inst st)\<lparr>app_num := of_nat (length apps),
                              app_inst_list := rev apps @ app_inst_list (us_inst st)\<rparr>"
    and fit: "fits (lib_inst_list us) (app_inst_list us)"
    and len: "length (enc_paths (maps_paths realpath us)) + 8 < 2 ^ 32"
  shows "msg_start stat_ok malloc_ok realpath b st seq =
    Some (st\<lparr>us_inst := us, lib_maps_message := Some \<lparr>maps_type = MSG_MAPS_INST_LIST,
              maps_length = of_nat (8 + length (enc_paths (maps_paths realpath us))),
              maps_data = enc_paths (maps_paths realpath us)\<rparr>\<rparr>, seq\<lparr>enabled := 0\<rparr>,
      \<lparr>out_res = 0, out_err = None,
       out_msg = Some (enc_msg (msg_val NMSG_START) (lib_inst_list us) (app_inst_list us)),
       out_maps = False\<rparr>)"
proof -
  let ?c = "advance (length (apps_enc apps)) b"
  have beg: "begins b (apps_enc apps)" using unread by (simp add: begins_def)
  then have "wf_buf ?c" by (rule begins_wf [OF wf _ refl])
  then have "parse_replay_event_seq malloc_ok ?c seq = GOk (advance 4 ?c) (seq\<lparr>enabled := 0\<rparr>)"
    by (rule parse_replay_disabled) (simp add: unread)
  with beg apps n
  have "parse_app_inst_list stat_ok malloc_ok b (app_num (us_inst st)) (app_inst_list (us_inst st)) seq =
      GOk (advance 4 ?c) (of_nat (length apps), rev apps @ app_inst_list (us_inst st), seq\<lparr>enabled := 0\<rparr>)"
    unfolding parse_app_inst_list_iff [OF wf] by blast
  from msg_start_ok [OF wf inv this us] fit len us show ?thesis by simp
qed

text \<open>
  C1. A start request with valid applications and no replay: the applications go in front of the
  session's, the kernel message carries the installed libraries and all applications under the
  number of the start request, and the list of paths for the targets is made anew.
\<close>

theorem start_request:
  assumes wf: "wf_buf b" and inv: "inst_inv st" and apps: "list_all (valid_app stat_ok) apps"
    and n: "length apps \<le> 1000" and unread: "unread b = apps_enc apps @ le32 0 @ rest"
    and us: "us = (us_inst st)\<lparr>app_num := of_nat (length apps),
                              app_inst_list := rev apps @ app_inst_list (us_inst st)\<rparr>"
    and fit: "fits (lib_inst_list us) (app_inst_list us)"
    and len: "length (enc_paths (maps_paths realpath us)) + 8 < 2 ^ 32"
  shows "msg_start stat_ok malloc_ok realpath b st seq =
    Some (st\<lparr>us_inst := us, lib_maps_message := Some \<lparr>maps_type = MSG_MAPS_INST_LIST,
              maps_length = of_nat (8 + length (enc_paths (maps_paths realpath us))),
              maps_data = enc_paths (maps_paths realpath us)\<rparr>\<rparr>, seq\<lparr>enabled := 0\<rparr>,
      \<lparr>out_res = 0, out_err = None,
       out_msg = Some (enc_msg (msg_val NMSG_START) (lib_inst_list us) (app_inst_list us)),
       out_maps = False\<rparr>)"
  by (rule msg_start_received) fact+

theorem start_request_witness:
  "\<exists>maps. msg_start (\<lambda>_. True) (\<lambda>_. True) Some (sample_buf (apps_enc [sample_app] @ le32 0)) (sample_inst [] [])
     \<lparr>enabled = 7, seq_tv = zero_tv, event_num = 0, events = None\<rparr> =
   Some (sample_inst [] [sample_app]\<lparr>lib_maps_message := Some maps\<rparr>,
     \<lparr>enabled = 0, seq_tv = zero_tv, event_num = 0, events = None\<rparr>,
     \<lparr>out_res = 0, out_err = None, out_msg = Some (enc_msg (msg_val NMSG_START) [] [sample_app]), out_maps = False\<rparr>)"
proof -
  let ?b = "sample_buf (apps_enc [sample_app] @ le32 0)"
  let ?us = "(us_inst (sample_inst [] []))\<lparr>app_num := of_nat (length [sample_app]),
        app_inst_list := rev [sample_app] @ app_inst_list (us_inst (sample_inst [] []))\<rparr>"
  have "wf_buf ?b" unfolding sample_apps_enc by simp
  moreover have "inst_inv (sample_inst [] [])" by (simp add: inst_inv_def sample_inst_def)
  moreover have "fits (lib_inst_list ?us) (app_inst_list ?us)"
    by (simp add: fits_def sample_inst_def sample_msg_size)
  moreover have "length (enc_paths (maps_paths Some ?us)) + 8 < 2 ^ 32"
    by (simp add: enc_paths_def maps_paths_def sample_inst_def map_filter_simps sample_app_def)
  moreover have "unread ?b = apps_enc [sample_app] @ le32 0 @ []" by simp
  ultimately show ?thesis
    using start_request [of ?b "sample_inst [] []" "\<lambda>_. True" "[sample_app]" "[]" ?us Some "\<lambda>_. True"
        "\<lparr>enabled = 7, seq_tv = zero_tv, event_num = 0, events = None\<rparr>"]
    by (simp add: sample_inst_def)
qed

text \<open>
  C10. An add request with valid libraries installs every one of them, whatever is installed already,
  and, while applications are being profiled, sends the kernel a list without any library.
\<close>

theorem add_request:
  assumes wf: "wf_buf b" and inv: "inst_inv st" and libs: "list_all (valid_lib stat_ok) libs"
    and n: "length libs \<le> 1000" and unread: "unread b = libs_enc libs @ rest"
    and us: "us = (us_inst st)\<lparr>lib_inst_list := rev libs @ lib_inst_list (us_inst st)\<rparr>"
    and fit: "fits [] (app_inst_list us)"
    and len: "length (enc_paths (maps_paths realpath us)) + 8 < 2 ^ 32"
  shows "\<exists>maps. msg_swap_inst_add stat_ok realpath b st =
    Some (st\<lparr>us_inst := us, new_lib_inst_list := [], lib_maps_message := Some maps\<rparr>,
      \<lparr>out_res = 0, out_err = Some ERR_NO,
       out_msg = (if app_inst_list us = [] then None
                  else Some (enc_msg (msg_val NMSG_SWAP_INST_ADD) [] (app_inst_list us))),
       out_maps = True\<rparr>)"
proof -
  have "begins b (libs_enc libs)" using unread by (simp add: begins_def)
  with libs n have "parse_lib_inst_list stat_ok b 0 (lib_inst_list (us_inst st)) =
      GOk (advance (length (libs_enc libs)) b) (of_nat (length libs), rev libs @ lib_inst_list (us_inst st))"
    unfolding parse_lib_inst_list_iff [OF wf] by blast
  from msg_swap_inst_add_ok [OF wf inv this us fit len] show ?thesis .
qed

theorem add_request_witness:
  "let lib = sample_lib 97 [sample_probe 4096] in
   \<exists>st'. msg_swap_inst_add (\<lambda>_. True) Some (sample_buf (libs_enc [lib])) (sample_inst [lib] [sample_app]) =
     Some (st', \<lparr>out_res = 0, out_err = Some ERR_NO,
       out_msg = Some (enc_msg (msg_val NMSG_SWAP_INST_ADD) [] [sample_app]), out_maps = True\<rparr>)
     \<and> lib_inst_list (us_inst st') = [lib, lib]"
proof -
  let ?lib = "sample_lib 97 [sample_probe 4096]"
  let ?b = "sample_buf (libs_enc [?lib])"
  let ?st = "sample_inst [?lib] [sample_app]"
  let ?us = "(us_inst ?st)\<lparr>lib_inst_list := rev [?lib] @ lib_inst_list (us_inst ?st)\<rparr>"
  have v: "valid_lib (\<lambda>_. True) ?lib" using sample_lib_valid [of 97 "[4096]"] by simp
  then have "inst_inv ?st"
    by (simp add: inst_inv_def sample_inst_def wf_lib_def valid_lib_def valid_funcs_def)
  moreover have "wf_buf ?b"
    unfolding libs_enc_def using sample_lib_enc [of 97 4096] by simp
  moreover have "fits [] (app_inst_list ?us)" by (simp add: fits_def sample_inst_def sample_msg_size)
  moreover have "length (enc_paths (maps_paths Some ?us)) + 8 < 2 ^ 32"
    by (simp add: enc_paths_def maps_paths_def sample_inst_def map_filter_simps sample_app_def sample_lib_def)
  moreover have "unread ?b = libs_enc [?lib] @ []" by simp
  ultimately show ?thesis
    using add_request [of ?b ?st "\<lambda>_. True" "[?lib]" "[]" ?us Some] v
    by (auto simp: Let_def) (auto simp: sample_inst_def)
qed

text \<open>
  C11. A remove request with valid libraries takes what it names out of the installed probes; the
  message to the kernel lists exactly what of it was installed, under the number of the add request.
\<close>

theorem remove_request:
  assumes wf: "wf_buf b" and inv: "inst_inv st" and nd: "no_dups (lib_inst_list (us_inst st))"
    and libs: "list_all (valid_lib stat_ok) libs" and n: "length libs \<le> 1000"
    and unread: "unread b = libs_enc libs @ rest"
    and res: "resolve_collisions_for_rm_msg (lib_inst_list (us_inst st)) (rev libs) = (cur, gone)"
    and us: "us = (us_inst st)\<lparr>lib_inst_list := cur\<rparr>"
    and fit: "fits gone (app_inst_list us)"
    and len: "length (enc_paths (maps_paths realpath us)) + 8 < 2 ^ 32"
  shows "(\<exists>maps. msg_swap_inst_remove stat_ok realpath b st =
    Some (st\<lparr>us_inst := us, new_lib_inst_list := [], lib_maps_message := Some maps\<rparr>,
      \<lparr>out_res = 0, out_err = Some ERR_NO,
       out_msg = (if app_inst_list us = [] then None
                  else Some (enc_msg (msg_val NMSG_SWAP_INST_ADD) gone (app_inst_list us))),
       out_maps = True\<rparr>))
    \<and> installed cur = installed (lib_inst_list (us_inst st)) - requested libs
    \<and> installed gone = installed (lib_inst_list (us_inst st)) \<inter> requested libs"
proof -
  have "begins b (libs_enc libs)" using unread by (simp add: begins_def)
  with libs n have parse: "parse_lib_inst_list stat_ok b 0 [] =
      GOk (advance (length (libs_enc libs)) b) (of_nat (length libs), rev libs)"
    unfolding parse_lib_inst_list_iff [OF wf] by auto
  have "requested (rev libs) = requested libs" by (simp add: requested_def)
  with msg_swap_inst_remove_ok [OF wf inv nd parse res us fit len] show ?thesis by simp
qed

theorem remove_request_witness:
  "let lib = sample_lib 97 (map sample_probe [4096]);
       (cur, gone) = resolve_collisions_for_rm_msg [lib] [lib] in
   installed cur = {} \<and> (\<exists>maps. msg_swap_inst_remove (\<lambda>_. True) Some (sample_buf (libs_enc [lib])) (sample_inst [lib] []) =
     Some (sample_inst cur []\<lparr>lib_maps_message := Some maps\<rparr>,
       \<lparr>out_res = 0, out_err = Some ERR_NO, out_msg = None, out_maps = True\<rparr>))"
proof -
  let ?lib = "sample_lib 97 [sample_probe 4096]"
  let ?b = "sample_buf (libs_enc [?lib])"
  let ?st = "sample_inst [?lib] []"
  have v: "valid_lib (\<lambda>_. True) ?lib" using sample_lib_valid [of 97 "[4096]"] by simp
  then have inv: "inst_inv ?st"
    by (simp add: inst_inv_def sample_inst_def wf_lib_def valid_lib_def valid_funcs_def)
  have wfb: "wf_buf ?b"
    unfolding libs_enc_def using sample_lib_enc [of 97 4096] by simp
  have res: "resolve_collisions_for_rm_msg [?lib] [?lib] =
      ([], [?lib])"
    by (simp add: resolve_collisions_for_rm_msg_def cmp_libs_def sample_lib_def same_probe_def
        probe_list_rm_element_def Let_def)
  let ?us = "(us_inst ?st)\<lparr>lib_inst_list := []\<rparr>"
  have nd: "no_dups (lib_inst_list (us_inst ?st))"
    by (simp add: sample_inst_def no_dups_def sample_lib_def)
  have fit: "fits [?lib] (app_inst_list ?us)"
    by (simp add: fits_def sample_inst_def sample_lib_def msg_size_def)
  have len: "length (enc_paths (maps_paths Some ?us)) + 8 < 2 ^ 32"
    by (simp add: enc_paths_def maps_paths_def sample_inst_def map_filter_simps)
  have unread: "unread ?b = libs_enc [?lib] @ []" by simp
  have "resolve_collisions_for_rm_msg (lib_inst_list (us_inst ?st)) (rev [?lib]) = ([], [?lib])"
    using res by (simp add: sample_inst_def)
  from remove_request [OF wfb inv nd _ _ unread this refl fit len] v res
  show ?thesis by (auto simp: sample_inst_def Let_def)
qed

text \<open>
  C29. Start and add requests, accepted or not, and accepted remove requests keep the lists
  well-formed and leave no request behind.
\<close>

theorem inst_lists_invariant:
  assumes "wf_buf b" "inst_inv st"
  shows "(\<forall>st' seq' out. msg_start stat_ok malloc_ok realpath b st seq = Some (st', seq', out) \<longrightarrow> inst_inv st')
    \<and> (\<forall>st' out. msg_swap_inst_add stat_ok realpath b st = Some (st', out) \<longrightarrow> inst_inv st')
    \<and> (\<forall>st' out. msg_swap_inst_remove stat_ok realpath b st = Some (st', out) \<longrightarrow> out_res out = 0 \<longrightarrow> inst_inv st')"
  using msg_start_inv [OF assms] msg_swap_inst_add_inv [OF assms] msg_swap_inst_remove_inv [OF assms]
  by blast

theorem inst_lists_invariant_witness:
  "inst_inv (fst (the (msg_swap_inst_add (\<lambda>_. True) Some (sample_buf (le32 0)) (sample_inst [] []))))"
proof -
  have inv: "inst_inv (sample_inst [] [])" by (simp add: inst_inv_def sample_inst_def)
  have wf: "wf_buf (sample_buf (le32 0))" by simp
  have "parse_int32 (sample_buf (le32 0)) = POk 0 (advance 4 (sample_buf (le32 0)))"
    by (rule r32.rd_enc [OF wf, of _ "[]"]) simp
  then have "parse_lib_inst_list (\<lambda>_. True) (sample_buf (le32 0)) 0 (lib_inst_list (us_inst (sample_inst [] [])))
      = GOk (advance 4 (sample_buf (le32 0))) (0, [])"
    by (simp add: parse_lib_inst_list_def check_lib_inst_count_iff sample_inst_def)
  from msg_swap_inst_add_ok [OF wf inv this refl, of Some] obtain st' out where
    "msg_swap_inst_add (\<lambda>_. True) Some (sample_buf (le32 0)) (sample_inst [] []) = Some (st', out)"
    by (auto simp: sample_inst_def fits_def msg_size_def enc_paths_def maps_paths_def map_filter_simps)
  with inst_lists_invariant [OF wf inv, of "\<lambda>_. True" "\<lambda>_. True" Some] show ?thesis by auto
qed

text \<open>
  C31. Merging a chain of two or more probes into a library that has probes counts the first one only:
  the library's size becomes too small and packing it writes past the block.
\<close>

theorem merge_size_overflow:
  assumes "wf_data d" "wf_data e" "is_LibData (d_data d)" "d_list e = p # q # ps" "d_list d \<noteq> []"
    and "unat (d_size d) + unat (p_size p) + 4 < 2 ^ 32"
  shows "\<exists>t. data_list_append_probes_hash d e = Some t \<and> pack_lib_list_to_array [t] = None"
  by (rule merge_overflow) fact+

theorem merge_size_overflow_witness:
  "\<exists>t. data_list_append_probes_hash (sample_lib 97 [sample_probe 1]) (sample_lib 97 (map sample_probe [2, 3])) = Some t
     \<and> pack_lib_list_to_array [t] = None"
proof -
  have "wf_lib (sample_lib 97 (map sample_probe [1]))" "wf_lib (sample_lib 97 (map sample_probe [2, 3]))"
    by (rule sample_lib_wf; simp)+
  then show ?thesis
    using merge_size_overflow [of "sample_lib 97 [sample_probe 1]" "sample_lib 97 (map sample_probe [2, 3])"
        "sample_probe 2" "sample_probe 3" "[]"]
    by (simp add: wf_lib_def sample_lib_def sample_probe_def new_probe_def)
qed

end
