(* ===== verification/World.thy ===== *)
theory World
  imports Inst_Msgs
begin

text \<open>
  The daemon's state and its surroundings. The globals of the program (\<^verbatim>\<open>manager\<close>, \<^verbatim>\<open>prof_session\<close>,
  the target pool and the file-level variables) are one record; every call to the operating system is
  appended to its \<open>trace\<close>, and the results come from an oracle that may depend on everything that was
  done before. The properties hold for every oracle, except where one states documented behaviour of
  a call.
\<close>

section \<open>System calls\<close>

text \<open>The threads the daemon creates; a receive thread has the number of its target.\<close>

datatype thread_id = Sampling_thread | Replay_thread | Transfer_thread | Recv_thread nat

datatype io =
    Ioctl_msg bytes | Ioctl_flush | Ioctl_wake_up
  | Write_buf bytes
  | Send int bytes
  | Recv int nat
  | Spawn "bytes list" | Waitpid
  | Proc_scan bytes | Kill int | Sleep | Sleep_us u32
  | Timerfd_create | Timerfd_settime int int
  | Fd_handler_add int | Fd_handler_del int
  | Accept int | Eventfd | Event_read nat | Event_write nat u64
  | Close int
  | Pthread_create thread_id | Pthread_kill thread_id | Pthread_cancel thread_id | Pthread_join thread_id
  | Setitimer int int
  | Fcntl_setfl bool
  | Remove_indir bytes | Mkdir bytes | Fsetxattr int bytes bytes | Smack_lsetlabel bytes bytes
  | Sys_stat_prepare
  | Read_cmdline int
  | Loop_quit
  | Open bytes | Read_fd int nat | Write_fd int bytes | Fopen bytes | Fclose
  | System bytes | Ioctl_init | Ioctl_uninit
  | Access bytes | Flock int | Unlink bytes | Chmod bytes
  | Socket_local | Socket_inet | Bind_local int bytes | Bind_port int nat | Listen int
  | Sigmask | Write_port int | Signal_default int | Signal_ignore int | Raise int

text \<open>
  The oracle: results of calls, bytes they deliver, the time, the processes found under \<^verbatim>\<open>/proc\<close> (number
  and first word of the command line), and the file system. \<open>os_realpath_buf\<close> is what a failing
  \<^verbatim>\<open>realpath\<close> leaves in its buffer; \<open>os_file\<close> is the contents of a file that can be opened; \<open>os_stack\<close>
  tells whether an array of that many bytes finds room on the stack; \<open>os_input_dir\<close> is the list of
  names in \<^verbatim>\<open>/sys/class/input\<close> if it can be opened, \<open>os_pid\<close> the number of the daemon's process.
\<close>

record os_t =
  os_ret :: "io list \<Rightarrow> io \<Rightarrow> int"
  os_bytes :: "io list \<Rightarrow> io \<Rightarrow> bytes"
  os_time :: "io list \<Rightarrow> u32 \<times> u32"
  os_procs :: "io list \<Rightarrow> (int \<times> bytes) list"
  os_stat :: "bytes \<Rightarrow> bool"
  os_realpath :: "bytes \<Rightarrow> bytes option"
  os_realpath_buf :: "bytes \<Rightarrow> bytes"
  os_malloc :: "u32 \<Rightarrow> bool"
  os_file :: "bytes \<Rightarrow> bytes option"
  os_stack :: "nat \<Rightarrow> bool"
  os_input_dir :: "bytes list option"
  os_pid :: int

section \<open>State\<close>

text \<open>
  A target. \<open>t_thread\<close> is the thread object it points to, with its \<^verbatim>\<open>run_flag\<close>; \<open>None\<close> when there is no
  object (or it has been freed).
\<close>

record target_t =
  t_app_type :: app_type_t
  t_allocmem :: int
  t_pid :: int
  t_ppid :: int
  t_socket :: int
  t_event_fd :: int
  t_initial_log :: bool
  t_thread :: "bool option"

text \<open>
  \<open>s_\<close>: \<^verbatim>\<open>prof_session\<close>; \<open>m_\<close>: \<^verbatim>\<open>manager\<close> (a thread field is true when it holds an identifier other
  than -1); \<open>g_\<close>: other globals; \<open>tg_\<close>: the target pool.
\<close>

record da_t =
  s_conf :: conf_t
  s_inst :: inst_t
  s_replay :: replay_event_seq_t
  s_running :: bool
  m_sampling :: bool
  m_replay :: bool
  m_transfer :: bool
  m_control_socket :: int
  m_data_socket :: int
  m_host_server_socket :: int
  m_target_server_socket :: int
  m_launch_timerfd :: int
  m_connect_timerfd :: int
  m_apps_to_run :: int
  g_input_running :: bool
  g_key_fds :: "int list"
  g_touch_fds :: "int list"
  g_host_order :: nat
  g_lpad_pid :: int
  m_buf_fd :: int
  m_user_ev_fd :: int
  m_inst_tasks :: bool
  tg_use :: "bool list"
  tg_array :: "target_t list"
  tg_cnt :: int
  trace :: "io list"

text \<open>
  An operation returns, or ends the process with \<^verbatim>\<open>exit\<close>, or runs into undefined behaviour.
\<close>

datatype 'a run = Ret 'a | Exits da_t | Faults

fun rbind :: "'a run \<Rightarrow> ('a \<Rightarrow> 'b run) \<Rightarrow> 'b run" where
  "rbind (Ret v) f = f v"
| "rbind (Exits d) f = Exits d"
| "rbind Faults f = Faults"

definition of_option :: "'a option \<Rightarrow> 'a run" where
  "of_option r = (case r of None \<Rightarrow> Faults | Some v \<Rightarrow> Ret v)"

section \<open>Calls\<close>

definition emit :: "io \<Rightarrow> da_t \<Rightarrow> da_t" where
  "emit e d = d\<lparr>trace := trace d @ [e]\<rparr>"

definition sys :: "os_t \<Rightarrow> io \<Rightarrow> da_t \<Rightarrow> int \<times> da_t" where
  "sys os e d = (os_ret os (trace d) e, emit e d)"

lemma sys_simps [simp]:
  "fst (sys os e d) = os_ret os (trace d) e"
  "snd (sys os e d) = emit e d"
  by (simp_all add: sys_def)

lemma emit_frame [simp, frame_simps]:
  "s_conf (emit e d) = s_conf d" "s_inst (emit e d) = s_inst d" "s_replay (emit e d) = s_replay d"
  "s_running (emit e d) = s_running d" "m_sampling (emit e d) = m_sampling d"
  "m_replay (emit e d) = m_replay d" "m_transfer (emit e d) = m_transfer d"
  "m_control_socket (emit e d) = m_control_socket d" "m_data_socket (emit e d) = m_data_socket d"
  "m_host_server_socket (emit e d) = m_host_server_socket d"
  "m_target_server_socket (emit e d) = m_target_server_socket d"
  "m_launch_timerfd (emit e d) = m_launch_timerfd d"
  "m_connect_timerfd (emit e d) = m_connect_timerfd d" "m_apps_to_run (emit e d) = m_apps_to_run d"
  "g_input_running (emit e d) = g_input_running d" "g_host_order (emit e d) = g_host_order d"
  "g_key_fds (emit e d) = g_key_fds d" "g_touch_fds (emit e d) = g_touch_fds d"
  "g_lpad_pid (emit e d) = g_lpad_pid d" "m_buf_fd (emit e d) = m_buf_fd d"
  "m_user_ev_fd (emit e d) = m_user_ev_fd d" "m_inst_tasks (emit e d) = m_inst_tasks d"
  "tg_use (emit e d) = tg_use d" "tg_array (emit e d) = tg_array d" "tg_cnt (emit e d) = tg_cnt d"
  "trace (emit e d) = trace d @ [e]"
  by (simp_all add: emit_def)

lemma rbind_Ret_iff: "rbind r f = Ret v \<longleftrightarrow> (\<exists>u. r = Ret u \<and> f u = Ret v)"
  by (cases r) auto

lemma rbind_Exits_iff: "rbind r f = Exits d \<longleftrightarrow> r = Exits d \<or> (\<exists>u. r = Ret u \<and> f u = Exits d)"
  by (cases r) auto

lemma rbind_Faults_iff: "rbind r f = Faults \<longleftrightarrow> r = Faults \<or> (\<exists>u. r = Ret u \<and> f u = Faults)"
  by (cases r) auto

lemma of_option_simps [simp]:
  "of_option (Some v) = Ret v" "of_option None = Faults"
  "of_option r = Ret v \<longleftrightarrow> r = Some v" "of_option r \<noteq> Exits d" "of_option r = Faults \<longleftrightarrow> r = None"
  by (auto simp: of_option_def split: option.splits)

lemmas run_iffs = rbind_Ret_iff rbind_Exits_iff rbind_Faults_iff

text \<open>\<open>d'\<close> continues the history of \<open>d\<close>.\<close>

definition extends :: "da_t \<Rightarrow> da_t \<Rightarrow> bool" where
  "extends d d' \<longleftrightarrow> (\<exists>es. trace d' = trace d @ es)"

lemma extends_refl [simp, intro]: "extends d d"
  by (simp add: extends_def)

lemma extends_trans: "extends d d' \<Longrightarrow> extends d' d'' \<Longrightarrow> extends d d''"
  by (auto simp: extends_def)

lemma extends_emit [simp, intro]: "extends d (emit e d)"
  by (auto simp: extends_def)

text \<open>The part of a history that came after \<open>d\<close>.\<close>

definition since :: "da_t \<Rightarrow> da_t \<Rightarrow> io list" where
  "since d d' = drop (length (trace d)) (trace d')"

lemma since_emit [simp]: "since d (emit e d) = [e]"
  by (simp add: since_def)

section \<open>Labels\<close>

text \<open>The labels of sockets and files (\<^verbatim>\<open>daemon/smack.c\<close>); the results of the calls are not used.\<close>

definition fd_setup_attributes :: "int \<Rightarrow> da_t \<Rightarrow> da_t" where
  "fd_setup_attributes fd d =
     emit (Fsetxattr fd (cstr ''security.SMACK64IPOUT'') (cstr ''@''))
       (emit (Fsetxattr fd (cstr ''security.SMACK64IPIN'') (cstr ''*'')) d)"

definition set_label_for_all :: "bytes \<Rightarrow> da_t \<Rightarrow> da_t" where
  "set_label_for_all path d = emit (Smack_lsetlabel path (cstr ''*'')) d"

lemmas label_simps [simp] = fd_setup_attributes_def set_label_for_all_def

section \<open>The driver\<close>

text \<open>
  \<^verbatim>\<open>ioctl_send_msg\<close> (\<^verbatim>\<open>daemon/ioctl_commands.c\<close>), \<^verbatim>\<open>flush_buf\<close>, \<^verbatim>\<open>wake_up_buf\<close> and
  \<^verbatim>\<open>write_to_buf\<close> (\<^verbatim>\<open>daemon/buffer.c\<close>).
\<close>

definition ioctl_send_msg :: "os_t \<Rightarrow> bytes \<Rightarrow> da_t \<Rightarrow> int \<times> da_t" where
  "ioctl_send_msg os msg d = (let (r, d) = sys os (Ioctl_msg msg) d in (if r = -1 then 1 else 0, d))"

definition flush_buf :: "da_t \<Rightarrow> da_t" where
  "flush_buf d = emit Ioctl_flush d"

definition wake_up_buf :: "da_t \<Rightarrow> da_t" where
  "wake_up_buf d = emit Ioctl_wake_up d"

definition write_to_buf :: "os_t \<Rightarrow> bytes \<Rightarrow> da_t \<Rightarrow> int \<times> da_t" where
  "write_to_buf os msg d = (let (r, d) = sys os (Write_buf msg) d in (if r = -1 then 1 else 0, d))"

section \<open>A small system\<close>

text \<open>A system in which every call gives \<open>r\<close> and nothing is read, for examples.\<close>

definition sample_os :: "int \<Rightarrow> os_t" where
  "sample_os r = \<lparr>os_ret = \<lambda>_ _. r, os_bytes = \<lambda>_ _. [], os_time = \<lambda>_. (0, 0), os_procs = \<lambda>_. [],
     os_stat = \<lambda>_. True, os_realpath = Some, os_realpath_buf = \<lambda>_. [], os_malloc = \<lambda>_. True,
     os_file = \<lambda>_. None, os_stack = \<lambda>_. True, os_input_dir = None, os_pid = 1\<rparr>"

lemma sample_os_simps [simp]:
  "os_ret (sample_os r) es e = r" "os_bytes (sample_os r) es e = []" "os_time (sample_os r) es = (0, 0)"
  "os_procs (sample_os r) es = []" "os_stat (sample_os r) p" "os_realpath (sample_os r) = Some"
  "os_malloc (sample_os r) n" "os_file (sample_os r) p = None" "os_stack (sample_os r) k"
  "os_input_dir (sample_os r) = None" "os_pid (sample_os r) = 1"
  by (simp_all add: sample_os_def)

end
