(* ===== verification/Targets.thy ===== *)
theory Targets
  imports World
begin

text \<open>
  Thread objects (\<^verbatim>\<open>daemon/thread.c\<close>) and the pool of targets (\<^verbatim>\<open>daemon/target.c\<close>). A pointer to a
  target is its index in the pool of eight. A thread object is its \<^verbatim>\<open>run_flag\<close>; the mutexes make each
  operation one step. The use of a missing thread object is \<open>Faults\<close>.
\<close>

section \<open>Thread objects\<close>

definition EBUSY :: int where "EBUSY = 16"
definition ESRCH :: int where "ESRCH = 3"

definition thread_ctor :: "os_t \<Rightarrow> bool option" where
  "thread_ctor os = (if os_malloc os 32 then Some False else None)"

definition thread_start :: "os_t \<Rightarrow> thread_id \<Rightarrow> bool \<Rightarrow> da_t \<Rightarrow> int \<times> bool \<times> da_t" where
  "thread_start os tid run_flag d =
     (if run_flag then (EBUSY, run_flag, d)
      else (let (ret, d) = sys os (Pthread_create tid) d in (ret, ret = 0, d)))"

definition thread_wait :: "os_t \<Rightarrow> thread_id \<Rightarrow> bool \<Rightarrow> da_t \<Rightarrow> int \<times> bool \<times> da_t" where
  "thread_wait os tid run_flag d =
     (if run_flag then (let (ret, d) = sys os (Pthread_join tid) d in (ret, False, d))
      else (ESRCH, run_flag, d))"

section \<open>The pool\<close>

definition UNKNOWN_PID :: int where "UNKNOWN_PID = -1"
definition UNKNOWN_FD :: int where "UNKNOWN_FD = -1"

fun find_free :: "bool list \<Rightarrow> nat option" where
  "find_free [] = None"
| "find_free (u # us) = (if \<not> u then Some 0 else map_option Suc (find_free us))"

definition target_malloc :: "bool list \<Rightarrow> nat option \<times> bool list" where
  "target_malloc use =
     (case find_free use of None \<Rightarrow> (None, use) | Some i \<Rightarrow> (Some i, use[i := True]))"

definition target_free :: "nat \<Rightarrow> bool list \<Rightarrow> bool list" where
  "target_free i use = use[i := False]"

definition upd_target :: "nat \<Rightarrow> (target_t \<Rightarrow> target_t) \<Rightarrow> da_t \<Rightarrow> da_t" where
  "upd_target i f d = d\<lparr>tg_array := (tg_array d)[i := f (tg_array d ! i)]\<rparr>"

definition target_get :: "nat \<Rightarrow> da_t \<Rightarrow> target_t" where
  "target_get i d = tg_array d ! i"

definition target_ctor :: "os_t \<Rightarrow> da_t \<Rightarrow> nat option \<times> da_t" where
  "target_ctor os d =
     (let (t, use) = target_malloc (tg_use d); d = d\<lparr>tg_use := use\<rparr> in
      case t of
        None \<Rightarrow> (None, d)
      | Some i \<Rightarrow>
          (let d = upd_target i (\<lambda>t. t\<lparr>t_app_type := APP_TYPE_UNKNOWN, t_pid := UNKNOWN_PID,
                      t_socket := UNKNOWN_FD, t_event_fd := UNKNOWN_FD, t_initial_log := False,
                      t_allocmem := 0, t_thread := thread_ctor os\<rparr>) d in
           if thread_ctor os = None then (None, d\<lparr>tg_use := target_free i use\<rparr>)
           else (Some i, d)))"

text \<open>\<^verbatim>\<open>thread_dtor\<close> reads \<^verbatim>\<open>run_flag\<close> of the object before it frees it.\<close>

definition target_dtor :: "nat \<Rightarrow> da_t \<Rightarrow> da_t run" where
  "target_dtor i d =
     (let t = target_get i d;
          d = (if t_event_fd t \<noteq> -1 then emit (Close (t_event_fd t)) d else d);
          d = (if t_socket t \<noteq> UNKNOWN_FD then emit (Close (t_socket t)) d else d)
      in if t_thread t = None then Faults
         else Ret ((upd_target i (\<lambda>t. t\<lparr>t_allocmem := 0, t_initial_log := False, t_event_fd := -1,
                       t_socket := -1, t_thread := None\<rparr>) d)\<lparr>tg_use := target_free i (tg_use d)\<rparr>))"

definition target_accept :: "os_t \<Rightarrow> nat \<Rightarrow> int \<Rightarrow> da_t \<Rightarrow> int \<times> da_t" where
  "target_accept os i sockfd d =
     (let (sock, d) = sys os (Accept sockfd) d in
      if sock = UNKNOWN_FD then (1, d)
      else (0, upd_target i (\<lambda>t. t\<lparr>t_socket := sock\<rparr>) (fd_setup_attributes sock d)))"

section \<open>Sending to a target\<close>

text \<open>
  A message in memory is its block, header and data. \<^verbatim>\<open>send_msg_to_sock\<close> (\<^verbatim>\<open>daemon/da_protocol.c\<close>) sends
  header and \<^verbatim>\<open>length\<close> bytes; when the block is shorter, what lies behind it goes out, too. The
  bytes behind a block come from the oracle.
\<close>

definition send_bytes :: "os_t \<Rightarrow> int \<Rightarrow> bytes \<Rightarrow> nat \<Rightarrow> da_t \<Rightarrow> bytes" where
  "send_bytes os sock block n d = take n (block @ os_bytes os (trace d) (Send sock block))"

definition send_msg_to_sock :: "os_t \<Rightarrow> int \<Rightarrow> bytes \<Rightarrow> u32 \<Rightarrow> da_t \<Rightarrow> int \<times> da_t" where
  "send_msg_to_sock os sock block len d =
     (let n = 8 + len; (ret, d) = sys os (Send sock (send_bytes os sock block (unat n) d)) d in
      (if word_of_int ret \<noteq> n then 1 else 0, d))"

definition target_send_msg :: "os_t \<Rightarrow> nat \<Rightarrow> bytes \<Rightarrow> u32 \<Rightarrow> da_t \<Rightarrow> int \<times> da_t" where
  "target_send_msg os i block len d = send_msg_to_sock os (t_socket (target_get i d)) block len d"

definition target_wait :: "os_t \<Rightarrow> nat \<Rightarrow> da_t \<Rightarrow> (int \<times> da_t) run" where
  "target_wait os i d =
     (case t_thread (target_get i d) of
        None \<Rightarrow> Faults
      | Some run_flag \<Rightarrow>
          (let (ret, run_flag, d) = thread_wait os (Recv_thread i) run_flag d in
           Ret (ret, upd_target i (\<lambda>t. t\<lparr>t_thread := Some run_flag\<rparr>) d)))"

definition target_start :: "os_t \<Rightarrow> nat \<Rightarrow> da_t \<Rightarrow> (int \<times> da_t) run" where
  "target_start os i d =
     (case t_thread (target_get i d) of
        None \<Rightarrow> Faults
      | Some run_flag \<Rightarrow>
          (let (ret, run_flag, d) = thread_start os (Recv_thread i) run_flag d in
           Ret (ret, upd_target i (\<lambda>t. t\<lparr>t_thread := Some run_flag\<rparr>) d)))"

section \<open>The number of targets\<close>

definition target_cnt_set :: "int \<Rightarrow> da_t \<Rightarrow> da_t" where
  "target_cnt_set cnt d = d\<lparr>tg_cnt := cnt\<rparr>"

definition target_cnt_get :: "da_t \<Rightarrow> int" where
  "target_cnt_get d = tg_cnt d"

definition target_cnt_sub_and_fetch :: "da_t \<Rightarrow> int \<times> da_t" where
  "target_cnt_sub_and_fetch d = (tg_cnt d - 1, d\<lparr>tg_cnt := tg_cnt d - 1\<rparr>)"

section \<open>All targets\<close>

text \<open>The loops over the slots of the pool, from slot \<open>i\<close> on, \<open>n\<close> slots.\<close>

primrec send_slots :: "os_t \<Rightarrow> bytes \<Rightarrow> u32 \<Rightarrow> nat list \<Rightarrow> int \<Rightarrow> da_t \<Rightarrow> int \<times> da_t" where
  "send_slots os block len [] ret d = (ret, d)"
| "send_slots os block len (i # is) ret d =
     (if \<not> tg_use d ! i then send_slots os block len is ret d
      else (let (r, d) = target_send_msg os i block len d in
            send_slots os block len is (if r \<noteq> 0 then 1 else ret) d))"

definition target_send_msg_to_all :: "os_t \<Rightarrow> bytes \<Rightarrow> u32 \<Rightarrow> da_t \<Rightarrow> int \<times> da_t" where
  "target_send_msg_to_all os block len d = send_slots os block len [0..<MAX_TARGET_COUNT] 0 d"

primrec wait_slots :: "os_t \<Rightarrow> nat list \<Rightarrow> da_t \<Rightarrow> da_t run" where
  "wait_slots os [] d = Ret d"
| "wait_slots os (i # is) d =
     (if \<not> tg_use d ! i then wait_slots os is d
      else rbind (target_wait os i d) (\<lambda>(_, d). wait_slots os is d))"

definition target_wait_all :: "os_t \<Rightarrow> da_t \<Rightarrow> da_t run" where
  "target_wait_all os d = wait_slots os [0..<MAX_TARGET_COUNT] d"

primrec find_slot :: "da_t \<Rightarrow> int \<Rightarrow> nat list \<Rightarrow> nat option" where
  "find_slot d pid [] = None"
| "find_slot d pid (i # is) =
     (if tg_use d ! i \<and> t_pid (target_get i d) = pid then Some i else find_slot d pid is)"

definition target_get_total_alloc :: "int \<Rightarrow> da_t \<Rightarrow> int" where
  "target_get_total_alloc pid d =
     (case find_slot d pid [0..<MAX_TARGET_COUNT] of
        None \<Rightarrow> 0
      | Some i \<Rightarrow> t_allocmem (target_get i d) mod 2 ^ 64)"

section \<open>The pool as an allocator\<close>

text \<open>
  What an allocator of numbered slots promises: an allocation yields a slot that was not in use, and
  fails only when all are.
\<close>

locale slot_pool =
  fixes alloc :: "'p \<Rightarrow> nat option \<times> 'p" and free :: "nat \<Rightarrow> 'p \<Rightarrow> 'p"
    and used :: "'p \<Rightarrow> nat set" and ok :: "'p \<Rightarrow> bool" and cap :: nat
  assumes used_cap: "ok p \<Longrightarrow> used p \<subseteq> {..<cap}"
    and alloc_ok: "ok p \<Longrightarrow> ok (snd (alloc p))"
    and alloc_Some: "ok p \<Longrightarrow> fst (alloc p) = Some i \<Longrightarrow> i \<notin> used p \<and> used (snd (alloc p)) = insert i (used p)"
    and alloc_None: "ok p \<Longrightarrow> fst (alloc p) = None \<Longrightarrow> used p = {..<cap} \<and> snd (alloc p) = p"
    and free_ok: "ok p \<Longrightarrow> ok (free i p)"
    and free_used: "ok p \<Longrightarrow> used (free i p) = used p - {i}"
begin

lemma alloc_fails_iff: "ok p \<Longrightarrow> fst (alloc p) = None \<longleftrightarrow> used p = {..<cap}"
proof
  assume p: "ok p" and full: "used p = {..<cap}"
  show "fst (alloc p) = None"
  proof (cases "fst (alloc p)")
    case (Some i)
    with alloc_Some [OF p] used_cap [OF alloc_ok [OF p]] full show ?thesis by blast
  qed
qed (use alloc_None in blast)

lemma alloc_in_range: "ok p \<Longrightarrow> fst (alloc p) = Some i \<Longrightarrow> i < cap"
  using alloc_Some used_cap [OF alloc_ok] by blast

lemma free_alloc: "ok p \<Longrightarrow> i \<in> used p \<Longrightarrow> \<exists>j. fst (alloc (free i p)) = Some j"
proof -
  assume p: "ok p" and i: "i \<in> used p"
  with used_cap have "i < cap" by blast
  then have "used (free i p) \<noteq> {..<cap}" by (simp add: free_used p) blast
  with alloc_fails_iff [OF free_ok [OF p]] show ?thesis by (cases "fst (alloc (free i p))") auto
qed

end

definition used_slots :: "bool list \<Rightarrow> nat set" where
  "used_slots use = {i. i < length use \<and> use ! i}"

lemma find_free_Some: "find_free use = Some i \<Longrightarrow> i < length use \<and> \<not> use ! i"
  by (induction use arbitrary: i) (auto split: if_splits)

lemma find_free_None: "find_free use = None \<longleftrightarrow> False \<notin> set use"
  by (induction use) auto

lemma used_slots_update:
  "i < length use \<Longrightarrow>
     used_slots (use[i := b]) = (if b then insert i (used_slots use) else used_slots use - {i})"
  unfolding used_slots_def by (cases b) (simp_all add: nth_list_update set_eq_iff)

lemma target_malloc_Some:
  assumes "fst (target_malloc use) = Some i"
  shows "target_malloc use = (Some i, use[i := True])" and "i < length use" and "\<not> use ! i"
  using assms find_free_Some [of use i] by (auto simp: target_malloc_def split: option.splits)

lemma target_malloc_None:
  assumes "fst (target_malloc use) = None"
  shows "snd (target_malloc use) = use" and "False \<notin> set use"
proof -
  have "find_free use = None" using assms by (simp add: target_malloc_def split: option.splits)
  then show "snd (target_malloc use) = use" "False \<notin> set use"
    by (simp_all add: target_malloc_def find_free_None [symmetric])
qed

interpretation target_pool: slot_pool target_malloc target_free used_slots
  "\<lambda>use. length use = MAX_TARGET_COUNT" MAX_TARGET_COUNT
proof unfold_locales
  fix use :: "bool list" and i
  assume len: "length use = MAX_TARGET_COUNT"
  show "used_slots use \<subseteq> {..<MAX_TARGET_COUNT}" using len by (auto simp: used_slots_def)
  show "length (snd (target_malloc use)) = MAX_TARGET_COUNT"
    using len by (simp add: target_malloc_def split: option.split)
  show "i \<notin> used_slots use \<and> used_slots (snd (target_malloc use)) = insert i (used_slots use)"
    if "fst (target_malloc use) = Some i"
    using target_malloc_Some [OF that] by (simp add: used_slots_update) (simp add: used_slots_def)
  show "used_slots use = {..<MAX_TARGET_COUNT} \<and> snd (target_malloc use) = use"
    if "fst (target_malloc use) = None"
    using target_malloc_None [OF that] len by (auto simp: used_slots_def in_set_conv_nth)
  show "length (target_free i use) = MAX_TARGET_COUNT" using len by (simp add: target_free_def)
  show "used_slots (target_free i use) = used_slots use - {i}"
    by (cases "i < length use")
      (auto simp: target_free_def used_slots_update list_update_beyond, auto simp: used_slots_def)
qed

section \<open>The invariant of the pool\<close>

definition pool_ok :: "da_t \<Rightarrow> bool" where
  "pool_ok d \<longleftrightarrow>
     length (tg_use d) = MAX_TARGET_COUNT \<and> length (tg_array d) = MAX_TARGET_COUNT
     \<and> (\<forall>i \<in> used_slots (tg_use d). t_thread (target_get i d) \<noteq> None)"

lemma pool_ok_thread: "pool_ok d \<Longrightarrow> i < MAX_TARGET_COUNT \<Longrightarrow> tg_use d ! i \<Longrightarrow> t_thread (target_get i d) \<noteq> None"
  by (simp add: pool_ok_def used_slots_def)

lemma pool_ok_emit [simp]: "pool_ok (emit e d) = pool_ok d"
  by (simp add: pool_ok_def target_get_def)

lemma upd_target_simps [simp]:
  "tg_use (upd_target i f d) = tg_use d"
  "length (tg_array (upd_target i f d)) = length (tg_array d)"
  "trace (upd_target i f d) = trace d"
  "i < length (tg_array d) \<Longrightarrow> target_get i (upd_target i f d) = f (target_get i d)"
  "j \<noteq> i \<Longrightarrow> target_get j (upd_target i f d) = target_get j d"
  by (simp_all add: upd_target_def target_get_def)

lemma upd_target_ok:
  "pool_ok d \<Longrightarrow> (\<And>t. t_thread t \<noteq> None \<Longrightarrow> t_thread (f t) \<noteq> None) \<Longrightarrow> pool_ok (upd_target i f d)"
proof -
  assume ok: "pool_ok d" and f: "\<And>t. t_thread t \<noteq> None \<Longrightarrow> t_thread (f t) \<noteq> None"
  have "t_thread (target_get j (upd_target i f d)) \<noteq> None" if "j \<in> used_slots (tg_use d)" for j
  proof (cases "j = i")
    case True
    have "i < length (tg_array d)" using ok that True by (simp add: pool_ok_def used_slots_def)
    then show ?thesis using ok f that True by (simp add: pool_ok_def)
  qed (use ok that in \<open>simp add: pool_ok_def\<close>)
  with ok show "pool_ok (upd_target i f d)" by (simp add: pool_ok_def)
qed

lemma target_get_use [simp]: "target_get i (d\<lparr>tg_use := u\<rparr>) = target_get i d"
  by (simp add: target_get_def)

lemma target_ctor_Some:
  assumes ok: "pool_ok d" and c: "target_ctor os d = (Some i, d')"
  shows "pool_ok d'" and "i \<notin> used_slots (tg_use d)" and "i < MAX_TARGET_COUNT"
    and "used_slots (tg_use d') = insert i (used_slots (tg_use d))"
    and "t_thread (target_get i d') = Some False" and "t_socket (target_get i d') = UNKNOWN_FD"
    and "t_pid (target_get i d') = UNKNOWN_PID" and "trace d' = trace d"
proof -
  have len: "length (tg_use d) = MAX_TARGET_COUNT" "length (tg_array d) = MAX_TARGET_COUNT"
    using ok by (simp_all add: pool_ok_def)
  from c obtain use where m: "target_malloc (tg_use d) = (Some i, use)" and mal: "os_malloc os 32"
    and d': "d' = upd_target i (\<lambda>t. t\<lparr>t_app_type := APP_TYPE_UNKNOWN, t_pid := UNKNOWN_PID,
                      t_socket := UNKNOWN_FD, t_event_fd := UNKNOWN_FD, t_initial_log := False,
                      t_allocmem := 0, t_thread := Some False\<rparr>) (d\<lparr>tg_use := use\<rparr>)"
    by (auto simp: target_ctor_def Let_def thread_ctor_def split: prod.splits option.splits if_splits)
  show "i \<notin> used_slots (tg_use d)" "i < MAX_TARGET_COUNT"
    using target_pool.alloc_Some [OF len(1), of i] target_pool.alloc_in_range [OF len(1), of i] m by auto
  show use: "used_slots (tg_use d') = insert i (used_slots (tg_use d))"
    using target_pool.alloc_Some [OF len(1), of i] m d' by auto
  have "i < length (tg_array d)" using \<open>i < MAX_TARGET_COUNT\<close> len by simp
  then show t: "t_thread (target_get i d') = Some False" "t_socket (target_get i d') = UNKNOWN_FD"
    "t_pid (target_get i d') = UNKNOWN_PID"
    by (simp_all add: d')
  show "trace d' = trace d" by (simp add: d')
  have "length use = MAX_TARGET_COUNT" using target_pool.alloc_ok [OF len(1)] m by simp
  moreover have "t_thread (target_get j d') \<noteq> None" if "j \<in> used_slots (tg_use d')" for j
  proof (cases "j = i")
    case False
    then have "target_get j d' = target_get j d" by (simp add: d')
    moreover have "j \<in> used_slots (tg_use d)" using that use False by simp
    ultimately show ?thesis using ok by (simp add: pool_ok_def)
  qed (use t in simp)
  ultimately show "pool_ok d'" using len by (simp add: pool_ok_def d')
qed

lemma target_ctor_None:
  assumes ok: "pool_ok d" and c: "target_ctor os d = (None, d')"
  shows "pool_ok d'" and "used_slots (tg_use d') = used_slots (tg_use d)" and "trace d' = trace d"
    and "used_slots (tg_use d) = {..<MAX_TARGET_COUNT} \<or> \<not> os_malloc os 32"
proof -
  have len: "length (tg_use d) = MAX_TARGET_COUNT" "length (tg_array d) = MAX_TARGET_COUNT"
    using ok by (simp_all add: pool_ok_def)
  consider (full) "fst (target_malloc (tg_use d)) = None" "d' = d"
    | (oom) i use where "target_malloc (tg_use d) = (Some i, use)" "\<not> os_malloc os 32"
        "d' = (upd_target i (\<lambda>t. t\<lparr>t_app_type := APP_TYPE_UNKNOWN, t_pid := UNKNOWN_PID,
                      t_socket := UNKNOWN_FD, t_event_fd := UNKNOWN_FD, t_initial_log := False,
                      t_allocmem := 0, t_thread := None\<rparr>) (d\<lparr>tg_use := use\<rparr>))\<lparr>tg_use := target_free i use\<rparr>"
    using c target_pool.alloc_None [OF len(1)]
    by (auto simp: target_ctor_def Let_def thread_ctor_def split: prod.splits option.splits if_splits)
  then have "pool_ok d' \<and> used_slots (tg_use d') = used_slots (tg_use d) \<and> trace d' = trace d
      \<and> (used_slots (tg_use d) = {..<MAX_TARGET_COUNT} \<or> \<not> os_malloc os 32)"
  proof cases
    case full
    with target_pool.alloc_None [OF len(1)] ok show ?thesis by simp
  next
    case oom
    have u: "length use = MAX_TARGET_COUNT" "used_slots use = insert i (used_slots (tg_use d))"
      "i \<notin> used_slots (tg_use d)"
      using target_pool.alloc_ok [OF len(1)] target_pool.alloc_Some [OF len(1), of i] oom by simp_all
    then have f: "used_slots (target_free i use) = used_slots (tg_use d)"
      using target_pool.free_used [OF u(1)] by auto
    have "t_thread (target_get j d') \<noteq> None" if "j \<in> used_slots (tg_use d)" for j
    proof -
      have "j \<noteq> i" using that u(3) by blast
      then have "target_get j d' = target_get j d" by (simp add: oom(3))
      then show ?thesis using ok that by (simp add: pool_ok_def)
    qed
    with f u len oom show ?thesis by (simp add: pool_ok_def target_free_def)
  qed
  then show "pool_ok d'" "used_slots (tg_use d') = used_slots (tg_use d)" "trace d' = trace d"
    "used_slots (tg_use d) = {..<MAX_TARGET_COUNT} \<or> \<not> os_malloc os 32" by simp_all
qed

lemma target_dtor_ok:
  assumes ok: "pool_ok d" and i: "i \<in> used_slots (tg_use d)"
  obtains d' where "target_dtor i d = Ret d'" "pool_ok d'"
    "used_slots (tg_use d') = used_slots (tg_use d) - {i}"
proof -
  have len: "length (tg_use d) = MAX_TARGET_COUNT" using ok by (simp add: pool_ok_def)
  have i': "t_thread (target_get i d) \<noteq> None" using ok i by (simp add: pool_ok_def)
  then obtain d' where d': "target_dtor i d = Ret d'"
    by (auto simp: target_dtor_def Let_def)
  have use: "tg_use d' = target_free i (tg_use d)" "length (tg_array d') = length (tg_array d)"
    and other: "\<And>j. j \<noteq> i \<Longrightarrow> t_thread (target_get j d') = t_thread (target_get j d)"
    using d' i' by (auto simp: target_dtor_def Let_def target_get_def upd_target_def)
  have "used_slots (tg_use d') = used_slots (tg_use d) - {i}"
    using target_pool.free_used [OF len] use by simp
  moreover have "pool_ok d'"
    using ok other use calculation by (auto simp: pool_ok_def target_free_def)
  ultimately show thesis using d' that by blast
qed

section \<open>Messages to all targets\<close>

lemma target_send_msg_simps [simp]:
  "snd (target_send_msg os i block len d)
     = emit (Send (t_socket (target_get i d))
         (send_bytes os (t_socket (target_get i d)) block (unat (8 + len)) d)) d"
  by (simp add: target_send_msg_def send_msg_to_sock_def sys_def Let_def)

lemma send_bytes_block: "n \<le> length block \<Longrightarrow> send_bytes os sock block n d = take n block"
  by (simp add: send_bytes_def)

lemma target_get_emit [simp]:
  "target_get i (emit e d) = target_get i d" "target_get i (d\<lparr>trace := es\<rparr>) = target_get i d"
  by (simp_all add: target_get_def)

text \<open>Every target in use gets the message once, in the order of the slots.\<close>

lemma send_slots_trace:
  assumes "unat (8 + len) \<le> length block"
  shows "trace (snd (send_slots os block len is ret d)) =
    trace d @ map (\<lambda>i. Send (t_socket (target_get i d)) (take (unat (8 + len)) block))
      (filter (\<lambda>i. tg_use d ! i) is)
    \<and> snd (send_slots os block len is ret d)\<lparr>trace := []\<rparr> = d\<lparr>trace := []\<rparr>"
proof (induction "is" arbitrary: ret d)
  case (Cons i "is")
  let ?e = "Send (t_socket (target_get i d)) (take (unat (8 + len)) block)"
  have s: "snd (target_send_msg os i block len d) = emit ?e d"
    using assms by (simp add: send_bytes_block)
  obtain r where t: "target_send_msg os i block len d = (r, emit ?e d)"
    using s by (metis prod.collapse)
  show ?case
    using Cons.IH [of "if r \<noteq> 0 then 1 else ret" "emit ?e d"] Cons.IH [of ret d] t
    by (auto simp: emit_def)
qed simp

lemma wait_slots_ok:
  assumes "pool_ok d" "set is \<subseteq> {..<MAX_TARGET_COUNT}"
  shows "\<exists>d'. wait_slots os is d = Ret d' \<and> pool_ok d' \<and> tg_use d' = tg_use d"
  using assms
proof (induction "is" arbitrary: d)
  case (Cons i "is")
  show ?case
  proof (cases "tg_use d ! i")
    case True
    with Cons.prems obtain run where run: "t_thread (target_get i d) = Some run"
      using pool_ok_thread [of d i] by auto
    obtain ret run' d1 where w: "thread_wait os (Recv_thread i) run d = (ret, run', d1)" by (metis prod_cases3)
    then have "d1 = d \<or> d1 = emit (Pthread_join (Recv_thread i)) d"
      by (auto simp: thread_wait_def sys_def Let_def split: if_splits)
    then have "pool_ok (upd_target i (\<lambda>t. t\<lparr>t_thread := Some run'\<rparr>) d1)" "tg_use d1 = tg_use d"
      using Cons.prems by (auto intro!: upd_target_ok)
    with Cons.IH [of "upd_target i (\<lambda>t. t\<lparr>t_thread := Some run'\<rparr>) d1"] Cons.prems True run w
    show ?thesis by (auto simp: target_wait_def)
  next
    case False
    with Cons show ?thesis by simp
  qed
qed simp

lemma target_wait_all_ok:
  "pool_ok d \<Longrightarrow> \<exists>d'. target_wait_all os d = Ret d' \<and> pool_ok d' \<and> tg_use d' = tg_use d"
  unfolding target_wait_all_def by (rule wait_slots_ok) auto

section \<open>The state at the start\<close>

text \<open>
  The globals as \<^verbatim>\<open>daemon/main.c\<close> and the C start-up leave them: static variables are zero, the
  number of the launch pad is unknown. The lists of input devices are set before they are used.
\<close>

definition target0 :: target_t where
  "target0 = \<lparr>t_app_type = APP_TYPE_UNKNOWN, t_allocmem = 0, t_pid = 0, t_ppid = 0, t_socket = 0,
     t_event_fd = 0, t_initial_log = False, t_thread = None\<rparr>"

definition manager0 :: da_t where
  "manager0 =
     \<lparr>s_conf = \<lparr>use_features0 = 0, use_features1 = 0, system_trace_period = 0, data_message_period = 0\<rparr>,
      s_inst = \<lparr>us_inst = \<lparr>app_num = 0, app_inst_list = [], lib_num = 0, lib_inst_list = []\<rparr>,
                new_lib_inst_list = [], lib_maps_message = None\<rparr>,
      s_replay = \<lparr>enabled = 0, seq_tv = zero_tv, event_num = 0, events = None\<rparr>,
      s_running = False, m_sampling = False, m_replay = False, m_transfer = False,
      m_control_socket = -1, m_data_socket = -1, m_host_server_socket = -1, m_target_server_socket = -1,
      m_launch_timerfd = -1, m_connect_timerfd = -1, m_apps_to_run = 0, g_input_running = False,
      g_key_fds = [], g_touch_fds = [], g_host_order = 0, g_lpad_pid = UNKNOWN_PID, m_buf_fd = -1,
      m_user_ev_fd = -1, m_inst_tasks = False, tg_use = replicate MAX_TARGET_COUNT False,
      tg_array = replicate MAX_TARGET_COUNT target0, tg_cnt = 0, trace = []\<rparr>"

lemma manager0_pool [simp]: "pool_ok manager0"
  by (auto simp: pool_ok_def manager0_def used_slots_def)

lemma all_slots: "[0..<MAX_TARGET_COUNT] = [0, 1, 2, 3, 4, 5, 6, 7]"
  by code_simp

section \<open>Properties\<close>

text \<open>
  A new target gets a slot that was not in use, with a thread object and no socket, and nothing
  else in the pool is taken; none is found only when all eight slots are in use or memory is short.
\<close>

theorem new_target:
  assumes "pool_ok d" "target_ctor os d = (t, d')"
  shows "pool_ok d' \<and> trace d' = trace d \<and>
    (case t of
       Some i \<Rightarrow> i < MAX_TARGET_COUNT \<and> i \<notin> used_slots (tg_use d)
         \<and> used_slots (tg_use d') = insert i (used_slots (tg_use d))
         \<and> t_thread (target_get i d') = Some False \<and> t_socket (target_get i d') = UNKNOWN_FD
     | None \<Rightarrow> used_slots (tg_use d') = used_slots (tg_use d)
         \<and> (used_slots (tg_use d) = {..<MAX_TARGET_COUNT} \<or> \<not> os_malloc os 32))"
proof (cases t)
  case None
  then show ?thesis using target_ctor_None [OF assms(1), of os d'] assms(2) by simp
next
  case (Some i)
  then show ?thesis using target_ctor_Some [OF assms(1), of os i d'] assms(2) by simp
qed

theorem new_target_witness: "pool_ok (snd (target_ctor (sample_os 0) manager0))"
  using new_target [OF manager0_pool, of "sample_os 0"] by (cases "target_ctor (sample_os 0) manager0") simp

text \<open>
  A message whose block is complete goes to the socket of every target in use, once and in the
  order of the slots, and to nothing else.
\<close>

theorem message_to_all:
  assumes "unat (8 + len) \<le> length block"
  shows "trace (snd (target_send_msg_to_all os block len d)) =
    trace d @ map (\<lambda>i. Send (t_socket (target_get i d)) (take (unat (8 + len)) block))
      (filter (\<lambda>i. tg_use d ! i) [0..<MAX_TARGET_COUNT])"
  using send_slots_trace [OF assms, of os "[0..<MAX_TARGET_COUNT]" 0 d]
  by (simp add: target_send_msg_to_all_def)

theorem message_to_all_witness:
  "trace (snd (target_send_msg_to_all (sample_os 0) (replicate 8 1) 0
     (manager0\<lparr>tg_use := [False, True, False, True, False, False, False, False]\<rparr>))) =
   [Send 0 (replicate 8 1), Send 0 (replicate 8 1)]"
proof -
  have "unat (8 + 0 :: u32) \<le> length (replicate 8 1 :: bytes)" by simp
  from message_to_all [OF this, of "sample_os 0"
      "manager0\<lparr>tg_use := [False, True, False, True, False, False, False, False]\<rparr>"]
  show ?thesis
    unfolding all_slots by (simp add: target_get_def manager0_def target0_def MAX_TARGET_COUNT_def)
qed

end
