(* ===== verification/Threads.thy ===== *)
theory Threads
  imports Targets
begin

text \<open>
  Starting and stopping the daemon's threads (\<^verbatim>\<open>daemon/threads.c\<close>, \<^verbatim>\<open>daemon/transfer_thread.c\<close>) and
  the input device handlers (\<^verbatim>\<open>daemon/input_events.c\<close>). \<^verbatim>\<open>pthread_create\<close> leaves the identifier
  as it was when it fails. What a thread does on its own is a step of its own: \<open>exit_replay_thread\<close>
  here, the receive thread in \<open>Recv_Thread\<close>.
\<close>

section \<open>Input devices\<close>

text \<open>The arrays end at the entry marked \<^verbatim>\<open>ARRAY_END\<close>; the lists hold the descriptors before it.\<close>

primrec add_handlers :: "int list \<Rightarrow> da_t \<Rightarrow> da_t" where
  "add_handlers [] d = d"
| "add_handlers (fd # fds) d = add_handlers fds (if fd > 0 then emit (Fd_handler_add fd) d else d)"

primrec del_handlers :: "int list \<Rightarrow> da_t \<Rightarrow> da_t" where
  "del_handlers [] d = d"
| "del_handlers (fd # fds) d = del_handlers fds (if fd > 0 then emit (Fd_handler_del fd) d else d)"

definition add_input_events :: "da_t \<Rightarrow> da_t" where
  "add_input_events d =
     (if g_input_running d then d
      else (add_handlers (g_touch_fds d) (add_handlers (g_key_fds d) d))\<lparr>g_input_running := True\<rparr>)"

definition del_input_events :: "da_t \<Rightarrow> da_t" where
  "del_input_events d =
     (if \<not> g_input_running d then d
      else (del_handlers (g_touch_fds d) (del_handlers (g_key_fds d) d))\<lparr>g_input_running := False\<rparr>)"

section \<open>Sampling\<close>

definition samplingStart :: "os_t \<Rightarrow> da_t \<Rightarrow> int \<times> da_t" where
  "samplingStart os d =
     (let period = system_trace_period (s_conf d);
          sec = period div 1000; usec = period * 1000 mod 1000000 in
      if m_sampling d then (1, d)
      else if \<not> s_running d then (1, d)
      else
        (let (r, d) = sys os (Pthread_create Sampling_thread) d;
             d = d\<lparr>m_sampling := m_sampling d \<or> r = 0\<rparr> in
         if r < 0 then (-1, d)
         else (0, emit (Setitimer (uint sec) (uint usec)) d)))"

definition samplingStop :: "da_t \<Rightarrow> da_t" where
  "samplingStop d =
     (if m_sampling d then
        (emit (Pthread_join Sampling_thread) (emit (Pthread_kill Sampling_thread)
           (emit (Setitimer 0 0) d)))\<lparr>m_sampling := False\<rparr>
      else d)"

section \<open>Replay\<close>

definition exit_replay_thread :: "da_t \<Rightarrow> da_t" where
  "exit_replay_thread d = d\<lparr>m_replay := False, s_replay := reset_replay_event_seq (s_replay d)\<rparr>"

definition start_replay :: "os_t \<Rightarrow> da_t \<Rightarrow> int \<times> da_t" where
  "start_replay os d =
     (if m_replay d then (1, d)
      else (let (r, d) = sys os (Pthread_create Replay_thread) d;
                d = d\<lparr>m_replay := m_replay d \<or> r = 0\<rparr> in
            (if r < 0 then 1 else 0, d)))"

definition stop_replay :: "da_t \<Rightarrow> da_t" where
  "stop_replay d =
     (if \<not> m_replay d then d
      else (let d = emit (Pthread_join Replay_thread) (emit (Pthread_cancel Replay_thread) d) in
            d\<lparr>m_replay := False, s_replay := reset_replay_event_seq (s_replay d)\<rparr>))"

text \<open>
  What the replay thread does with a sequence: for each event the delay before it, in microseconds
  and 32 bits, and the event. \<^verbatim>\<open>time_diff_us\<close> multiplies and adds modulo 2 to the 32. A count above
  zero with no events is a NULL dereference.
\<close>

definition time_diff_us :: "timeval \<Rightarrow> timeval \<Rightarrow> u32" where
  "time_diff_us tv1 tv2 = (tv_sec tv1 - tv_sec tv2) * 1000000 + (tv_usec tv1 - tv_usec tv2)"

primrec replay_schedule :: "timeval \<Rightarrow> u32 \<Rightarrow> replay_event_t list \<Rightarrow> (u32 \<times> replay_event_t) list" where
  "replay_schedule tv prev_event_offset [] = []"
| "replay_schedule tv prev_event_offset (ev # evs) =
     (let event_offset = time_diff_us (ev_time (re_ev ev)) tv;
          ms = (if event_offset \<ge> prev_event_offset then event_offset - prev_event_offset else 0) in
      (ms, ev) # replay_schedule tv event_offset evs)"

definition replay_thread :: "replay_event_seq_t \<Rightarrow> (u32 \<times> replay_event_t) list option" where
  "replay_thread seq =
     (if event_num seq = 0 then Some []
      else case events seq of
        None \<Rightarrow> None
      | Some evs \<Rightarrow>
          if unat (event_num seq) \<le> length evs
          then Some (replay_schedule (seq_tv seq) 0 (take (unat (event_num seq)) evs)) else None)"

section \<open>Transfer\<close>

definition stop_transfer :: "da_t \<Rightarrow> da_t" where
  "stop_transfer d =
     (if \<not> m_transfer d then d
      else (emit (Pthread_join Transfer_thread) (wake_up_buf (emit (Fcntl_setfl True) (flush_buf d))))
             \<lparr>m_transfer := False\<rparr>)"

definition start_transfer :: "os_t \<Rightarrow> da_t \<Rightarrow> int \<times> da_t" where
  "start_transfer os d =
     (if m_data_socket d = -1 then (0, d)
      else
        (let d = (if m_transfer d then stop_transfer d else d);
             (r, d) = sys os (Fcntl_setfl False) d in
         if r = -1 then (-1, d)
         else (let (r, d) = sys os (Pthread_create Transfer_thread) d;
                   d = d\<lparr>m_transfer := m_transfer d \<or> r = 0\<rparr> in
               (if r < 0 then -1 else 0, d))))"

end
