(* ===== verification/Host_Msgs.thy ===== *)
theory Host_Msgs
  imports Threads
begin

text \<open>
  Messages the daemon makes: data messages (\<^verbatim>\<open>daemon/da_data.c\<close>), answers to the host and the
  request for command lines (\<^verbatim>\<open>daemon/da_protocol.c\<close>).
\<close>

section \<open>Data messages\<close>

text \<open>
  \<^verbatim>\<open>fill_data_msg_head\<close> and the payload behind it. The time is that of \<^verbatim>\<open>gettimeofday\<close>, seconds and
  microseconds.
\<close>

definition fill_data_msg_head :: "u32 \<times> u32 \<Rightarrow> u32 \<Rightarrow> u32 \<Rightarrow> u32 \<Rightarrow> bytes" where
  "fill_data_msg_head time msgid seq len =
     le32 msgid @ le32 seq @ le32 (fst time) @ le32 (snd time * 1000) @ le32 len"

definition gen_message_terminate :: "u32 \<times> u32 \<Rightarrow> u32 \<Rightarrow> bytes" where
  "gen_message_terminate time i = fill_data_msg_head time (msg_val NMSG_TERMINATE) 0 4 @ le32 i"

definition gen_message_error :: "u32 \<times> u32 \<Rightarrow> bytes \<Rightarrow> bytes" where
  "gen_message_error time err_msg =
     fill_data_msg_head time (msg_val NMSG_ERROR) 0 (of_nat (length err_msg + 1)) @ err_msg @ [0]"

definition pack_event :: "u32 \<Rightarrow> input_event \<Rightarrow> bytes" where
  "pack_event i ev = le32 i @ le32 (ucast (ev_type ev)) @ le32 (ucast (ev_code ev)) @ le32 (ev_value ev)"

definition gen_message_event :: "u32 \<times> u32 \<Rightarrow> input_event list \<Rightarrow> u32 \<Rightarrow> bytes" where
  "gen_message_event time evs i =
     (let events_count = of_nat (length evs); payload_len = events_count * (4 * 4) + 4 in
      fill_data_msg_head time (msg_val NMSG_RECORD) 0 payload_len
        @ le32 events_count @ concat (map (pack_event i) evs))"

definition write_msg_error :: "os_t \<Rightarrow> bytes \<Rightarrow> da_t \<Rightarrow> da_t" where
  "write_msg_error os err_str d =
     snd (write_to_buf os (gen_message_error (os_time os (trace d)) err_str) d)"

section \<open>Answers to the host\<close>

definition ack_msg :: "u32 \<Rightarrow> u32 \<Rightarrow> bytes \<Rightarrow> bytes" where
  "ack_msg i err pl =
     le32 i @ le32 (of_nat (length pl) + 4) @ le32 err @ pl"

definition sendACKToHost :: "os_t \<Rightarrow> u32 \<Rightarrow> ErrorCode \<Rightarrow> bytes \<Rightarrow> da_t \<Rightarrow> (int \<times> da_t) run" where
  "sendACKToHost os resp err_code pl d =
     (if m_control_socket d \<noteq> -1 then
        (case get_ack_msg_id resp of
           None \<Rightarrow> Exits d
         | Some i \<Rightarrow>
             (let (r, d) = sys os (Send (m_control_socket d) (ack_msg i (word_of_int (err_val err_code)) pl)) d in
              Ret (if r = -1 then 1 else 0, d)))
      else Ret (1, d))"

definition gen_stop_msg :: bytes where
  "gen_stop_msg = le32 (msg_val NMSG_STOP) @ le32 0"

text \<open>\<^verbatim>\<open>send_reply\<close> of a message with \<open>len\<close> payload bytes; the block is complete.\<close>

definition send_reply :: "os_t \<Rightarrow> bytes \<Rightarrow> da_t \<Rightarrow> int \<times> da_t" where
  "send_reply os msg d =
     (let (r, d) = sys os (Send (m_control_socket d) msg) d in (if r = -1 then -1 else 0, d))"

section \<open>Target information\<close>

definition supported_devices_strings :: "bytes list" where
  "supported_devices_strings = [cstr ''FLASH'', cstr ''CPU'', cstr ''LCD'']"

definition str_array_getsize :: "bytes list \<Rightarrow> nat" where
  "str_array_getsize strings = (\<Sum>s\<leftarrow>strings. length s + 1)"

definition pack_str_array :: "bytes list \<Rightarrow> bytes" where
  "pack_str_array strings = concat (map (\<lambda>s. s @ [0]) strings)"

record target_info_t =
  sys_mem_size :: u64
  storage_size :: u64
  bluetooth_supp :: u32
  gps_supp :: u32
  wifi_supp :: u32
  camera_count :: u32
  network_type :: bytes
  max_brightness :: u32
  cpu_core_count :: u32

text \<open>
  \<^verbatim>\<open>sizeof(struct target_info_t)\<close> without the network type: two 8-byte and six 4-byte members.
\<close>

definition sizeof_target_info :: nat where "sizeof_target_info = 2 * 8 + 6 * 4"

definition gen_target_info_reply :: "target_info_t \<Rightarrow> bytes option" where
  "gen_target_info_reply ti =
     (let room = 4 + sizeof_target_info + (length (network_type ti) + 1) + 4
                   + str_array_getsize supported_devices_strings;
          pl = le32 (word_of_int (err_val ERR_NO)) @ le64 (sys_mem_size ti) @ le64 (storage_size ti)
            @ le32 (bluetooth_supp ti) @ le32 (gps_supp ti) @ le32 (wifi_supp ti)
            @ le32 (camera_count ti) @ network_type ti @ [0] @ le32 (max_brightness ti)
            @ le32 (cpu_core_count ti) @ le32 (of_nat (length supported_devices_strings))
            @ pack_str_array supported_devices_strings
      in if room < length pl then None
         else Some (le32 (msg_val NMSG_GET_TARGET_INFO_ACK) @ le32 (of_nat (length pl)) @ pl))"

section \<open>Command lines of processes\<close>

text \<open>Decimal digits, \<^verbatim>\<open>%u\<close>.\<close>

fun decimal :: "nat \<Rightarrow> bytes" where
  "decimal n = (if n < 10 then [of_nat (48 + n)] else decimal (n div 10) @ [of_nat (48 + n mod 10)])"

declare decimal.simps [simp del]

definition MAX_FILENAME :: nat where "MAX_FILENAME = 128"

definition str_of_buf :: "bytes \<Rightarrow> bytes" where
  "str_of_buf buf = takeWhile (\<lambda>c. c \<noteq> 0) buf"

text \<open>
  The call \<open>Read_cmdline\<close> gives -2 when the file cannot be opened, -1 when it cannot be read, and the
  bytes read otherwise. The path is made in the buffer the file is then read into, so it is what
  remains there after a failed read.
\<close>

definition get_process_cmd_line :: "os_t \<Rightarrow> u32 \<Rightarrow> da_t \<Rightarrow> bytes \<times> da_t" where
  "get_process_cmd_line os pid d =
     (let e = Read_cmdline (uint pid);
          path = cstr ''/proc/'' @ decimal (unat pid) @ cstr ''/cmdline'';
          file = take MAX_FILENAME (os_bytes os (trace d) e);
          (r, d) = sys os e d in
      (if r = -2 then [] else if r = -1 then path else str_of_buf (take (MAX_FILENAME - 1) file), d))"

primrec cmd_lines :: "os_t \<Rightarrow> u32 list \<Rightarrow> da_t \<Rightarrow> bytes list \<times> da_t" where
  "cmd_lines os [] d = ([], d)"
| "cmd_lines os (pid # pids) d =
     (let (line, d) = get_process_cmd_line os pid d; (rest, d) = cmd_lines os pids d in (line # rest, d))"

text \<open>Reading \<open>n\<close> process numbers into a block of \<open>room\<close> bytes.\<close>

primrec parse_pids :: "nat \<Rightarrow> nat \<Rightarrow> msg_buf_t \<Rightarrow> u32 list pres" where
  "parse_pids 0 room b = POk [] b"
| "parse_pids (Suc n) room b =
     pbind (parse_int32 b) (\<lambda>pid b. if room < 4 then PFault else
     pbind (parse_pids n (room - 4) b) (\<lambda>pids b. POk (pid # pids) b))"

text \<open>
  On the failure paths before the payload's allocation the pointer \<^verbatim>\<open>payload\<close> is uninitialised when
  it is tested and freed, after the failure has been acknowledged.
\<close>

definition add_info_fail :: "os_t \<Rightarrow> ErrorCode \<Rightarrow> da_t \<Rightarrow> (int \<times> da_t) run" where
  "add_info_fail os err_code d =
     rbind (sendACKToHost os (msg_val NMSG_GET_PROCESS_ADD_INFO) err_code [] d) (\<lambda>_. Faults)"

definition process_msg_get_process_add_info :: "os_t \<Rightarrow> msg_buf_t \<Rightarrow> da_t \<Rightarrow> (int \<times> da_t) run" where
  "process_msg_get_process_add_info os b d =
     (case parse_int32 b of
        PFault \<Rightarrow> Faults
      | PFail \<Rightarrow> add_info_fail os ERR_WRONG_MESSAGE_DATA d
      | POk count b \<Rightarrow>
          (let arr_size = count * 4 in
           if \<not> os_malloc os arr_size then add_info_fail os ERR_UNKNOWN d
           else case parse_pids (unat count) (unat arr_size) b of
             PFault \<Rightarrow> Faults
           | PFail \<Rightarrow> add_info_fail os ERR_UNKNOWN d
           | POk pids b \<Rightarrow>
               (let (lines, d) = cmd_lines os pids d;
                    total_len = (count * 4 + 4) + (\<Sum>l\<leftarrow>lines. of_nat (length l) + 1) in
                if \<not> os_malloc os total_len then
                  rbind (sendACKToHost os (msg_val NMSG_GET_PROCESS_ADD_INFO) ERR_UNKNOWN [] d)
                    (\<lambda>(_, d). Ret (-1, d))
                else rbind (of_option (fill_block 0 (unat total_len)
                       (le32 count @ concat (map (\<lambda>(pid, l). le32 pid @ l @ [0]) (zip pids lines)))))
                     (\<lambda>pl.
                     rbind (sendACKToHost os (msg_val NMSG_GET_PROCESS_ADD_INFO) ERR_NO pl d)
                       (\<lambda>(_, d). Ret (0, d))))))"

section \<open>Facts\<close>

lemma length_fill_data_msg_head [simp, size_simps]: "length (fill_data_msg_head t i s l) = 20"
  by (simp add: fill_data_msg_head_def)

lemma length_pack_event [simp, size_simps]: "length (pack_event i ev) = 16"
  by (simp add: pack_event_def)

lemma length_pack_str_array [size_simps]: "length (pack_str_array ss) = str_array_getsize ss"
  by (induction ss) (auto simp: pack_str_array_def str_array_getsize_def)

text \<open>The reply with the target information fills its block exactly.\<close>

lemma gen_target_info_reply_fits: "gen_target_info_reply ti \<noteq> None"
  by (simp add: gen_target_info_reply_def Let_def size_simps sizeof_target_info_def)

lemma sendACK_known:
  assumes "m_control_socket d \<noteq> -1" "get_ack_msg_id resp = Some i"
  shows "\<exists>r. sendACKToHost os resp err pl d =
    Ret (r, emit (Send (m_control_socket d) (ack_msg i (word_of_int (err_val err)) pl)) d)"
  using assms by (simp add: sendACKToHost_def sys_def Let_def)

lemma sendACK_unknown:
  "m_control_socket d \<noteq> -1 \<Longrightarrow> get_ack_msg_id resp = None \<Longrightarrow> sendACKToHost os resp err pl d = Exits d"
  by (simp add: sendACKToHost_def)

end
