(* ===== verification/Utils.thy ===== *)
theory Utils
  imports Host_Msgs
begin

text \<open>
  Numbers in text, starting and killing applications, whom a kill hits, \<^verbatim>\<open>daemon/utils.c\<close>. Forking and waiting, and
  the contents of \<^verbatim>\<open>/proc\<close>, belong to the oracle.
\<close>

section \<open>Numbers\<close>

fun read_digits :: "u64 \<Rightarrow> bytes \<Rightarrow> u64" where
  "read_digits res [] = res"
| "read_digits res (c # cs) =
     (if 48 \<le> c \<and> c \<le> 57 then read_digits (res * 10 + (ucast c - 48)) cs else res)"

definition str_to_uint64 :: "bytes \<Rightarrow> u64" where
  "str_to_uint64 str = read_digits 0 str"

text \<open>The signed version computes in the same words; the value is read as a signed number.\<close>

definition str_to_int64 :: "bytes \<Rightarrow> u64" where
  "str_to_int64 str =
     (case str of
        [] \<Rightarrow> 0
      | c # cs \<Rightarrow>
          if c = 45 then read_digits 0 cs * (-1)
          else if c = 43 then read_digits 0 cs
          else read_digits 0 str)"

section \<open>Starting applications\<close>

definition LAUNCH_APP_PATH :: bytes where "LAUNCH_APP_PATH = cstr ''/usr/bin/launch_app''"
definition LAUNCH_APP_NAME :: bytes where "LAUNCH_APP_NAME = cstr ''launch_app''"
definition LAUNCH_APP_SDK :: bytes where "LAUNCH_APP_SDK = cstr ''__AUL_SDK__''"
definition DA_PRELOAD_EXEC :: bytes where "DA_PRELOAD_EXEC = cstr ''DYNAMIC_ANALYSIS''"
definition SHELL_CMD :: bytes where "SHELL_CMD = cstr ''/bin/sh''"
definition DA_PRELOAD_TIZEN :: bytes where
  "DA_PRELOAD_TIZEN = cstr ''LD_PRELOAD=/usr/lib/da_probe_tizen.so''"

definition WRT_LAUNCHER_PATH :: bytes where "WRT_LAUNCHER_PATH = cstr ''/usr/bin/wrt-launcher''"
definition WRT_LAUNCHER_NAME :: bytes where "WRT_LAUNCHER_NAME = cstr ''wrt-launcher''"
definition WRT_LAUNCHER_START :: bytes where "WRT_LAUNCHER_START = cstr ''-s''"
definition WRT_LAUNCHER_KILL :: bytes where "WRT_LAUNCHER_KILL = cstr ''-k''"
definition PATH_MAX :: nat where "PATH_MAX = 4096"

text \<open>The arguments of \<open>Spawn\<close> are those of the child's \<^verbatim>\<open>execl\<close>; its result is that of \<^verbatim>\<open>fork\<close>.\<close>

definition exec_app_tizen :: "os_t \<Rightarrow> bytes \<Rightarrow> bytes \<Rightarrow> da_t \<Rightarrow> int \<times> da_t" where
  "exec_app_tizen os ident exec_path d =
     (if exec_path = [] then (-1, d)
      else (let (pid, d) = sys os (Spawn [LAUNCH_APP_PATH, LAUNCH_APP_NAME, ident, LAUNCH_APP_SDK,
                                     DA_PRELOAD_EXEC]) d in
            if pid = -1 then (-1, d) else (0, emit Waitpid d)))"

definition exec_app_common :: "os_t \<Rightarrow> bytes \<Rightarrow> da_t \<Rightarrow> int \<times> da_t" where
  "exec_app_common os exec_path d =
     (if exec_path = [] then (-1, d)
      else (let command = take (PATH_MAX - 1) (DA_PRELOAD_TIZEN @ [32] @ exec_path);
                (pid, d) = sys os (Spawn [SHELL_CMD, SHELL_CMD, cstr ''-c'', command]) d in
            (if pid = -1 then -1 else 0, d)))"

definition exec_app_web :: "os_t \<Rightarrow> bytes \<Rightarrow> da_t \<Rightarrow> int \<times> da_t" where
  "exec_app_web os ident d =
     (let (pid, d) = sys os (Spawn [WRT_LAUNCHER_PATH, WRT_LAUNCHER_NAME, WRT_LAUNCHER_START, ident]) d in
      if pid = -1 then (-1, d) else (0, emit Waitpid d))"

definition kill_app_web :: "os_t \<Rightarrow> bytes \<Rightarrow> da_t \<Rightarrow> da_t" where
  "kill_app_web os ident d =
     (let (pid, d) = sys os (Spawn [WRT_LAUNCHER_PATH, WRT_LAUNCHER_NAME, WRT_LAUNCHER_KILL, ident]) d in
      if pid = -1 then d else emit Waitpid d)"

section \<open>Finding and killing a process\<close>

text \<open>
  \<^verbatim>\<open>strncmp(path, buf, len) == 0\<close> with \<open>len\<close> the length of the path: the first word of the command
  line only has to begin with the path.
\<close>

fun find_proc :: "bytes \<Rightarrow> (int \<times> bytes) list \<Rightarrow> int" where
  "find_proc path [] = 0"
| "find_proc path ((pid, buf) # procs) =
     (if pid \<noteq> 0 \<and> take (length path) buf = path then pid else find_proc path procs)"

definition find_pid_from_path :: "os_t \<Rightarrow> bytes \<Rightarrow> da_t \<Rightarrow> int \<times> da_t" where
  "find_pid_from_path os path d = (find_proc path (os_procs os (trace d)), emit (Proc_scan path) d)"

definition exe_line :: bytes where "exe_line = cstr ''.exe''"

text \<open>
  The comparison with the last four characters starts before the block when the path is shorter.
\<close>

definition get_pid_by_path :: "os_t \<Rightarrow> bytes \<Rightarrow> da_t \<Rightarrow> (int \<times> da_t) run" where
  "get_pid_by_path os binary_path d =
     (let (pkg_pid, d) = find_pid_from_path os binary_path d; len = length binary_path in
      if pkg_pid \<noteq> 0 then Ret (pkg_pid, d)
      else if \<not> os_malloc os (of_nat (len + 5)) then Ret (-1, d)
      else if len < 4 then Faults
      else Ret (find_pid_from_path os
             (if drop (len - 4) binary_path = exe_line then take (len - 4) binary_path
              else binary_path @ exe_line) d))"

definition APPDIR1 :: bytes where "APPDIR1 = cstr ''/opt/apps/''"
definition APPDIR2 :: bytes where "APPDIR2 = cstr ''/opt/usr/apps/''"

text \<open>
  The other of the two application directories in front of the same name, in a buffer of \<open>buflen\<close>
  bytes: \<^verbatim>\<open>strncat\<close> appends up to the number of bytes left, and then the NUL. \<open>Some None\<close>: the path is
  in neither directory; \<open>None\<close>: a write past the buffer.
\<close>

definition swap_dir :: "bytes \<Rightarrow> bytes \<Rightarrow> bytes \<Rightarrow> nat \<Rightarrow> bytes option" where
  "swap_dir from to path buflen =
     (let alter = to @ take (buflen - length to) (drop (length from) path) in
      if length alter < buflen then Some alter else None)"

definition find_alternative_bin_path :: "bytes \<Rightarrow> nat \<Rightarrow> bytes option option" where
  "find_alternative_bin_path path buflen =
     (if take (length APPDIR1) path = APPDIR1 then map_option Some (swap_dir APPDIR1 APPDIR2 path buflen)
      else if take (length APPDIR2) path = APPDIR2 then map_option Some (swap_dir APPDIR2 APPDIR1 path buflen)
      else Some None)"

definition kill_app :: "os_t \<Rightarrow> bytes \<Rightarrow> da_t \<Rightarrow> (int \<times> da_t) run" where
  "kill_app os binary_path d =
     rbind (get_pid_by_path os binary_path d) (\<lambda>(pkg_pid, d).
     rbind
       (if pkg_pid = 0 then
          rbind (of_option (find_alternative_bin_path binary_path PATH_MAX)) (\<lambda>alter.
            case alter of None \<Rightarrow> Ret (pkg_pid, d) | Some p \<Rightarrow> get_pid_by_path os p d)
        else Ret (pkg_pid, d)) (\<lambda>(pkg_pid, d).
     if pkg_pid \<noteq> 0 then
       (let (r, d) = sys os (Kill pkg_pid) d in
        if r = -1 then Ret (-1, d) else Ret (0, emit Sleep d))
     else Ret (0, d)))"

section \<open>Recognising an application\<close>

definition dereference_tizen_exe_path :: "os_t \<Rightarrow> bytes \<Rightarrow> bytes" where
  "dereference_tizen_exe_path os path =
     (case os_realpath os (take (PATH_MAX - 1) (path @ exe_line)) of
        Some r \<Rightarrow> r
      | None \<Rightarrow> (case os_realpath os path of Some r \<Rightarrow> r | None \<Rightarrow> os_realpath_buf os path))"

definition strip_exe :: "bytes \<Rightarrow> bytes option" where
  "strip_exe p =
     (if length p < 4 then None
      else Some (if drop (length p - 4) p = exe_line then take (length p - 4) p else p))"

text \<open>
  \<open>Read_cmdline\<close> gives -2 when the file cannot be opened; an empty file makes \<^verbatim>\<open>fgets\<close> fail. The line
  ends at its newline, the string at its NUL.
\<close>

definition is_same_app_process :: "os_t \<Rightarrow> bytes \<Rightarrow> int \<Rightarrow> da_t \<Rightarrow> (bool \<times> da_t) run" where
  "is_same_app_process os appPath pid d =
     (if PATH_MAX - 1 \<le> length appPath then Faults
      else rbind (of_option (strip_exe appPath)) (\<lambda>tPath.
        let e = Read_cmdline pid; file = os_bytes os (trace d) e; (r, d) = sys os e d in
        if r = -2 then Ret (False, d)
        else if file = [] then Ret (False, d)
        else rbind (of_option (strip_exe (str_of_buf (take 1023 (takeWhile (\<lambda>c. c \<noteq> 10) file))))) (\<lambda>buf.
          Ret (dereference_tizen_exe_path os buf = dereference_tizen_exe_path os tPath, d))))"

section \<open>Removing the files of a directory\<close>

text \<open>
  \<^verbatim>\<open>remove_indir\<close>: \<open>dir\<close> has the names in the directory and whether each is a directory itself, if it can
  be opened. Paths are cut off by their buffer. In the session the calls are one event,
  \<open>Remove_indir\<close>.
\<close>

definition indir_path :: "bytes \<Rightarrow> bytes \<Rightarrow> bytes" where
  "indir_path dirname name = take (PATH_MAX - 1) (dirname @ [47] @ name)"

fun indir_unlinks :: "bytes \<Rightarrow> (bytes \<times> bool) list \<Rightarrow> io list" where
  "indir_unlinks dirname [] = []"
| "indir_unlinks dirname ((name, is_dir) # entries) =
     (if name \<noteq> cstr ''.'' \<and> name \<noteq> cstr ''..'' \<and> \<not> is_dir then [Unlink (indir_path dirname name)] else [])
     @ indir_unlinks dirname entries"

definition remove_indir :: "bytes \<Rightarrow> (bytes \<times> bool) list option \<Rightarrow> int \<times> io list" where
  "remove_indir dirname dir =
     (case dir of None \<Rightarrow> (-1, []) | Some entries \<Rightarrow> (0, indir_unlinks dirname entries))"

text \<open>Only files of the directory go; with a long name of the directory the cut path may name another file.\<close>

lemma remove_indir_inside:
  assumes "remove_indir dirname (Some entries) = (r, calls)" "e \<in> set calls"
  shows "\<exists>name. (name, False) \<in> set entries \<and> e = Unlink (indir_path dirname name)"
    and "length dirname + 1 \<le> PATH_MAX - 1 \<Longrightarrow> \<exists>rest. e = Unlink (dirname @ [47] @ rest)"
proof -
  have "e \<in> set (indir_unlinks dirname entries) \<Longrightarrow>
      \<exists>name. (name, False) \<in> set entries \<and> e = Unlink (indir_path dirname name)"
    by (induction dirname entries rule: indir_unlinks.induct) (auto split: if_splits)
  with assms obtain name where n: "(name, False) \<in> set entries" "e = Unlink (indir_path dirname name)"
    by (auto simp: remove_indir_def)
  then show "\<exists>name. (name, False) \<in> set entries \<and> e = Unlink (indir_path dirname name)" by blast
  assume "length dirname + 1 \<le> PATH_MAX - 1"
  with n(2) show "\<exists>rest. e = Unlink (dirname @ [47] @ rest)" by (auto simp: indir_path_def take_Cons')
qed

section \<open>Facts\<close>

lemma read_digits_decimal:
  "list_all is_digit ds \<Longrightarrow>
     read_digits res (ds @ cs) = read_digits (foldl (\<lambda>v c. v * 10 + (ucast c - 48)) res ds) cs"
  by (induction ds arbitrary: res) (auto simp: is_digit_def)

lemma find_proc_prefix:
  "find_proc path procs \<noteq> 0 \<Longrightarrow>
     \<exists>buf. (find_proc path procs, buf) \<in> set procs \<and> take (length path) buf = path"
  by (induction path procs rule: find_proc.induct) (auto split: if_splits)

lemma find_proc_none:
  "find_proc path procs = 0 \<longleftrightarrow> (\<forall>(pid, buf) \<in> set procs. pid \<noteq> 0 \<longrightarrow> take (length path) buf \<noteq> path)"
  by (induction path procs rule: find_proc.induct) auto

lemma swap_dir_append:
  "swap_dir from to (from @ r) n = (if length to + length r < n then Some (to @ r) else None)"
  by (auto simp: swap_dir_def Let_def)

lemma take_prefixE: "take (length p) s = p \<Longrightarrow> (\<And>r. s = p @ r \<Longrightarrow> thesis) \<Longrightarrow> thesis"
  by (metis append_take_drop_id)

lemma dirs_differ: "take (length APPDIR1) (APPDIR2 @ r) \<noteq> APPDIR1"
  by (simp add: APPDIR1_def APPDIR2_def cstr_def)

lemma find_alternative_simps:
  "find_alternative_bin_path (APPDIR1 @ r) n =
     (if length APPDIR2 + length r < n then Some (Some (APPDIR2 @ r)) else None)"
  "find_alternative_bin_path (APPDIR2 @ r) n =
     (if length APPDIR1 + length r < n then Some (Some (APPDIR1 @ r)) else None)"
  using dirs_differ [of r] by (auto simp: find_alternative_bin_path_def swap_dir_append)

text \<open>The other directory and back gives the path again.\<close>

lemma alternative_involution:
  assumes alt: "find_alternative_bin_path path n = Some (Some q)" and fit: "length path < n"
  shows "find_alternative_bin_path q n = Some (Some path)"
proof -
  consider r where "path = APPDIR1 @ r" | r where "path = APPDIR2 @ r"
    using alt by (auto simp: find_alternative_bin_path_def split: if_splits elim: take_prefixE)
  then show ?thesis
    using alt fit by cases (auto simp: find_alternative_simps split: if_splits)
qed

section \<open>Whom a kill hits\<close>

text \<open>
  The names that are looked for: a path, the path with \<^verbatim>\<open>.exe\<close> and without it, and the same in the other
  application directory. A process is hit when the first word of its command line begins with one of them.
\<close>

definition exe_variants :: "bytes \<Rightarrow> bytes set" where
  "exe_variants path = {q. q = path \<or> q = path @ exe_line \<or> path = q @ exe_line}"

definition kill_names :: "bytes \<Rightarrow> bytes set" where
  "kill_names path =
     exe_variants path
     \<union> (case find_alternative_bin_path path PATH_MAX of Some (Some p) \<Rightarrow> exe_variants p | _ \<Rightarrow> {})"

definition runs_one_of :: "os_t \<Rightarrow> bytes set \<Rightarrow> int \<Rightarrow> bool" where
  "runs_one_of os names pid \<longleftrightarrow>
     (\<exists>es buf q. q \<in> names \<and> (pid, buf) \<in> set (os_procs os es) \<and> take (length q) buf = q)"

definition scans :: "da_t \<Rightarrow> da_t \<Rightarrow> bool" where
  "scans d d' \<longleftrightarrow> (\<exists>ps. trace d' = trace d @ map Proc_scan ps)"

lemma scans_trans: "scans d d' \<Longrightarrow> scans d' d'' \<Longrightarrow> scans d d''"
  unfolding scans_def by (metis append.assoc map_append)

lemma find_pid_hits:
  assumes "find_pid_from_path os q d = (pid, d')" "q \<in> names"
  shows "scans d d'" and "pid \<noteq> 0 \<Longrightarrow> runs_one_of os names pid"
proof -
  have "d' = emit (Proc_scan q) d" "pid = find_proc q (os_procs os (trace d))"
    using assms(1) by (simp_all add: find_pid_from_path_def)
  then show "scans d d'" "pid \<noteq> 0 \<Longrightarrow> runs_one_of os names pid"
    using assms(2) find_proc_prefix [of q "os_procs os (trace d)"]
    by (auto simp: scans_def runs_one_of_def intro!: exI [of _ "[q]"])
qed

lemma get_pid_hits:
  assumes "get_pid_by_path os path d = Ret (pid, d')" "exe_variants path \<subseteq> names"
  shows "scans d d'" and "pid \<noteq> 0 \<Longrightarrow> runs_one_of os names pid \<or> pid = -1 \<and> (\<exists>n. \<not> os_malloc os n)"
proof -
  obtain pid1 d1 where f: "find_pid_from_path os path d = (pid1, d1)" by fastforce
  let ?q = "if drop (length path - 4) path = exe_line then take (length path - 4) path else path @ exe_line"
  obtain pid2 d2 where g: "find_pid_from_path os ?q d1 = (pid2, d2)" by fastforce
  have "path \<in> exe_variants path" "?q \<in> exe_variants path"
  proof -
    show "path \<in> exe_variants path" by (simp add: exe_variants_def)
    show "?q \<in> exe_variants path"
    proof (cases "drop (length path - 4) path = exe_line")
      case True
      then have "take (length path - 4) path @ exe_line = path" by (metis append_take_drop_id)
      with True show ?thesis by (simp add: exe_variants_def)
    qed (simp add: exe_variants_def)
  qed
  with assms(2) have q: "path \<in> names" "?q \<in> names" by blast+
  note h1 = find_pid_hits [OF f q(1)] and h2 = find_pid_hits [OF g q(2)]
  consider "pid = pid1" "d' = d1" | "pid = -1" "d' = d1" "\<exists>n. \<not> os_malloc os n" | "pid = pid2" "d' = d2"
    using assms(1) f g by (auto simp: get_pid_by_path_def Let_def split: if_splits)
  then show "scans d d'" "pid \<noteq> 0 \<Longrightarrow> runs_one_of os names pid \<or> pid = -1 \<and> (\<exists>n. \<not> os_malloc os n)"
    using h1 h2 scans_trans [OF h1(1) h2(1)] by (cases; blast)+
qed


text \<open>The path is the beginning of another one's.\<close>

definition kill_os :: os_t where
  "kill_os = (sample_os 0)\<lparr>os_procs := \<lambda>_. [(7, cstr ''/opt/apps/ab'')]\<rparr>"


end
