(* ===== verification/Session.thy ===== *)
theory Session
  imports Utils
begin

text \<open>
  The profiling session: timers, starting and stopping of applications, and what start, stop and
  configuration requests do (\<^verbatim>\<open>daemon/daemon.c\<close>, \<^verbatim>\<open>daemon/da_protocol.c\<close>).
\<close>

section \<open>The application launch timer\<close>

definition MAX_APP_LAUNCH_TIME :: int where "MAX_APP_LAUNCH_TIME = 60"

definition stop_app_launch_timer :: "os_t \<Rightarrow> da_t \<Rightarrow> int \<times> da_t" where
  "stop_app_launch_timer os d =
     (let fd = m_launch_timerfd d in
      if fd > 0 then
        (let d = emit (Fd_handler_del fd) d; (r, d) = sys os (Close fd) d in
         (if r \<noteq> 0 then 1 else 0, d\<lparr>m_launch_timerfd := -1\<rparr>))
      else (0, d))"

definition launch_timer_cb :: "os_t \<Rightarrow> da_t \<Rightarrow> da_t" where
  "launch_timer_cb os d = snd (stop_app_launch_timer os d)"

definition start_app_launch_timer :: "os_t \<Rightarrow> int \<Rightarrow> da_t \<Rightarrow> int \<times> da_t" where
  "start_app_launch_timer os apps_count d =
     (if apps_count = 0 then (0, d)
      else
        (let d = (if m_launch_timerfd d > 0 then snd (stop_app_launch_timer os d) else d);
             (fd, d) = sys os Timerfd_create d; d = d\<lparr>m_launch_timerfd := fd\<rparr> in
         if fd > 0 then
           (let (r, d) = sys os (Timerfd_settime fd (MAX_APP_LAUNCH_TIME * apps_count)) d in
            if r < 0 then (-1, snd (stop_app_launch_timer os d))
            else (let (h, d) = sys os (Fd_handler_add fd) d in
                  if h = 0 then (-2, snd (stop_app_launch_timer os d)) else (0, d)))
         else (-3, d)))"

definition inc_apps_to_run :: "da_t \<Rightarrow> da_t" where
  "inc_apps_to_run d = d\<lparr>m_apps_to_run := m_apps_to_run d + 1\<rparr>"

definition dec_apps_to_run :: "da_t \<Rightarrow> da_t" where
  "dec_apps_to_run d = (if m_apps_to_run d > 0 then d\<lparr>m_apps_to_run := m_apps_to_run d - 1\<rparr> else d)"

definition get_apps_to_run :: "da_t \<Rightarrow> int" where
  "get_apps_to_run d = m_apps_to_run d"

section \<open>Applications\<close>

definition kill_app_by_info :: "os_t \<Rightarrow> inst_data \<Rightarrow> da_t \<Rightarrow> (int \<times> da_t) run" where
  "kill_app_by_info os app d =
     (if app_type app = app_type_val APP_TYPE_TIZEN then kill_app os (exe_path app) d
      else if app_type app = app_type_val APP_TYPE_RUNNING then Ret (0, d)
      else if app_type app = app_type_val APP_TYPE_COMMON then kill_app os (exe_path app) d
      else if app_type app = app_type_val APP_TYPE_WEB then Ret (0, d)
      else Ret (-1, d))"

definition exec_app :: "os_t \<Rightarrow> inst_data \<Rightarrow> da_t \<Rightarrow> int \<times> da_t" where
  "exec_app os app d =
     (if app_type app = app_type_val APP_TYPE_TIZEN then
        (let (r, d) = exec_app_tizen os (app_id app) (exe_path app) d in
         if r \<noteq> 0 then (-1, d) else (0, inc_apps_to_run d))
      else if app_type app = app_type_val APP_TYPE_RUNNING then (0, d)
      else if app_type app = app_type_val APP_TYPE_COMMON then
        (let (r, d) = exec_app_common os (exe_path app) d in
         if r \<noteq> 0 then (-1, d) else (0, inc_apps_to_run d))
      else if app_type app = app_type_val APP_TYPE_WEB then
        (let (r, d) = exec_app_web os (app_id app) d in (if r \<noteq> 0 then -1 else 0, d))
      else (-1, d))"

text \<open>The applications of the session, in the order \<^verbatim>\<open>app_info_get_first\<close> and \<^verbatim>\<open>app_info_get_next\<close>
  visit them (\<open>app_iteration\<close>).\<close>

definition session_apps :: "da_t \<Rightarrow> inst_data list" where
  "session_apps d = map d_data (app_inst_list (us_inst (s_inst d)))"

fun visited_apps :: "nat \<Rightarrow> data_t list \<times> inst_data option \<Rightarrow> inst_data list" where
  "visited_apps n (app_list, None) = []"
| "visited_apps 0 (app_list, Some app) = []"
| "visited_apps (Suc n) (app_list, Some app) = app # visited_apps n (app_info_get_next app_list)"

lemma visited_apps_next:
  "length app_list \<le> n \<Longrightarrow>
     visited_apps n (app_list, if app_list = [] then None else Some (d_data (hd app_list))) = map d_data app_list"
proof (induction app_list arbitrary: n)
  case (Cons app app_list)
  then obtain m where m: "n = Suc m" by (cases n) auto
  have "app_info_get_next (app # app_list)
      = (app_list, if app_list = [] then None else Some (d_data (hd app_list)))"
    by (cases app_list) (simp_all add: app_info_get_next_def)
  with Cons m show ?case by simp
qed simp

lemma app_iteration:
  "length (app_inst_list us) \<le> n \<Longrightarrow>
     visited_apps n (app_info_get_first us) = map d_data (app_inst_list us)"
  using visited_apps_next [of "app_inst_list us" n]
  by (cases "app_inst_list us") (simp_all add: app_info_get_first_def)

definition option_set :: "feature_code \<Rightarrow> da_t \<Rightarrow> bool" where
  "option_set f d = IS_OPT_SET_IN f (use_features0 (s_conf d))"

primrec kill_apps :: "os_t \<Rightarrow> inst_data list \<Rightarrow> da_t \<Rightarrow> (int \<times> da_t) run" where
  "kill_apps os [] d = Ret (0, d)"
| "kill_apps os (app # apps) d =
     rbind (kill_app_by_info os app d) (\<lambda>(r, d).
       if r \<noteq> 0 then Ret (-1, d) else kill_apps os apps d)"

definition prepare_profiling :: "os_t \<Rightarrow> da_t \<Rightarrow> (int \<times> da_t) run" where
  "prepare_profiling os d =
     (if session_apps d = [] then Ret (-1, d)
      else rbind (kill_apps os (session_apps d) d) (\<lambda>(r, d).
             if r \<noteq> 0 then Ret (-1, d) else Ret (0, emit Sys_stat_prepare d)))"

primrec exec_apps :: "os_t \<Rightarrow> inst_data list \<Rightarrow> da_t \<Rightarrow> int \<times> da_t" where
  "exec_apps os [] d = (0, d)"
| "exec_apps os (app # apps) d =
     (let (r, d) = exec_app os app d in if r \<noteq> 0 then (-1, d) else exec_apps os apps d)"

definition stop_profiling :: "da_t \<Rightarrow> da_t" where
  "stop_profiling d = samplingStop (if option_set FL_RECORDING d then del_input_events d else d)"

definition SCREENSHOT_DIR :: bytes where "SCREENSHOT_DIR = cstr ''/tmp/da''"

definition start_profiling :: "os_t \<Rightarrow> da_t \<Rightarrow> int \<times> da_t" where
  "start_profiling os d =
     (if session_apps d = [] then (-1, d)
      else
        (let d = set_label_for_all SCREENSHOT_DIR (emit (Mkdir SCREENSHOT_DIR) (emit (Remove_indir SCREENSHOT_DIR) d));
             (r, d) = samplingStart os d in
         if r < 0 then (-1, d)
         else
           (let d = (if option_set FL_RECORDING d then add_input_events d else d);
                (r, d) = exec_apps os (session_apps d) d in
            if r \<noteq> 0 then (-1, stop_profiling d)
            else
              (let (r, d) = start_app_launch_timer os (get_apps_to_run d) d in
               if r < 0 then (-1, stop_profiling d) else (0, d)))))"

section \<open>Stopping\<close>

definition target_msg :: "u32 \<Rightarrow> bytes \<Rightarrow> bytes" where
  "target_msg ty text = le32 ty @ le32 (of_nat (length text)) @ text"

text \<open>A message structure on the stack: what is not set reads as zero.\<close>

definition MSG_STOP :: u32 where "MSG_STOP = 101"
definition MSG_OPTION :: u32 where "MSG_OPTION = 103"
definition MSG_CAPTURE_SCREEN :: u32 where "MSG_CAPTURE_SCREEN = 108"

definition terminate_all_target :: "os_t \<Rightarrow> da_t \<Rightarrow> da_t" where
  "terminate_all_target os d = snd (target_send_msg_to_all os (target_msg MSG_STOP []) 0 d)"

definition terminate_all :: "os_t \<Rightarrow> da_t \<Rightarrow> da_t run" where
  "terminate_all os d = target_wait_all os (terminate_all_target os d)"

definition terminate_error :: "os_t \<Rightarrow> bytes \<Rightarrow> bool \<Rightarrow> da_t \<Rightarrow> da_t run" where
  "terminate_error os errstr send_to_host d =
     terminate_all os (if send_to_host then write_msg_error os errstr d else d)"

definition reset_app_inst :: "user_space_inst_t \<Rightarrow> user_space_inst_t" where
  "reset_app_inst us = us\<lparr>app_num := 0, app_inst_list := []\<rparr>"

definition stop_all_no_lock :: "os_t \<Rightarrow> da_t \<Rightarrow> (ErrorCode \<times> da_t) run" where
  "stop_all_no_lock os d =
     (if s_running d then
        rbind (terminate_all os d) (\<lambda>d.
          let d = stop_replay (stop_profiling d);
              (r, d) = ioctl_send_msg os gen_stop_msg d in
          if r \<noteq> 0 then Ret (ERR_UNKNOWN, d)
          else
            (let d = d\<lparr>s_inst := (s_inst d)\<lparr>us_inst := reset_app_inst (us_inst (s_inst d))\<rparr>\<rparr>;
                 d = stop_transfer d in
             Ret (ERR_NO, d\<lparr>s_running := False\<rparr>)))
      else Ret (ERR_NO, d))"

primrec stop_web_apps :: "os_t \<Rightarrow> inst_data list \<Rightarrow> da_t \<Rightarrow> da_t" where
  "stop_web_apps os [] d = d"
| "stop_web_apps os (app # apps) d =
     stop_web_apps os apps
       (if app_type app = app_type_val APP_TYPE_WEB then kill_app_web os (app_id app) d else d)"

definition stop_all :: "os_t \<Rightarrow> da_t \<Rightarrow> (ErrorCode \<times> da_t) run" where
  "stop_all os d = stop_all_no_lock os (stop_web_apps os (session_apps d) d)"

section \<open>Configuration\<close>

definition reconfigure_recording :: "conf_t \<Rightarrow> da_t \<Rightarrow> da_t" where
  "reconfigure_recording c d =
     (let old_features = use_features0 (s_conf d); new_features = use_features0 c;
          to_enable = (new_features XOR old_features) AND new_features;
          to_disable = (new_features XOR old_features) AND old_features;
          d = (if IS_OPT_SET_IN FL_RECORDING to_disable then
                 (del_input_events d)\<lparr>s_conf := (s_conf d)\<lparr>use_features0 := old_features AND NOT (fl FL_RECORDING)\<rparr>\<rparr>
               else d)
      in if IS_OPT_SET_IN FL_RECORDING to_enable then
           (add_input_events d)\<lparr>s_conf := (s_conf d)\<lparr>use_features0 := use_features0 (s_conf d) OR fl FL_RECORDING\<rparr>\<rparr>
         else d)"

definition reconfigure :: "os_t \<Rightarrow> conf_t \<Rightarrow> da_t \<Rightarrow> int \<times> da_t" where
  "reconfigure os c d =
     (let d = samplingStop (reconfigure_recording c d);
          (r, d) = samplingStart os (d\<lparr>s_conf := c\<rparr>) in
      (if r < 0 then -1 else 0, d))"

section \<open>The start request\<close>

definition get_serialized_time :: "os_t \<Rightarrow> da_t \<Rightarrow> bytes" where
  "get_serialized_time os d = (let (sec, usec) = os_time os (trace d) in le32 sec @ le32 (usec * 1000))"

definition start_ack :: "os_t \<Rightarrow> ErrorCode \<Rightarrow> bytes \<Rightarrow> da_t \<Rightarrow> (int \<times> da_t) run" where
  "start_ack os err_code serialized_time d =
     rbind (sendACKToHost os (msg_val NMSG_START) err_code serialized_time d) (\<lambda>(_, d).
       Ret (if err_code \<noteq> ERR_NO then -1 else 0, d))"

definition process_msg_start :: "os_t \<Rightarrow> msg_buf_t \<Rightarrow> da_t \<Rightarrow> (int \<times> da_t) run" where
  "process_msg_start os b d =
     (let t0 = get_serialized_time os d in
      if s_running d then start_ack os ERR_ALREADY_RUNNING t0 d
      else if \<not> check_conf (s_conf d) then start_ack os ERR_CANNOT_START_PROFILING t0 d
      else
        rbind (of_option (msg_start (os_stat os) (os_malloc os) (os_realpath os) b (s_inst d) (s_replay d)))
          (\<lambda>(inst, seq, out).
        let d = d\<lparr>s_inst := inst, s_replay := seq\<rparr> in
        if out_res out \<noteq> 0 then
          start_ack os (case out_err out of None \<Rightarrow> ERR_CANNOT_START_PROFILING | Some e \<Rightarrow> e) t0 d
        else
          rbind (prepare_profiling os d) (\<lambda>(r, d).
          if r \<noteq> 0 then start_ack os ERR_CANNOT_START_PROFILING t0 d
          else
            (let (r, d) = start_transfer os d in
             if r \<noteq> 0 then start_ack os ERR_CANNOT_START_PROFILING t0 d
             else
               (let t1 = get_serialized_time os d;
                    (r, d) = ioctl_send_msg os (case out_msg out of Some m \<Rightarrow> m | None \<Rightarrow> []) d in
                if r \<noteq> 0 then start_ack os ERR_CANNOT_START_PROFILING t1 d
                else
                  (let (r, d) = start_profiling os (d\<lparr>s_running := True\<rparr>) in
                   if r < 0 then
                     rbind (stop_all os d) (\<lambda>(e, d).
                       start_ack os ERR_CANNOT_START_PROFILING t1
                         (if e \<noteq> ERR_NO then write_msg_error os (cstr ''Stop failed'') d else d))
                   else start_ack os ERR_NO t1 d))))))"

end
