(* ===== verification/Session_Inv.thy ===== *)
theory Session_Inv
  imports Session
begin

text \<open>
  What the session operations keep and reach: frame facts, the session invariant, the state after a
  stop, the answers to a start request.
\<close>

section \<open>Operations outside the session\<close>

text \<open>\<open>quiet\<close>: only the history and the launch timer's fields differ.\<close>

definition quiet :: "da_t \<Rightarrow> da_t \<Rightarrow> bool" where
  "quiet d d' \<longleftrightarrow>
     d'\<lparr>trace := [], m_apps_to_run := 0, m_launch_timerfd := 0\<rparr>
       = d\<lparr>trace := [], m_apps_to_run := 0, m_launch_timerfd := 0\<rparr>"

lemma quiet_refl [simp, intro]: "quiet d d"
  by (simp add: quiet_def)

lemma quiet_trans [trans]: "quiet d d' \<Longrightarrow> quiet d' d'' \<Longrightarrow> quiet d d''"
  by (simp add: quiet_def)

lemma quiet_emit [simp]: "quiet d (emit e d') \<longleftrightarrow> quiet d d'"
  by (simp add: quiet_def emit_def)

lemma quiet_fields:
  assumes "quiet d d'"
  shows "s_conf d' = s_conf d" "s_inst d' = s_inst d" "s_replay d' = s_replay d"
    "s_running d' = s_running d" "m_sampling d' = m_sampling d" "m_replay d' = m_replay d"
    "m_transfer d' = m_transfer d" "m_control_socket d' = m_control_socket d"
    "m_data_socket d' = m_data_socket d" "g_input_running d' = g_input_running d"
    "g_key_fds d' = g_key_fds d" "g_touch_fds d' = g_touch_fds d"
    "tg_use d' = tg_use d" "tg_array d' = tg_array d" "tg_cnt d' = tg_cnt d"
  using assms unfolding quiet_def by (cases d; cases d'; simp)+

lemma quiet_pool: "quiet d d' \<Longrightarrow> pool_ok d' = pool_ok d"
  by (simp add: pool_ok_def target_get_def quiet_fields)

lemma quiet_launch [simp]:
  "quiet d (d'\<lparr>m_launch_timerfd := x\<rparr>) \<longleftrightarrow> quiet d d'"
  "quiet d (d'\<lparr>m_apps_to_run := y\<rparr>) \<longleftrightarrow> quiet d d'"
  by (simp_all add: quiet_def)

lemma stop_app_launch_timer_quiet [simp]: "quiet d (snd (stop_app_launch_timer os d)) "
  by (simp add: stop_app_launch_timer_def sys_def Let_def)

lemma start_app_launch_timer_quiet: "start_app_launch_timer os n d = (r, d') \<Longrightarrow> quiet d d'"
  by (auto simp: start_app_launch_timer_def stop_app_launch_timer_def sys_def Let_def split: if_splits)

lemma exec_kinds_quiet:
  "quiet d (snd (exec_app_tizen os i p d))" "quiet d (snd (exec_app_common os p d))"
  "quiet d (snd (exec_app_web os i d))"
  by (simp_all add: exec_app_tizen_def exec_app_common_def exec_app_web_def sys_def Let_def)

lemma exec_app_quiet: "exec_app os app d = (r, d') \<Longrightarrow> quiet d d'"
  using exec_kinds_quiet(1) [of d os "app_id app" "exe_path app"]
    exec_kinds_quiet(2) [of d os "exe_path app"] exec_kinds_quiet(3) [of d os "app_id app"]
  by (cases "exec_app_tizen os (app_id app) (exe_path app) d"; cases "exec_app_common os (exe_path app) d";
      cases "exec_app_web os (app_id app) d")
    (auto simp add: exec_app_def inc_apps_to_run_def simp del: app_type_val.simps split: if_split_asm)

lemma exec_apps_quiet: "exec_apps os apps d = (r, d') \<Longrightarrow> quiet d d'"
proof (induction apps arbitrary: d)
  case (Cons app apps)
  obtain q d1 where e: "exec_app os app d = (q, d1)" by fastforce
  show ?case
  proof (cases "q = 0")
    case True
    with Cons.prems e have "exec_apps os apps d1 = (r, d')" by simp
    from quiet_trans [OF exec_app_quiet [OF e] Cons.IH [OF this]] show ?thesis .
  next
    case False
    with Cons.prems e exec_app_quiet [OF e] show ?thesis by simp
  qed
qed simp

lemma get_pid_by_path_quiet: "get_pid_by_path os p d = Ret (r, d') \<Longrightarrow> quiet d d'"
  by (auto simp: get_pid_by_path_def find_pid_from_path_def Let_def split: if_splits)

lemma kill_app_quiet:
  assumes "kill_app os p d = Ret (r, d')"
  shows "quiet d d'"
proof -
  from assms obtain pid d1 where 1: "get_pid_by_path os p d = Ret (pid, d1)"
    by (auto simp: kill_app_def rbind_Ret_iff)
  from assms obtain pid' d2 where
    2: "(if pid = 0 then rbind (of_option (find_alternative_bin_path p PATH_MAX)) (\<lambda>alter.
            case alter of None \<Rightarrow> Ret (pid, d1) | Some p \<Rightarrow> get_pid_by_path os p d1)
        else Ret (pid, d1)) = Ret (pid', d2)"
    and 3: "quiet d2 d'"
    by (auto simp: kill_app_def rbind_Ret_iff 1 sys_def Let_def split: if_splits)
  from 2 have "quiet d1 d2"
    by (auto simp: rbind_Ret_iff split: if_splits option.splits dest: get_pid_by_path_quiet)
  from quiet_trans [OF quiet_trans [OF get_pid_by_path_quiet [OF 1] this] 3] show ?thesis .
qed

lemma kill_apps_quiet: "kill_apps os apps d = Ret (r, d') \<Longrightarrow> quiet d d'"
proof (induction apps arbitrary: d)
  case (Cons app apps)
  from Cons.prems obtain q d1 where k: "kill_app_by_info os app d = Ret (q, d1)"
    and rest: "(if q \<noteq> 0 then Ret (-1, d1) else kill_apps os apps d1) = Ret (r, d')"
    by (auto simp: rbind_Ret_iff)
  from k have "quiet d d1"
    by (auto simp: kill_app_by_info_def split: if_splits intro: kill_app_quiet)
  with rest Cons.IH [of d1] show ?case by (cases "q = 0") (auto dest: quiet_trans)
qed simp

lemma prepare_profiling_quiet: "prepare_profiling os d = Ret (r, d') \<Longrightarrow> quiet d d'"
  by (auto simp: prepare_profiling_def rbind_Ret_iff split: if_splits dest: kill_apps_quiet)

lemma stop_web_apps_quiet: "quiet d (stop_web_apps os apps d)"
proof (induction apps arbitrary: d)
  case (Cons app apps)
  have "quiet d (if app_type app = app_type_val APP_TYPE_WEB then kill_app_web os (app_id app) d else d)"
    by (simp add: kill_app_web_def sys_def Let_def)
  from quiet_trans [OF this Cons.IH] show ?case by simp
qed simp

lemma write_msg_error_quiet [simp]: "quiet d (write_msg_error os s d)"
  by (simp add: write_msg_error_def write_to_buf_def sys_def Let_def)

section \<open>Terminating the targets\<close>

lemma terminate_all_target_quiet: "quiet d (terminate_all_target os d)"
proof -
  have "snd (send_slots os block len is ret d)\<lparr>trace := []\<rparr> = d\<lparr>trace := []\<rparr>" for block len "is" ret d
  proof (induction "is" arbitrary: ret d)
    case (Cons i "is")
    obtain r d1 where t: "target_send_msg os i block len d = (r, d1)" by fastforce
    then have "d1\<lparr>trace := []\<rparr> = d\<lparr>trace := []\<rparr>"
      using target_send_msg_simps [of os i block len d] by (simp add: emit_def)
    with Cons t show ?case by auto
  qed simp
  from arg_cong [OF this, of "\<lambda>d. d\<lparr>m_apps_to_run := 0, m_launch_timerfd := 0\<rparr>"]
  show ?thesis
    by (simp add: terminate_all_target_def target_send_msg_to_all_def quiet_def)
qed

lemma wait_slots_fields:
  "wait_slots os is d = Ret d' \<Longrightarrow> d'\<lparr>trace := [], tg_array := []\<rparr> = d\<lparr>trace := [], tg_array := []\<rparr>"
proof (induction "is" arbitrary: d)
  case (Cons i "is")
  show ?case
  proof (cases "tg_use d ! i")
    case True
    with Cons.prems obtain r d1 where w: "target_wait os i d = Ret (r, d1)" "wait_slots os is d1 = Ret d'"
      by (auto simp: rbind_Ret_iff)
    from w(1) have "d1\<lparr>trace := [], tg_array := []\<rparr> = d\<lparr>trace := [], tg_array := []\<rparr>"
      by (auto simp: target_wait_def thread_wait_def sys_def Let_def upd_target_def emit_def
          split: option.splits if_splits)
    with Cons.IH [OF w(2)] show ?thesis by simp
  next
    case False
    with Cons show ?thesis by simp
  qed
qed simp

lemma terminate_all_fields:
  assumes "pool_ok d"
  obtains d' where "terminate_all os d = Ret d'" "pool_ok d'" "tg_use d' = tg_use d"
    "s_conf d' = s_conf d" "s_inst d' = s_inst d" "s_replay d' = s_replay d"
    "s_running d' = s_running d" "m_sampling d' = m_sampling d" "m_replay d' = m_replay d"
    "m_transfer d' = m_transfer d" "m_control_socket d' = m_control_socket d"
    "m_data_socket d' = m_data_socket d" "g_input_running d' = g_input_running d"
    "tg_cnt d' = tg_cnt d"
proof -
  let ?d = "terminate_all_target os d"
  note q = terminate_all_target_quiet [of d os]
  have "pool_ok ?d" using quiet_pool [OF q] assms by simp
  then obtain d' where d': "terminate_all os d = Ret d'" "pool_ok d'" "tg_use d' = tg_use ?d"
    using target_wait_all_ok unfolding terminate_all_def by blast
  then have "d'\<lparr>trace := [], tg_array := []\<rparr> = ?d\<lparr>trace := [], tg_array := []\<rparr>"
    by (simp add: terminate_all_def target_wait_all_def wait_slots_fields)
  then have "s_conf d' = s_conf ?d" "s_inst d' = s_inst ?d" "s_replay d' = s_replay ?d"
    "s_running d' = s_running ?d" "m_sampling d' = m_sampling ?d" "m_replay d' = m_replay ?d"
    "m_transfer d' = m_transfer ?d" "m_control_socket d' = m_control_socket ?d"
    "m_data_socket d' = m_data_socket ?d" "g_input_running d' = g_input_running ?d"
    "tg_cnt d' = tg_cnt ?d"
    by (cases d'; cases ?d; simp)+
  with d' that show thesis by (simp add: quiet_fields [OF q])
qed

section \<open>What each operation does to the session\<close>

lemma handlers_quiet: "quiet d (add_handlers fds d)" "quiet d (del_handlers fds d)"
proof (induction fds arbitrary: d)
  case (Cons fd fds)
  case 1 show ?case using quiet_trans [OF _ Cons(1)] by simp
  case 2 show ?case using quiet_trans [OF _ Cons(2)] by simp
qed simp_all

text \<open>The fields that the operations on threads and input devices leave alone.\<close>

definition rest_of :: "da_t \<Rightarrow> da_t" where
  "rest_of d = d\<lparr>trace := [], m_apps_to_run := 0, m_launch_timerfd := 0, m_sampling := False,
                 g_input_running := False, m_replay := False, m_transfer := False\<rparr>"

lemma quiet_rest: "quiet d d' \<Longrightarrow> rest_of d' = rest_of d"
  unfolding quiet_def rest_of_def
  by (drule arg_cong [of _ _ "\<lambda>d. d\<lparr>m_sampling := False, g_input_running := False, m_replay := False,
      m_transfer := False\<rparr>"]) simp

lemma rest_fields:
  assumes "rest_of d' = rest_of d"
  shows "s_conf d' = s_conf d" "s_inst d' = s_inst d" "s_replay d' = s_replay d"
    "s_running d' = s_running d" "m_control_socket d' = m_control_socket d"
    "m_data_socket d' = m_data_socket d" "tg_use d' = tg_use d" "tg_array d' = tg_array d"
    "tg_cnt d' = tg_cnt d"
  using assms unfolding rest_of_def by (cases d; cases d'; simp)+

lemma rest_pool: "rest_of d' = rest_of d \<Longrightarrow> pool_ok d' = pool_ok d"
  using rest_fields [of d' d] by (simp add: pool_ok_def target_get_def)

lemma pool_ok_updates [simp]:
  "pool_ok (d\<lparr>s_running := x\<rparr>) = pool_ok d" "pool_ok (d\<lparr>s_inst := i\<rparr>) = pool_ok d"
  "pool_ok (d\<lparr>s_replay := y\<rparr>) = pool_ok d" "pool_ok (d\<lparr>s_conf := c\<rparr>) = pool_ok d"
  by (simp_all add: pool_ok_def target_get_def)

lemma rest_updates [simp]:
  "rest_of (d\<lparr>m_sampling := x\<rparr>) = rest_of d" "rest_of (d\<lparr>g_input_running := x\<rparr>) = rest_of d"
  "rest_of (d\<lparr>m_replay := x\<rparr>) = rest_of d" "rest_of (d\<lparr>m_transfer := x\<rparr>) = rest_of d"
  "rest_of (emit e d) = rest_of d"
  by (simp_all add: rest_of_def emit_def)

lemma sampling_rest [simp]:
  "rest_of (snd (samplingStart os d)) = rest_of d" "rest_of (samplingStop d) = rest_of d"
  by (simp_all add: samplingStart_def samplingStop_def Let_def sys_def)

lemma sampling_fields [simp]:
  "m_sampling (samplingStop d) = False"
  "m_replay (samplingStop d) = m_replay d" "m_transfer (samplingStop d) = m_transfer d"
  "g_input_running (samplingStop d) = g_input_running d"
  "m_replay (snd (samplingStart os d)) = m_replay d" "m_transfer (snd (samplingStart os d)) = m_transfer d"
  "g_input_running (snd (samplingStart os d)) = g_input_running d"
  "m_sampling (snd (samplingStart os d)) \<longrightarrow> m_sampling d \<or> s_running d"
  by (simp_all add: samplingStop_def samplingStart_def Let_def sys_def)

lemma handlers_fields [simp]:
  "m_sampling (add_handlers fds d) = m_sampling d" "m_sampling (del_handlers fds d) = m_sampling d"
  "m_replay (add_handlers fds d) = m_replay d" "m_replay (del_handlers fds d) = m_replay d"
  "m_transfer (add_handlers fds d) = m_transfer d" "m_transfer (del_handlers fds d) = m_transfer d"
  "rest_of (add_handlers fds d) = rest_of d" "rest_of (del_handlers fds d) = rest_of d"
  using handlers_quiet by (simp_all add: quiet_fields quiet_rest)

lemma input_fields [simp]:
  "rest_of (add_input_events d) = rest_of d" "rest_of (del_input_events d) = rest_of d"
  "m_sampling (add_input_events d) = m_sampling d" "m_sampling (del_input_events d) = m_sampling d"
  "m_replay (add_input_events d) = m_replay d" "m_replay (del_input_events d) = m_replay d"
  "m_transfer (add_input_events d) = m_transfer d" "m_transfer (del_input_events d) = m_transfer d"
  "g_input_running (add_input_events d)" "\<not> g_input_running (del_input_events d)"
  by (simp_all add: add_input_events_def del_input_events_def)

lemma stop_profiling_fields [simp]:
  "rest_of (stop_profiling d) = rest_of d" "m_sampling (stop_profiling d) = False"
  "m_replay (stop_profiling d) = m_replay d" "m_transfer (stop_profiling d) = m_transfer d"
  "g_input_running (stop_profiling d) \<longleftrightarrow> g_input_running d \<and> \<not> option_set FL_RECORDING d"
  by (simp_all add: stop_profiling_def)

lemma transfer_fields [simp]:
  "rest_of (stop_transfer d) = rest_of d" "rest_of (snd (start_transfer os d)) = rest_of d"
  "m_sampling (stop_transfer d) = m_sampling d" "m_sampling (snd (start_transfer os d)) = m_sampling d"
  "m_replay (stop_transfer d) = m_replay d" "m_replay (snd (start_transfer os d)) = m_replay d"
  "g_input_running (stop_transfer d) = g_input_running d"
  "g_input_running (snd (start_transfer os d)) = g_input_running d"
  "\<not> m_transfer (stop_transfer d)"
  by (simp_all add: stop_transfer_def start_transfer_def flush_buf_def wake_up_buf_def Let_def sys_def)

lemma stop_replay_fields [simp]:
  "s_conf (stop_replay d) = s_conf d" "s_inst (stop_replay d) = s_inst d"
  "s_running (stop_replay d) = s_running d" "m_sampling (stop_replay d) = m_sampling d"
  "m_transfer (stop_replay d) = m_transfer d" "g_input_running (stop_replay d) = g_input_running d"
  "\<not> m_replay (stop_replay d)" "tg_use (stop_replay d) = tg_use d" "tg_array (stop_replay d) = tg_array d"
  "m_control_socket (stop_replay d) = m_control_socket d" "tg_cnt (stop_replay d) = tg_cnt d"
  by (simp_all add: stop_replay_def Let_def)

section \<open>Stopping\<close>

text \<open>
  A stop of a running session never faults. Whether the driver accepts the stop message decides: if
  so, nothing of the session is left active and its applications are gone; if not, the session
  counts as running, with sampling, replay and recording already stopped.
\<close>

definition idle :: "da_t \<Rightarrow> bool" where
  "idle d \<longleftrightarrow> \<not> s_running d \<and> \<not> m_sampling d \<and> \<not> m_replay d \<and> \<not> m_transfer d \<and> session_apps d = []"

lemma stop_all_no_lock_cases:
  assumes pool: "pool_ok d" and run: "s_running d"
  obtains (stopped) d' where "stop_all_no_lock os d = Ret (ERR_NO, d')" "idle d'"
      "lib_inst_list (us_inst (s_inst d')) = lib_inst_list (us_inst (s_inst d))"
      "new_lib_inst_list (s_inst d') = new_lib_inst_list (s_inst d)"
      "g_input_running d' \<longrightarrow> g_input_running d \<and> \<not> option_set FL_RECORDING d"
      "s_conf d' = s_conf d" "pool_ok d'" "m_control_socket d' = m_control_socket d"
  | (refused) d' where "stop_all_no_lock os d = Ret (ERR_UNKNOWN, d')" "s_running d'"
      "\<not> m_sampling d'" "\<not> m_replay d'" "m_transfer d' = m_transfer d" "s_inst d' = s_inst d"
      "g_input_running d' \<longrightarrow> g_input_running d \<and> \<not> option_set FL_RECORDING d"
      "s_conf d' = s_conf d" "pool_ok d'" "m_control_socket d' = m_control_socket d"
proof -
  obtain d1 where d1: "terminate_all os d = Ret d1" "pool_ok d1" "s_conf d1 = s_conf d" "s_inst d1 = s_inst d"
    "s_running d1 = s_running d" "m_transfer d1 = m_transfer d" "g_input_running d1 = g_input_running d"
    "m_control_socket d1 = m_control_socket d"
    by (rule terminate_all_fields [OF pool, of os]) blast
  let ?d2 = "stop_replay (stop_profiling d1)"
  have opt: "option_set FL_RECORDING d1 = option_set FL_RECORDING d"
    using d1(3) by (simp add: option_set_def)
  have d2: "s_conf ?d2 = s_conf d" "s_inst ?d2 = s_inst d" "s_running ?d2" "\<not> m_sampling ?d2"
    "\<not> m_replay ?d2" "m_transfer ?d2 = m_transfer d"
    "g_input_running ?d2 \<longrightarrow> g_input_running d \<and> \<not> option_set FL_RECORDING d" "pool_ok ?d2"
    "m_control_socket ?d2 = m_control_socket d"
    using d1 run opt rest_fields [OF stop_profiling_fields(1), of d1] rest_pool [OF stop_profiling_fields(1), of d1]
    by (auto simp: pool_ok_def target_get_def)
  define d3 where "d3 = emit (Ioctl_msg gen_stop_msg) ?d2"
  define r where "r = os_ret os (trace ?d2) (Ioctl_msg gen_stop_msg)"
  have stop: "stop_all_no_lock os d =
      (if r = -1 then Ret (ERR_UNKNOWN, d3)
       else Ret (ERR_NO, (stop_transfer (d3\<lparr>s_inst := (s_inst d3)\<lparr>us_inst := reset_app_inst (us_inst (s_inst d3))\<rparr>\<rparr>))
              \<lparr>s_running := False\<rparr>))"
    using run d1(1) by (simp add: stop_all_no_lock_def ioctl_send_msg_def sys_def Let_def d3_def r_def)
  show thesis
  proof (cases "r = -1")
    case True
    show thesis by (rule refused [of d3]) (use True stop d2 in \<open>auto simp: d3_def\<close>)
  next
    case False
    let ?d4 = "d3\<lparr>s_inst := (s_inst d3)\<lparr>us_inst := reset_app_inst (us_inst (s_inst d3))\<rparr>\<rparr>"
    have d4: "s_conf ?d4 = s_conf d" "us_inst (s_inst ?d4) = reset_app_inst (us_inst (s_inst d))"
      "new_lib_inst_list (s_inst ?d4) = new_lib_inst_list (s_inst d)" "\<not> m_sampling ?d4" "\<not> m_replay ?d4"
      "g_input_running ?d4 \<longrightarrow> g_input_running d \<and> \<not> option_set FL_RECORDING d" "pool_ok ?d4"
      "m_control_socket ?d4 = m_control_socket d"
      using d2 by (auto simp: d3_def pool_ok_def target_get_def)
    define d5 where "d5 = stop_transfer ?d4"
    have "pool_ok d5" unfolding d5_def using rest_pool [OF transfer_fields(1)] d4(7) by blast
    moreover have "s_conf d5 = s_conf ?d4" "s_inst d5 = s_inst ?d4" "m_control_socket d5 = m_control_socket ?d4"
      unfolding d5_def by (rule rest_fields [OF transfer_fields(1)])+
    moreover have "m_sampling d5 = m_sampling ?d4" "m_replay d5 = m_replay ?d4" "\<not> m_transfer d5"
      "g_input_running d5 = g_input_running ?d4" by (simp_all add: d5_def)
    moreover have "stop_all_no_lock os d = Ret (ERR_NO, d5\<lparr>s_running := False\<rparr>)"
      using stop False by (simp add: d5_def)
    ultimately show thesis
      using d4 by (intro stopped [of "d5\<lparr>s_running := False\<rparr>"])
        (simp_all add: idle_def session_apps_def reset_app_inst_def)
  qed
qed

section \<open>The invariant of the session\<close>

text \<open>
  Sampling only while running, recording only when the configuration asks for it, and a
  consistent target pool.
\<close>

definition session_inv :: "da_t \<Rightarrow> bool" where
  "session_inv d \<longleftrightarrow>
     (m_sampling d \<longrightarrow> s_running d) \<and> (g_input_running d \<longrightarrow> option_set FL_RECORDING d)
     \<and> pool_ok d"

lemma option_set_conf: "s_conf d' = s_conf d \<Longrightarrow> option_set f d' = option_set f d"
  by (simp add: option_set_def)

lemma quiet_inv: "quiet d d' \<Longrightarrow> session_inv d' = session_inv d"
  using quiet_fields [of d d'] quiet_pool [of d d'] by (simp add: session_inv_def option_set_def)

lemma session_apps_quiet: "quiet d d' \<Longrightarrow> session_apps d' = session_apps d"
  by (simp add: session_apps_def quiet_fields)

lemma stop_all_inv:
  assumes inv: "session_inv d"
  obtains e d' where "stop_all os d = Ret (e, d')" "session_inv d'" "s_conf d' = s_conf d"
    "m_control_socket d' = m_control_socket d"
    "e = ERR_NO \<Longrightarrow> s_running d \<Longrightarrow> idle d' \<and> \<not> g_input_running d'"
    "e \<noteq> ERR_NO \<Longrightarrow> s_running d'"
    "lib_inst_list (us_inst (s_inst d')) = lib_inst_list (us_inst (s_inst d))"
proof -
  let ?d = "stop_web_apps os (session_apps d) d"
  note q = stop_web_apps_quiet [of d os "session_apps d"]
  have inv1: "session_inv ?d" using quiet_inv [OF q] inv by simp
  show thesis
  proof (cases "s_running ?d")
    case False
    then have "stop_all os d = Ret (ERR_NO, ?d)" by (simp add: stop_all_def stop_all_no_lock_def)
    with that inv1 False quiet_fields [OF q] show thesis by auto
  next
    case True
    have pool: "pool_ok ?d" using inv1 by (simp add: session_inv_def)
    from pool True show thesis
    proof (cases rule: stop_all_no_lock_cases [where os = os])
      case (stopped d')
      have "session_inv d'"
        using stopped inv1 option_set_conf [OF stopped(6)]
        by (auto simp: session_inv_def idle_def inst_inv_def session_apps_def)
      moreover have "\<not> g_input_running d'"
        using stopped inv1 by (auto simp: session_inv_def)
      ultimately show thesis
        using stopped quiet_fields [OF q] that [of ERR_NO d'] by (simp add: stop_all_def)
    next
      case (refused d')
      have "session_inv d'"
        using refused inv1 option_set_conf [OF refused(8)] by (auto simp: session_inv_def)
      with refused quiet_fields [OF q] show thesis using that [of ERR_UNKNOWN d'] by (simp add: stop_all_def)
    qed
  qed
qed

text \<open>A new configuration: recording follows the feature, sampling the running status.\<close>

lemma is_opt_recording: "IS_OPT_SET_IN FL_RECORDING x \<longleftrightarrow> bit x 9"
  using and_exp_eq_0_iff_not_bit [of x 9] by (simp add: IS_OPT_SET_IN_def)

lemma rest_conf [simp]: "rest_of (d\<lparr>s_conf := k\<rparr>) = (rest_of d)\<lparr>s_conf := k\<rparr>"
  by (simp add: rest_of_def)

lemma reconfigure_inv:
  assumes inv: "session_inv d" and r: "reconfigure os c d = (r, d')"
  shows "session_inv d'" and "s_conf d' = c" and "s_running d' = s_running d" and "s_inst d' = s_inst d"
    and "m_control_socket d' = m_control_socket d"
proof -
  let ?d1 = "reconfigure_recording c d"
  let ?d2 = "(samplingStop ?d1)\<lparr>s_conf := c\<rparr>"
  from r have d': "d' = snd (samplingStart os ?d2)"
    by (simp add: reconfigure_def Let_def split: prod.splits)
  have rec: "(rest_of ?d1)\<lparr>s_conf := k\<rparr> = (rest_of d)\<lparr>s_conf := k\<rparr>" for k
    by (simp add: reconfigure_recording_def Let_def)
  have "rest_of d' = rest_of (d\<lparr>s_conf := c\<rparr>)" by (simp add: d' rec)
  note f = rest_fields [OF this] rest_pool [OF this]
  show "s_conf d' = c" "s_running d' = s_running d" "s_inst d' = s_inst d"
    "m_control_socket d' = m_control_socket d" using f by simp_all
  have "g_input_running d' = g_input_running ?d1" by (simp add: d')
  moreover have "g_input_running ?d1 \<longrightarrow> IS_OPT_SET_IN FL_RECORDING (use_features0 c)"
    using inv by (auto simp: session_inv_def reconfigure_recording_def Let_def option_set_def is_opt_recording bit_simps)
  moreover have "s_running ?d2 = s_running d"
    using rest_fields(4) [of ?d2 "d\<lparr>s_conf := c\<rparr>"] rec by simp
  then have "m_sampling d' \<longrightarrow> s_running d"
    using sampling_fields(8) [of os ?d2] by (simp only: d') simp
  ultimately show "session_inv d'"
    using inv f by (auto simp: session_inv_def option_set_def)
qed

section \<open>The start request\<close>

text \<open>Every start request is answered; the last thing it does is to send the answer.\<close>

definition answered :: "u32 \<Rightarrow> ErrorCode \<Rightarrow> da_t \<Rightarrow> bool" where
  "answered i e d \<longleftrightarrow>
     (m_control_socket d \<noteq> -1 \<longrightarrow>
        (\<exists>t. length t = 8 \<and> trace d \<noteq> [] \<and>
             last (trace d) = Send (m_control_socket d) (ack_msg i (word_of_int (err_val e)) t)))"

lemma length_serialized_time [simp, size_simps]: "length (get_serialized_time os d) = 8"
  by (simp add: get_serialized_time_def split: prod.split)

lemma start_ack_answered:
  assumes "length t = 8"
  obtains d' where "start_ack os e t d = Ret (if e \<noteq> ERR_NO then -1 else 0, d')" "quiet d d'"
    "answered (msg_val NMSG_START_ACK) e d'"
proof (cases "m_control_socket d = -1")
  case True
  then have "start_ack os e t d = Ret (if e \<noteq> ERR_NO then -1 else 0, d)"
    by (simp add: start_ack_def sendACKToHost_def)
  with that True show thesis by (auto simp: answered_def)
next
  case False
  have "get_ack_msg_id (msg_val NMSG_START) = Some (msg_val NMSG_START_ACK)"
    by (simp add: get_ack_msg_id_def)
  from sendACK_known [OF False this, of os e t] obtain r where
    "sendACKToHost os (msg_val NMSG_START) e t d =
      Ret (r, emit (Send (m_control_socket d) (ack_msg (msg_val NMSG_START_ACK) (word_of_int (err_val e)) t)) d)"
    by blast
  then have "start_ack os e t d = Ret (if e \<noteq> ERR_NO then -1 else 0,
      emit (Send (m_control_socket d) (ack_msg (msg_val NMSG_START_ACK) (word_of_int (err_val e)) t)) d)"
    by (simp add: start_ack_def)
  with that assms show thesis by (auto simp: answered_def)
qed

lemma start_profiling_inv:
  assumes inv: "session_inv d" and run: "s_running d" and s: "start_profiling os d = (r, d')"
  shows "session_inv d'" and "rest_of d' = rest_of d"
proof -
  let ?d1 = "emit (Smack_lsetlabel SCREENSHOT_DIR (cstr ''*'')) (emit (Mkdir SCREENSHOT_DIR) (emit (Remove_indir SCREENSHOT_DIR) d))"
  obtain r1 d2 where sam: "samplingStart os ?d1 = (r1, d2)" by fastforce
  let ?d3 = "if option_set FL_RECORDING d2 then add_input_events d2 else d2"
  obtain r3 d4 where ex: "exec_apps os (session_apps ?d3) ?d3 = (r3, d4)" by fastforce
  obtain r4 d5 where ti: "start_app_launch_timer os (get_apps_to_run d4) d4 = (r4, d5)" by fastforce
  have d2: "rest_of d2 = rest_of d"
    using sampling_rest(1) [of os ?d1] sam by simp
  then have d3: "rest_of ?d3 = rest_of d" by simp
  have "rest_of d4 = rest_of d" using quiet_rest [OF exec_apps_quiet [OF ex]] d3 by simp
  have d5: "rest_of d5 = rest_of d"
    using quiet_rest [OF start_app_launch_timer_quiet [OF ti]] \<open>rest_of d4 = rest_of d\<close> by simp
  have g2: "g_input_running d2 = g_input_running d"
    using sampling_fields(7) [of os ?d1] sam by simp
  have o2: "option_set FL_RECORDING d2 = option_set FL_RECORDING d"
    using rest_fields(1) [OF d2] by (simp add: option_set_def)
  have keep: "session_inv x" if "rest_of x = rest_of d"
    "g_input_running x \<longrightarrow> option_set FL_RECORDING d" for x
    using that inv run rest_fields [OF that(1)] rest_pool [OF that(1)]
    by (auto simp: session_inv_def option_set_def)
  have g3: "g_input_running ?d3 \<longrightarrow> option_set FL_RECORDING d"
    using g2 o2 inv by (auto simp: session_inv_def)
  have g4: "g_input_running d4 \<longrightarrow> option_set FL_RECORDING d"
    using quiet_fields(10) [OF exec_apps_quiet [OF ex]] g3 by simp
  have g5: "g_input_running d5 \<longrightarrow> option_set FL_RECORDING d"
    using quiet_fields(10) [OF start_app_launch_timer_quiet [OF ti]] g4 by simp
  have g2': "g_input_running d2 \<longrightarrow> option_set FL_RECORDING d"
    using g2 inv by (auto simp: session_inv_def)
  have "d' \<in> {d, d2, stop_profiling d4, stop_profiling d5, d5}"
    using s sam ex ti by (auto simp: start_profiling_def Let_def split: if_splits prod.splits)
  then have "rest_of d' = rest_of d \<and> (g_input_running d' \<longrightarrow> option_set FL_RECORDING d)"
    using d2 \<open>rest_of d4 = rest_of d\<close> d5 g2' g4 g5 inv
    by (auto simp: session_inv_def)
  with keep show "session_inv d'" "rest_of d' = rest_of d" by auto
qed

text \<open>What may have happened when a start request ends with the answer \<open>e\<close> in the state \<open>d'\<close>.\<close>

definition start_result :: "da_t \<Rightarrow> int \<Rightarrow> da_t \<Rightarrow> bool" where
  "start_result d r d' \<longleftrightarrow>
     session_inv d' \<and>
     (\<exists>e. answered (msg_val NMSG_START_ACK) e d' \<and> r = (if e \<noteq> ERR_NO then -1 else 0)
        \<and> (e = ERR_ALREADY_RUNNING \<longleftrightarrow> s_running d)
        \<and> (e = ERR_NO \<longrightarrow> \<not> s_running d \<and> s_running d' \<and> check_conf (s_conf d) \<and> s_conf d' = s_conf d))"

lemma start_ack_result:
  assumes "session_inv d1" "length t = 8" "start_ack os e t d1 = Ret (r, d')"
    and "e = ERR_ALREADY_RUNNING \<longleftrightarrow> s_running d"
    and "e = ERR_NO \<longrightarrow> \<not> s_running d \<and> s_running d1 \<and> check_conf (s_conf d) \<and> s_conf d1 = s_conf d"
  shows "start_result d r d'"
proof -
  obtain d2 where "start_ack os e t d1 = Ret (if e \<noteq> ERR_NO then -1 else 0, d2)" "quiet d1 d2"
    "answered (msg_val NMSG_START_ACK) e d2" by (rule start_ack_answered [OF assms(2)])
  with assms quiet_inv [of d1 d2] quiet_fields [of d1 d2] show ?thesis
    unfolding start_result_def by (intro conjI exI [of _ e]) auto
qed

lemma msg_start_errs:
  assumes "msg_start stat_ok malloc_ok realpath b st seq = Some (st', seq', out)"
  shows "out_err out \<in> {None, Some ERR_WRONG_MESSAGE_FORMAT}"
  using assms
  by (auto simp: msg_start_def Let_def bind_eq_Some_conv split: gres.splits prod.splits)

lemma process_msg_start_result:
  assumes inv: "session_inv d" and p: "process_msg_start os b d = Ret (r, d')"
  shows "start_result d r d'"
proof -
  let ?t0 = "get_serialized_time os d"
  consider (running) "s_running d" | (conf) "\<not> s_running d" "\<not> check_conf (s_conf d)"
    | (go) "\<not> s_running d" "check_conf (s_conf d)" by blast
  then show ?thesis
  proof cases
    case running
    with p inv show ?thesis
      by (intro start_ack_result [of d ?t0 os ERR_ALREADY_RUNNING]) (auto simp: process_msg_start_def)
  next
    case conf
    with p inv show ?thesis
      by (intro start_ack_result [of d ?t0 os ERR_CANNOT_START_PROFILING]) (auto simp: process_msg_start_def)
  next
    case go
    from p go obtain inst seq out where
      ms: "msg_start (os_stat os) (os_malloc os) (os_realpath os) b (s_inst d) (s_replay d) = Some (inst, seq, out)"
      by (auto simp: process_msg_start_def rbind_Ret_iff Let_def)
    let ?d1 = "d\<lparr>s_inst := inst, s_replay := seq\<rparr>"
    from inv have inv1: "session_inv ?d1" by (simp add: session_inv_def option_set_def)
    show ?thesis
    proof (cases "out_res out = 0")
      case False
      have e: "(case out_err out of None \<Rightarrow> ERR_CANNOT_START_PROFILING | Some e \<Rightarrow> e)
          \<in> {ERR_CANNOT_START_PROFILING, ERR_WRONG_MESSAGE_FORMAT}"
        using msg_start_errs [OF ms] by auto
      from p go ms False have "start_ack os (case out_err out of None \<Rightarrow> ERR_CANNOT_START_PROFILING | Some e \<Rightarrow> e)
          ?t0 ?d1 = Ret (r, d')" by (simp add: process_msg_start_def)
      with e inv1 go show ?thesis by (intro start_ack_result [of ?d1]) auto
    next
      case True
      from p go ms True obtain r2 d2 where prep: "prepare_profiling os ?d1 = Ret (r2, d2)"
        by (auto simp: process_msg_start_def rbind_Ret_iff Let_def)
      note q2 = prepare_profiling_quiet [OF prep]
      have inv2: "session_inv d2" using quiet_inv [OF q2] inv1 by simp
      obtain r3 d3 where tr: "start_transfer os d2 = (r3, d3)" by fastforce
      have rest3: "rest_of d3 = rest_of d2" using transfer_fields(2) [of os d2] tr by simp
      have inv3: "session_inv d3"
        using inv2 rest_fields [OF rest3] rest_pool [OF rest3]
          transfer_fields(4) [of os d2] transfer_fields(8) [of os d2] tr
        by (simp add: session_inv_def option_set_def)
      have f3: "s_running d3 = s_running d" "s_conf d3 = s_conf d"
        using rest_fields [OF rest3] quiet_fields [OF q2] by simp_all
      let ?m = "case out_msg out of Some m \<Rightarrow> m | None \<Rightarrow> []"
      obtain r4 d4 where io: "ioctl_send_msg os ?m d3 = (r4, d4)" by fastforce
      then have d4: "d4 = emit (Ioctl_msg ?m) d3" by (simp add: ioctl_send_msg_def sys_def Let_def)
      have q4: "quiet d3 d4" by (simp add: d4)
      have inv4: "session_inv d4" using quiet_inv [OF q4] inv3 by simp
      obtain r5 d5 where sp: "start_profiling os (d4\<lparr>s_running := True\<rparr>) = (r5, d5)" by fastforce
      have inv4': "session_inv (d4\<lparr>s_running := True\<rparr>)"
        using inv4 by (simp add: session_inv_def option_set_def)
      note inv5 = start_profiling_inv [OF inv4' _ sp]
      let ?t1 = "get_serialized_time os d3"
      consider "r2 \<noteq> 0" "start_ack os ERR_CANNOT_START_PROFILING ?t0 d2 = Ret (r, d')"
        | "r3 \<noteq> 0" "start_ack os ERR_CANNOT_START_PROFILING ?t0 d3 = Ret (r, d')"
        | "r4 \<noteq> 0" "start_ack os ERR_CANNOT_START_PROFILING ?t1 d4 = Ret (r, d')"
        | "r5 < 0" "rbind (stop_all os d5) (\<lambda>(e, d). start_ack os ERR_CANNOT_START_PROFILING ?t1
              (if e \<noteq> ERR_NO then write_msg_error os (cstr ''Stop failed'') d else d)) = Ret (r, d')"
        | "start_ack os ERR_NO ?t1 d5 = Ret (r, d')"
        using p go ms True prep tr io sp
        by (auto simp: process_msg_start_def Let_def split: if_splits)
      then show ?thesis
      proof cases
        case 1
        with inv2 go show ?thesis by (intro start_ack_result [of d2]) auto
      next
        case 2
        with inv3 go show ?thesis by (intro start_ack_result [of d3]) auto
      next
        case 3
        with inv4 go show ?thesis by (intro start_ack_result [of d4]) auto
      next
        case 4
        obtain e d6 where st: "stop_all os d5 = Ret (e, d6)" "session_inv d6"
          using inv5 by (auto elim: stop_all_inv [of d5 os])
        have "session_inv (write_msg_error os (cstr ''Stop failed'') d6)"
          using quiet_inv [OF write_msg_error_quiet] st by blast
        with 4 st go show ?thesis
          by (intro start_ack_result [of "if e \<noteq> ERR_NO then write_msg_error os (cstr ''Stop failed'') d6 else d6"])
            auto
      next
        case 5
        have "s_running d5" "s_conf d5 = s_conf d"
          using rest_fields [OF inv5(2)] f3 quiet_fields [OF q4] by simp_all
        with 5 inv5 go show ?thesis by (intro start_ack_result [of d5]) auto
      qed
    qed
  qed
qed

lemma manager0_inv [simp]: "session_inv manager0"
  by (simp add: session_inv_def) (simp add: manager0_def)

section \<open>Properties\<close>

text \<open>
  C3. Every start request that returns is answered last of all with a start acknowledgement whose
  code the return value reflects: already running exactly when it was, and no error only when the
  session was stopped, its configuration valid, and is now running under that configuration.
\<close>

theorem start_request_answered:
  assumes "session_inv d" "process_msg_start os b d = Ret (r, d')"
  shows "\<exists>e. answered (msg_val NMSG_START_ACK) e d' \<and> r = (if e \<noteq> ERR_NO then -1 else 0)
    \<and> (e = ERR_ALREADY_RUNNING \<longleftrightarrow> s_running d)
    \<and> (e = ERR_NO \<longrightarrow> \<not> s_running d \<and> s_running d' \<and> check_conf (s_conf d) \<and> s_conf d' = s_conf d)"
  using process_msg_start_result [OF assms] by (simp add: start_result_def)

theorem start_request_answered_witness:
  "\<exists>d'. process_msg_start (sample_os 0) (sample_buf []) (manager0\<lparr>s_running := True, m_control_socket := 5\<rparr>) = Ret (-1, d')
     \<and> answered (msg_val NMSG_START_ACK) ERR_ALREADY_RUNNING d'"
proof -
  let ?d = "manager0\<lparr>s_running := True, m_control_socket := 5\<rparr>"
  have inv: "session_inv ?d"
    using manager0_inv by (simp add: session_inv_def option_set_def pool_ok_def target_get_def manager0_def)
  obtain d' where d': "process_msg_start (sample_os 0) (sample_buf []) ?d = Ret (-1, d')"
    using start_ack_answered [of "get_serialized_time (sample_os 0) ?d" "sample_os 0" ERR_ALREADY_RUNNING ?d]
    by (auto simp: process_msg_start_def length_serialized_time)
  from start_request_answered [OF inv d'] obtain e where
    "answered (msg_val NMSG_START_ACK) e d'" "e = ERR_ALREADY_RUNNING" by auto
  with d' show ?thesis by auto
qed



text \<open>
  C34. A start request whose parsing succeeded but whose preparation failed leaves the received
  applications in the list, in front of those of earlier failed requests; nothing is reset.
\<close>

theorem failed_start_keeps_apps:
  assumes "\<not> s_running d" "check_conf (s_conf d)"
    and "msg_start (os_stat os) (os_malloc os) (os_realpath os) b (s_inst d) (s_replay d) = Some (inst, seq, out)"
    and "out_res out = 0"
    and "prepare_profiling os (d\<lparr>s_inst := inst, s_replay := seq\<rparr>) = Ret (-1, d2)"
    and "process_msg_start os b d = Ret (r, d')"
  shows "r = -1 \<and> \<not> s_running d' \<and> s_inst d' = inst"
proof -
  let ?d = "d\<lparr>s_inst := inst, s_replay := seq\<rparr>"
  have q: "quiet ?d d2" using prepare_profiling_quiet [OF assms(5)] .
  have t: "length (get_serialized_time os d) = 8" by (rule length_serialized_time)
  obtain d3 where a: "start_ack os ERR_CANNOT_START_PROFILING (get_serialized_time os d) d2 = Ret (-1, d3)"
    "quiet d2 d3"
    by (rule start_ack_answered [OF t, of os ERR_CANNOT_START_PROFILING d2]) simp
  have "process_msg_start os b d = start_ack os ERR_CANNOT_START_PROFILING (get_serialized_time os d) d2"
    using assms(1-5) by (simp add: process_msg_start_def Let_def)
  with a assms(6) have "r = -1" "d' = d3" by simp_all
  with q a(2) show ?thesis using assms(1) by (simp add: quiet_fields)
qed

theorem failed_start_keeps_apps_witness:
  "\<exists>d'. process_msg_start (sample_os (-1)\<lparr>os_procs := \<lambda>_. [(7, [47])]\<rparr>) (sample_buf (apps_enc [sample_app] @ le32 0))
       (manager0\<lparr>s_conf := sample_conf\<rparr>) = Ret (-1, d')
     \<and> session_apps d' = [d_data sample_app]"
proof -
  let ?os = "sample_os (-1)\<lparr>os_procs := \<lambda>_. [(7, [47])]\<rparr>"
  let ?d = "manager0\<lparr>s_conf := sample_conf\<rparr>"
  let ?b = "sample_buf (apps_enc [sample_app] @ le32 0)"
  let ?us = "(us_inst (s_inst ?d))\<lparr>app_num := of_nat (length [sample_app]),
        app_inst_list := rev [sample_app] @ app_inst_list (us_inst (s_inst ?d))\<rparr>"
  have "fits (lib_inst_list ?us) (app_inst_list ?us)"
    by (simp add: fits_def manager0_def sample_msg_size)
  moreover have "length (enc_paths (maps_paths Some ?us)) + 8 < 2 ^ 32"
    by (simp add: enc_paths_def maps_paths_def manager0_def map_filter_simps sample_app_def)
  moreover have "wf_buf ?b" unfolding sample_apps_enc by simp
  moreover have "inst_inv (s_inst ?d)" by (simp add: inst_inv_def manager0_def)
  moreover have "unread ?b = apps_enc [sample_app] @ le32 0 @ []" by simp
  ultimately obtain inst seq out where
    ms: "msg_start (os_stat ?os) (os_malloc ?os) (os_realpath ?os) ?b (s_inst ?d) (s_replay ?d) = Some (inst, seq, out)"
    and o: "out_res out = 0" "app_inst_list (us_inst inst) = [sample_app]"
    using msg_start_received [of ?b "s_inst ?d" "os_stat ?os" "[sample_app]" "[]" ?us "os_realpath ?os" "os_malloc ?os" "s_replay ?d"]
    by (simp add: sample_os_def manager0_def)
  have c: "check_conf (s_conf ?d)"
    by (simp add: check_conf_def sample_conf_def check_conf_features_def FL_ALL_FEATURES_def
        check_conf_systrace_period_def check_conf_datamsg_period_def limit_defs)
  have apps: "session_apps (x\<lparr>s_inst := inst, s_replay := seq\<rparr>) = [d_data sample_app]" for x
    using o by (simp add: session_apps_def)
  have find: "find_pid_from_path ?os [47] x = (7, emit (Proc_scan [47]) x)" for x
    by (simp add: find_pid_from_path_def)
  have pid: "get_pid_by_path ?os [47] x = Ret (7, emit (Proc_scan [47]) x)" for x
    by (simp only: get_pid_by_path_def find Let_def prod.case) simp
  have kill: "kill_app_by_info ?os (d_data sample_app) x = Ret (-1, emit (Kill 7) (emit (Proc_scan [47]) x))" for x
  proof -
    have "kill_app ?os [47] x = Ret (-1, emit (Kill 7) (emit (Proc_scan [47]) x))"
      by (simp only: kill_app_def pid rbind.simps prod.case if_False refl zero_neq_numeral numeral_neq_zero
          sys_def Let_def) simp
    moreover have "app_type (d_data sample_app) = app_type_val APP_TYPE_TIZEN" "exe_path (d_data sample_app) = [47]"
      by (simp_all add: sample_app_def)
    ultimately show ?thesis by (simp only: kill_app_by_info_def if_True refl)
  qed
  obtain d2 where p: "prepare_profiling ?os (?d\<lparr>s_inst := inst, s_replay := seq\<rparr>) = Ret (-1, d2)"
    by (simp only: prepare_profiling_def apps kill_apps.simps kill rbind.simps prod.case) simp
  have run: "\<not> s_running ?d" by (simp add: manager0_def)
  obtain d' where a: "start_ack ?os ERR_CANNOT_START_PROFILING (get_serialized_time ?os ?d) d2 = Ret (-1, d')"
    by (rule start_ack_answered [OF length_serialized_time [of ?os ?d], of ?os ERR_CANNOT_START_PROFILING d2]) simp
  have d': "process_msg_start ?os ?b ?d = Ret (-1, d')"
    unfolding process_msg_start_def Let_def
    by (simp only: run c ms p o(1) a if_False if_True simp_thms of_option_simps rbind.simps prod.case) simp
  from failed_start_keeps_apps [OF run c ms o(1) p d'] have "s_inst d' = inst" by simp
  with d' o show ?thesis by (simp add: session_apps_def)
qed

end
