(* ===== verification/Md5.thy ===== *)
theory Md5
  imports Prelude
begin

text \<open>
  The digest of files (\<^verbatim>\<open>daemon/md5.c\<close>). \<^verbatim>\<open>BYTE_ORDER\<close> is 0 in this build and decided when the
  program runs; both ways read a block as sixteen little-endian words. The state is as in
  \<^verbatim>\<open>daemon/md5.h\<close>; a call of \<^verbatim>\<open>md5_append\<close> gets the \<open>nbytes\<close> bytes as a list. The specification is the
  digest of a whole message: pad it, then process it block by block.
\<close>

section \<open>The block function\<close>

type_synonym md5_regs = "u32 \<times> u32 \<times> u32 \<times> u32"

definition T_MASK :: u32 where "T_MASK = NOT 0"

definition ROTATE_LEFT :: "u32 \<Rightarrow> nat \<Rightarrow> u32" where
  "ROTATE_LEFT x n = push_bit n x OR drop_bit (32 - n) x"

definition F :: "u32 \<Rightarrow> u32 \<Rightarrow> u32 \<Rightarrow> u32" where "F x y z = (x AND y) OR (NOT x AND z)"
definition G :: "u32 \<Rightarrow> u32 \<Rightarrow> u32 \<Rightarrow> u32" where "G x y z = (x AND z) OR (y AND NOT z)"
definition H :: "u32 \<Rightarrow> u32 \<Rightarrow> u32 \<Rightarrow> u32" where "H x y z = x XOR y XOR z"
definition I :: "u32 \<Rightarrow> u32 \<Rightarrow> u32 \<Rightarrow> u32" where "I x y z = y XOR (x OR NOT z)"

text \<open>
  \<^verbatim>\<open>SET(a, b, c, d, k, s, Ti)\<close> with the function of its round. The source names the registers in
  turn, \<^verbatim>\<open>abcd\<close>, \<^verbatim>\<open>dabc\<close>, \<^verbatim>\<open>cdab\<close>, \<^verbatim>\<open>bcda\<close>; here the quadruple turns, and is back in place after
  sixteen steps.
\<close>

fun SET :: "(u32 \<Rightarrow> u32 \<Rightarrow> u32 \<Rightarrow> u32) \<Rightarrow> u32 list \<Rightarrow> nat \<times> nat \<times> u32 \<Rightarrow> md5_regs \<Rightarrow> md5_regs" where
  "SET f X (k, s, Ti) (a, b, c, d) =
     (let t = a + f b c d + X ! k + Ti in (d, ROTATE_LEFT t s + b, b, c))"

text \<open>The constants \<^verbatim>\<open>T1\<close> to \<^verbatim>\<open>T64\<close>.\<close>

definition md5_T :: "u32 list" where
  "md5_T =
    [T_MASK XOR 0x28955b87, T_MASK XOR 0x173848a9, 0x242070db, T_MASK XOR 0x3e423111,
     T_MASK XOR 0x0a83f050, 0x4787c62a, T_MASK XOR 0x57cfb9ec, T_MASK XOR 0x02b96afe,
     0x698098d8, T_MASK XOR 0x74bb0850, T_MASK XOR 0x0000a44e, T_MASK XOR 0x76a32841,
     0x6b901122, T_MASK XOR 0x02678e6c, T_MASK XOR 0x5986bc71, 0x49b40821,
     T_MASK XOR 0x09e1da9d, T_MASK XOR 0x3fbf4cbf, 0x265e5a51, T_MASK XOR 0x16493855,
     T_MASK XOR 0x29d0efa2, 0x02441453, T_MASK XOR 0x275e197e, T_MASK XOR 0x182c0437,
     0x21e1cde6, T_MASK XOR 0x3cc8f829, T_MASK XOR 0x0b2af278, 0x455a14ed,
     T_MASK XOR 0x561c16fa, T_MASK XOR 0x03105c07, 0x676f02d9, T_MASK XOR 0x72d5b375,
     T_MASK XOR 0x0005c6bd, T_MASK XOR 0x788e097e, 0x6d9d6122, T_MASK XOR 0x021ac7f3,
     T_MASK XOR 0x5b4115bb, 0x4bdecfa9, T_MASK XOR 0x0944b49f, T_MASK XOR 0x4140438f,
     0x289b7ec6, T_MASK XOR 0x155ed805, T_MASK XOR 0x2b10cf7a, 0x04881d05,
     T_MASK XOR 0x262b2fc6, T_MASK XOR 0x1924661a, 0x1fa27cf8, T_MASK XOR 0x3b53a99a,
     T_MASK XOR 0x0bd6ddbb, 0x432aff97, T_MASK XOR 0x546bdc58, T_MASK XOR 0x036c5fc6,
     0x655b59c3, T_MASK XOR 0x70f3336d, T_MASK XOR 0x00100b82, T_MASK XOR 0x7a7ba22e,
     0x6fa87e4f, T_MASK XOR 0x01d3191f, T_MASK XOR 0x5cfebceb, 0x4e0811a1,
     T_MASK XOR 0x08ac817d, T_MASK XOR 0x42c50dca, 0x2ad7d2bb, T_MASK XOR 0x14792c6e]"

definition T_at :: "nat \<Rightarrow> u32" where "T_at i = md5_T ! (i - 1)"

definition round1 :: "(nat \<times> nat \<times> u32) list" where
  "round1 =
    [(0, 7, T_at 1), (1, 12, T_at 2), (2, 17, T_at 3), (3, 22, T_at 4),
     (4, 7, T_at 5), (5, 12, T_at 6), (6, 17, T_at 7), (7, 22, T_at 8),
     (8, 7, T_at 9), (9, 12, T_at 10), (10, 17, T_at 11), (11, 22, T_at 12),
     (12, 7, T_at 13), (13, 12, T_at 14), (14, 17, T_at 15), (15, 22, T_at 16)]"

definition round2 :: "(nat \<times> nat \<times> u32) list" where
  "round2 =
    [(1, 5, T_at 17), (6, 9, T_at 18), (11, 14, T_at 19), (0, 20, T_at 20),
     (5, 5, T_at 21), (10, 9, T_at 22), (15, 14, T_at 23), (4, 20, T_at 24),
     (9, 5, T_at 25), (14, 9, T_at 26), (3, 14, T_at 27), (8, 20, T_at 28),
     (13, 5, T_at 29), (2, 9, T_at 30), (7, 14, T_at 31), (12, 20, T_at 32)]"

definition round3 :: "(nat \<times> nat \<times> u32) list" where
  "round3 =
    [(5, 4, T_at 33), (8, 11, T_at 34), (11, 16, T_at 35), (14, 23, T_at 36),
     (1, 4, T_at 37), (4, 11, T_at 38), (7, 16, T_at 39), (10, 23, T_at 40),
     (13, 4, T_at 41), (0, 11, T_at 42), (3, 16, T_at 43), (6, 23, T_at 44),
     (9, 4, T_at 45), (12, 11, T_at 46), (15, 16, T_at 47), (2, 23, T_at 48)]"

definition round4 :: "(nat \<times> nat \<times> u32) list" where
  "round4 =
    [(0, 6, T_at 49), (7, 10, T_at 50), (14, 15, T_at 51), (5, 21, T_at 52),
     (12, 6, T_at 53), (3, 10, T_at 54), (10, 15, T_at 55), (1, 21, T_at 56),
     (8, 6, T_at 57), (15, 10, T_at 58), (6, 15, T_at 59), (13, 21, T_at 60),
     (4, 6, T_at 61), (11, 10, T_at 62), (2, 15, T_at 63), (9, 21, T_at 64)]"

definition md5_words :: "bytes \<Rightarrow> u32 list" where
  "md5_words data = map (\<lambda>i. le_dec (take 4 (drop (4 * i) data))) [0..<16]"

definition md5_process :: "md5_regs \<Rightarrow> bytes \<Rightarrow> md5_regs" where
  "md5_process abcd data =
     (let X = md5_words data;
          (a, b, c, d) = fold (SET I X) round4 (fold (SET H X) round3
                           (fold (SET G X) round2 (fold (SET F X) round1 abcd)));
          (a0, b0, c0, d0) = abcd
      in (a0 + a, b0 + b, c0 + c, d0 + d))"

section \<open>The state\<close>

record md5_state_t =
  md_count0 :: u32
  md_count1 :: u32
  md_abcd :: md5_regs
  md_buf :: bytes

definition md5_start :: md5_regs where
  "md5_start = (0x67452301, T_MASK XOR 0x10325476, T_MASK XOR 0x67452301, 0x10325476)"

text \<open>\<^verbatim>\<open>md5_init\<close> leaves the buffer as it was.\<close>

definition md5_init :: "md5_state_t \<Rightarrow> md5_state_t" where
  "md5_init pms = pms\<lparr>md_count0 := 0, md_count1 := 0, md_abcd := md5_start\<rparr>"

function md5_full :: "md5_regs \<Rightarrow> bytes \<Rightarrow> md5_regs \<times> bytes" where
  "md5_full abcd p =
     (if length p \<ge> 64 then md5_full (md5_process abcd (take 64 p)) (drop 64 p) else (abcd, p))"
  by pat_completeness auto
termination by (relation "measure (\<lambda>(_, p). length p)") auto

declare md5_full.simps [simp del]

definition mem_put :: "nat \<Rightarrow> bytes \<Rightarrow> bytes \<Rightarrow> bytes" where
  "mem_put off p buf = take off buf @ p @ drop (off + length p) buf"

text \<open>Updating the message length.\<close>

definition md5_count :: "md5_state_t \<Rightarrow> nat \<Rightarrow> md5_state_t" where
  "md5_count pms nbytes =
     (let nbits = of_nat (nbytes * 8);
          pms = pms\<lparr>md_count1 := md_count1 pms + of_nat (nbytes div 2 ^ 29),
                    md_count0 := md_count0 pms + nbits\<rparr>
      in if md_count0 pms < nbits then pms\<lparr>md_count1 := md_count1 pms + 1\<rparr> else pms)"

definition md5_append :: "md5_state_t \<Rightarrow> bytes \<Rightarrow> md5_state_t" where
  "md5_append pms data =
     (let nbytes = length data; offset = unat (drop_bit 3 (md_count0 pms) AND 63) in
      if nbytes = 0 then pms
      else
        (let pms = md5_count pms nbytes; copy = (if offset + nbytes > 64 then 64 - offset else nbytes) in
         if offset \<noteq> 0 \<and> offset + copy < 64 then pms\<lparr>md_buf := mem_put offset data (md_buf pms)\<rparr>
         else
           (let (pms, p) =
                  (if offset \<noteq> 0 then
                     (let buf = mem_put offset (take copy data) (md_buf pms) in
                      (pms\<lparr>md_buf := buf, md_abcd := md5_process (md_abcd pms) buf\<rparr>, drop copy data))
                   else (pms, data));
                (abcd, p) = md5_full (md_abcd pms) p;
                pms = pms\<lparr>md_abcd := abcd\<rparr>
            in if p \<noteq> [] then pms\<lparr>md_buf := mem_put 0 p (md_buf pms)\<rparr> else pms)))"

fun regs_bytes :: "md5_regs \<Rightarrow> bytes" where
  "regs_bytes (a, b, c, d) = le32 a @ le32 b @ le32 c @ le32 d"

definition md5_finish :: "md5_state_t \<Rightarrow> bytes" where
  "md5_finish pms =
     (let data = le32 (md_count0 pms) @ le32 (md_count1 pms);
          pad = 0x80 # replicate 63 0;
          n = unat ((55 - drop_bit 3 (md_count0 pms)) AND 63) + 1;
          pms = md5_append pms (take n pad);
          pms = md5_append pms data
      in regs_bytes (md_abcd pms))"

section \<open>The digest of a message\<close>

definition md5_pad :: "bytes \<Rightarrow> bytes" where
  "md5_pad m = m @ 0x80 # replicate ((119 - length m mod 64) mod 64) 0 @ le64 (of_nat (8 * length m))"

definition md5 :: "bytes \<Rightarrow> bytes" where
  "md5 m = regs_bytes (fst (md5_full md5_start (md5_pad m)))"

text \<open>A state after the message \<open>m\<close>.\<close>

definition md5_state :: "md5_state_t \<Rightarrow> bytes \<Rightarrow> bool" where
  "md5_state pms m \<longleftrightarrow>
     length (md_buf pms) = 64
     \<and> md_count0 pms = of_nat (8 * length m) \<and> md_count1 pms = of_nat (8 * length m div 2 ^ 32)
     \<and> md5_full md5_start m = (md_abcd pms, take (length m mod 64) (md_buf pms))"

section \<open>Streaming\<close>

lemma md5_full_small: "length p < 64 \<Longrightarrow> md5_full abcd p = (abcd, p)"
  by (simp add: md5_full.simps)

lemma md5_full_append:
  "md5_full abcd (a @ b) = (case md5_full abcd a of (abcd', r) \<Rightarrow> md5_full abcd' (r @ b))"
proof (induction abcd a rule: md5_full.induct)
  case (1 abcd a)
  show ?case
  proof (cases "64 \<le> length a")
    case True
    then show ?thesis using 1 by (subst (1 2) md5_full.simps) simp
  qed (simp add: md5_full_small)
qed

lemma md5_full_rest: "md5_full abcd m = (abcd', r) \<Longrightarrow> length r = length m mod 64"
proof (induction abcd m rule: md5_full.induct)
  case (1 abcd m)
  show ?case
  proof (cases "64 \<le> length m")
    case True
    with 1 have "length r = (length m - 64) mod 64" by (subst (asm) md5_full.simps) simp
    with True show ?thesis by (simp add: le_mod_geq)
  next
    case False
    with 1(2) show ?thesis by (simp add: md5_full_small)
  qed
qed

lemma count_carry:
  fixes x s :: nat
  assumes "s < 2 ^ 32"
  shows "of_nat ((x + s) div 2 ^ 32) =
    (of_nat (x div 2 ^ 32) + (if (of_nat (x + s) :: u32) < of_nat s then 1 else 0) :: u32)"
proof -
  have "(x + s) div N = x div N + (if (x + s) mod N < s then 1 else 0)"
    if s: "s < N" for N :: nat
  proof -
    let ?r = "x mod N"
    have r: "?r < N" using s by simp
    have d: "(x + s) div N = x div N + (?r + s) div N" and m: "(x + s) mod N = (?r + s) mod N"
      using s div_add1_eq [of x s N] by (simp_all add: mod_add_left_eq)
    show ?thesis
    proof (cases "?r + s < N")
      case False
      have "?r + s < N + N" using r s by (rule add_strict_mono)
      with False have "(?r + s) div N = 1" by (intro div_nat_eqI) auto
      moreover have "(?r + s) mod N = ?r + s - N" using False r s \<open>?r + s < N + N\<close> by (simp add: le_mod_geq)
      ultimately show ?thesis using d m r False by simp
    qed (use d m in simp)
  qed
  from this [OF assms] have "(x + s) div 2 ^ 32 = x div 2 ^ 32 + (if (x + s) mod 2 ^ 32 < s then 1 else 0)" .
  moreover have "(of_nat (x + s) :: u32) < of_nat s \<longleftrightarrow> (x + s) mod 2 ^ 32 < s"
    using assms by (simp add: word_less_nat_alt unat_of_nat take_bit_eq_mod del: of_nat_add)
  ultimately show ?thesis by simp
qed

lemma and_63: "unat (w AND 63 :: u32) = unat w mod 64"
proof -
  have "w AND 63 = take_bit 6 w" by (simp add: take_bit_eq_mask mask_eq_exp_minus_1)
  then have "unat (w AND 63) = take_bit 6 (unat w)" by (simp only: unsigned_take_bit_eq)
  then show ?thesis by (simp add: take_bit_eq_mod)
qed

lemma md_offset: "unat (drop_bit 3 (of_nat (8 * L) :: u32)) mod 64 = L mod 64"
proof -
  have "unat (drop_bit 3 (of_nat (8 * L) :: u32)) = drop_bit 3 (8 * L mod 2 ^ 32)"
    by (simp only: unat_drop_bit_eq unat_of_nat take_bit_eq_mod) simp
  also have "\<dots> = 8 * (L mod 2 ^ 29) div 8"
    using mult_mod_right [of 8 L "2 ^ 29"] by (simp add: drop_bit_eq_div)
  finally show ?thesis by (simp add: mod_mod_cancel)
qed

lemma md5_count_data [simp]:
  "md_abcd (md5_count pms n) = md_abcd pms" "md_buf (md5_count pms n) = md_buf pms"
  by (simp_all add: md5_count_def Let_def)

lemma md5_append_counts:
  "data \<noteq> [] \<Longrightarrow> md_count0 (md5_append pms data) = md_count0 (md5_count pms (length data))"
  "data \<noteq> [] \<Longrightarrow> md_count1 (md5_append pms data) = md_count1 (md5_count pms (length data))"
  by (simp_all add: md5_append_def Let_def split: prod.split)

text \<open>One call, without the count: what is left from before goes in front of the data.\<close>

lemma md5_append_data:
  assumes buf: "length (md_buf pms) = 64" and p: "p \<noteq> []"
    and off: "unat (drop_bit 3 (md_count0 pms) AND 63) = off" "off < 64"
    and full: "md5_full (md_abcd pms) (take off (md_buf pms) @ p) = (abcd, q)"
  obtains B where "md_abcd (md5_append pms p) = abcd" "md_buf (md5_append pms p) = B"
    "length B = 64" "take (length q) B = q"
proof -
  define r where "r = take off (md_buf pms)"
  have r: "length r = off" using buf off by (simp add: r_def)
  have lq: "length q < 64" using md5_full_rest [OF full] by simp
  have put: "length (mem_put 0 q B) = 64" "take (length q) (mem_put 0 q B) = q" if "length B = 64" for B
    using lq that by (simp_all add: mem_put_def)
  consider (part) "off \<noteq> 0" "off + length p < 64" | (zero) "off = 0" | (fill) "off \<noteq> 0" "64 \<le> off + length p"
    by linarith
  then show thesis
  proof cases
    case part
    from part r full have "abcd = md_abcd pms" "q = r @ p"
      by (simp_all add: md5_full_small r_def [symmetric])
    with part p off buf r show thesis
      by (intro that [of "mem_put off p (md_buf pms)"])
        (simp_all add: md5_append_def Let_def mem_put_def r_def [symmetric])
  next
    case zero
    with full have "md5_full (md_abcd pms) p = (abcd, q)" by simp
    with zero p off buf put show thesis
      by (intro that [of "if q \<noteq> [] then mem_put 0 q (md_buf pms) else md_buf pms"])
        (simp_all add: md5_append_def Let_def)
  next
    case fill
    let ?c = "64 - off"
    have c: "(if off + length p > 64 then 64 - off else length p) = ?c" using fill off by auto
    let ?B = "mem_put off (take ?c p) (md_buf pms)"
    have "min (length p) ?c = ?c" using fill off by linarith
    then have B: "?B = r @ take ?c p" "length ?B = 64"
      using fill off buf r by (simp_all add: mem_put_def r_def [symmetric])
    have "md5_full (md_abcd pms) (r @ p) = md5_full (md_abcd pms) (?B @ drop ?c p)" by (simp add: B)
    also have "\<dots> = md5_full (md5_process (md_abcd pms) ?B) (drop ?c p)"
      using B(2) by (subst md5_full.simps) simp
    finally have "md5_full (md5_process (md_abcd pms) ?B) (drop ?c p) = (abcd, q)"
      using full by (simp add: r_def)
    with fill p off put B(2) show thesis
      by (intro that [of "if q \<noteq> [] then mem_put 0 q ?B else ?B"])
        (simp_all add: md5_append_def Let_def c split: if_splits)
  qed
qed

lemma md5_append_count:
  assumes "length p < 2 ^ 28" "p \<noteq> []"
    and "md_count0 pms = of_nat (8 * L)" "md_count1 pms = of_nat (8 * L div 2 ^ 32)"
  shows "md_count0 (md5_append pms p) = of_nat (8 * (L + length p))"
    and "md_count1 (md5_append pms p) = of_nat (8 * (L + length p) div 2 ^ 32)"
proof -
  let ?n = "length p * 8"
  have div: "length p div 2 ^ 29 = 0" using assms(1) by simp
  have c: "md_count0 (md5_append pms p) = of_nat (8 * L + ?n)"
    "md_count1 (md5_append pms p)
       = of_nat (8 * L div 2 ^ 32) + (if (of_nat (8 * L + ?n) :: u32) < of_nat ?n then 1 else 0)"
    unfolding md5_append_counts [OF assms(2)] md5_count_def Let_def div
    by (simp_all del: of_nat_mult add: assms(3,4))
  have l: "8 * (L + length p) = 8 * L + ?n" by simp
  show "md_count0 (md5_append pms p) = of_nat (8 * (L + length p))" by (simp only: c(1) l)
  have "?n < 2 ^ 32" using assms(1) by simp
  from c(2) count_carry [OF this, of "8 * L"]
  show "md_count1 (md5_append pms p) = of_nat (8 * (L + length p) div 2 ^ 32)"
    by (simp only: l)
qed

lemma md5_append_state:
  assumes st: "md5_state pms m" and p: "length p < 2 ^ 28"
  shows "md5_state (md5_append pms p) (m @ p)"
proof (cases "p = []")
  case True
  with st show ?thesis by (simp add: md5_append_def)
next
  case False
  have s: "length (md_buf pms) = 64" "md_count0 pms = of_nat (8 * length m)"
    "md_count1 pms = of_nat (8 * length m div 2 ^ 32)"
    "md5_full md5_start m = (md_abcd pms, take (length m mod 64) (md_buf pms))"
    using st by (simp_all only: md5_state_def)
  obtain abcd q where full: "md5_full (md_abcd pms) (take (length m mod 64) (md_buf pms) @ p) = (abcd, q)"
    by fastforce
  have all: "md5_full md5_start (m @ p) = (abcd, q)"
    by (subst md5_full_append) (simp only: s(4) prod.case full)
  have off: "unat (drop_bit 3 (md_count0 pms) AND 63) = length m mod 64"
    by (simp only: s(2) and_63 md_offset)
  obtain B where "md_abcd (md5_append pms p) = abcd" "md_buf (md5_append pms p) = B"
    "length B = 64" "take (length q) B = q"
    using md5_append_data [OF s(1) False off _ full] by auto
  moreover have "length q = length (m @ p) mod 64" using md5_full_rest [OF all] .
  ultimately show ?thesis
    using all md5_append_count [OF p False s(2,3)] by (simp only: md5_state_def length_append)
qed

lemma md5_init_state: "length (md_buf pms) = 64 \<Longrightarrow> md5_state (md5_init pms) []"
  by (simp add: md5_state_def md5_init_def md5_full_small)

lemma md5_fold_state:
  "md5_state pms m \<Longrightarrow> \<forall>c \<in> set cs. length c < 2 ^ 28 \<Longrightarrow>
     md5_state (fold (\<lambda>c s. md5_append s c) cs pms) (m @ concat cs)"
proof (induction cs arbitrary: pms m)
  case (Cons c cs)
  from Cons.IH [OF md5_append_state [of pms m c]] Cons.prems show ?case by simp
qed simp

lemma le64_split: "le64 (of_nat n) = le32 (of_nat n) @ le32 (of_nat (n div 2 ^ 32))"
proof -
  have 8: "le_enc 8 w = le_enc 4 w @ le_enc 4 (drop_bit 32 w)" for w :: u64
    by (simp add: le_enc_numeral)
  have lo: "le_enc 4 w = le32 (ucast w)" for w :: u64
    by (simp add: le_enc_numeral le32_def) (auto intro!: bit_word_eqI simp: bit_simps)
  have n: "n div 2 ^ 32 = drop_bit 32 n" by (simp only: drop_bit_eq_div)
  have "ucast (of_nat n :: u64) = (of_nat n :: u32)"
    by (rule bit_word_eqI) (simp add: bit_simps)
  moreover have "ucast (drop_bit 32 (of_nat n :: u64)) = (of_nat (n div 2 ^ 32) :: u32)"
    by (simp only: n, rule bit_word_eqI) (simp add: bit_simps)
  ultimately show ?thesis by (simp only: le64_def 8 lo)
qed

lemma pad_length: "unat (55 - w :: u32) mod 64 = (119 - unat w mod 64) mod 64"
proof (cases "unat w \<le> 55")
  case True
  then have "unat (55 - w) = 55 - unat w" "119 - unat w mod 64 = 64 + (55 - unat w)"
    by (simp_all add: unat_sub_if')
  then show ?thesis by simp
next
  case False
  define k j where kj: "k = unat w div 64" "j = unat w mod 64"
  have "unat w < 2 ^ 32" using unsigned_less [of w] by simp
  then have b: "k < 67108864" "j < 64" by (simp_all add: kj)
  have "unat (55 - w) = 2 ^ 32 + 55 - unat w" using False by (simp add: unat_sub_if')
  also have "unat w = 64 * k + j" by (simp add: kj)
  also have "2 ^ 32 + 55 - (64 * k + j) = 64 * (67108864 - 1 - k) + (119 - j)"
    using b by simp
  finally have "unat (55 - w) = 64 * (67108864 - 1 - k) + (119 - j)" .
  then have "unat (55 - w) mod 64 = (119 - j) mod 64" by simp
  then show ?thesis by (simp only: kj)
qed

lemma md5_finish_state:
  assumes st: "md5_state pms m"
  shows "md5_finish pms = md5 m"
proof -
  let ?L = "length m"
  let ?n = "unat ((55 - drop_bit 3 (md_count0 pms)) AND 63) + 1"
  let ?pad = "take ?n (0x80 # replicate 63 0) :: bytes"
  have n: "?n = (119 - ?L mod 64) mod 64 + 1"
  proof -
    let ?w = "drop_bit 3 (md_count0 pms)"
    have w: "unat ?w mod 64 = ?L mod 64" using st md_offset [of ?L] by (simp add: md5_state_def)
    have "unat (55 - ?w) mod 64 = (119 - unat ?w mod 64) mod 64"
      by (rule pad_length)
    then show ?thesis by (simp add: and_63 w)
  qed
  have "?n \<le> 64" unfolding n by simp
  then have pad: "?pad = 0x80 # replicate (?n - 1) 0" by (simp add: min_def)
  let ?data = "le32 (md_count0 pms) @ le32 (md_count1 pms)"
  have data: "?data = le64 (of_nat (8 * ?L))"
    using st by (simp only: le64_split md5_state_def)
  have "md5_state (md5_append (md5_append pms ?pad) ?data) ((m @ ?pad) @ ?data)"
    by (intro md5_append_state st) simp_all
  also have "(m @ ?pad) @ ?data = md5_pad m"
    by (simp only: pad data md5_pad_def n) simp
  finally have "md5_full md5_start (md5_pad m)
    = (md_abcd (md5_append (md5_append pms ?pad) ?data),
       take (length (md5_pad m) mod 64) (md_buf (md5_append (md5_append pms ?pad) ?data)))"
    by (simp only: md5_state_def)
  then show ?thesis by (simp add: md5_finish_def md5_def Let_def)
qed

section \<open>Properties\<close>

text \<open>The values of the reference test suite.\<close>

lemma md5_abc:
  "md5 [97, 98, 99] = [0x90, 0x01, 0x50, 0x98, 0x3c, 0xd2, 0x4f, 0xb0, 0xd6, 0x96, 0x3f, 0x7d, 0x28, 0xe1, 0x7f, 0x72]"
  by code_simp

text \<open>
  A message that is hashed in pieces, in whatever lengths they come, has the digest of the whole
  message padded and processed block by block.
\<close>

theorem md5_streaming:
  assumes "length (md_buf pms) = 64" "\<forall>c \<in> set cs. length c < 2 ^ 28"
  shows "md5_finish (fold (\<lambda>c s. md5_append s c) cs (md5_init pms)) = md5 (concat cs)"
  using md5_finish_state [OF md5_fold_state [OF md5_init_state [OF assms(1)] assms(2)]] by simp

theorem md5_streaming_witness:
  "md5_finish (fold (\<lambda>c s. md5_append s c) [[97], [], [98, 99]]
     (md5_init \<lparr>md_count0 = 5, md_count1 = 6, md_abcd = (1, 2, 3, 4), md_buf = replicate 64 7\<rparr>)) =
   [0x90, 0x01, 0x50, 0x98, 0x3c, 0xd2, 0x4f, 0xb0, 0xd6, 0x96, 0x3f, 0x7d, 0x28, 0xe1, 0x7f, 0x72]"
  using md5_streaming [of "\<lparr>md_count0 = 5, md_count1 = 6, md_abcd = (1, 2, 3, 4), md_buf = replicate 64 7\<rparr>"
      "[[97], [], [98, 99]]"]
  by (simp add: md5_abc)

end
