(* ===== verification/Binary_Info.thy ===== *)
theory Binary_Info
  imports Utils Md5
begin

text \<open>
  The request for information about binaries: what the daemon reads from an ELF file
  (\<^verbatim>\<open>daemon/elf.c\<close>), the digest of a file, and the reply (\<^verbatim>\<open>daemon/da_protocol.c\<close>). The member offsets
  are those of the 32-bit structures of \<^verbatim>\<open>elf.h\<close>. \<open>None\<close> is an access outside a file's mapping.
\<close>

section \<open>ELF headers\<close>

definition ET_EXEC :: int where "ET_EXEC = 2"
definition ET_DYN :: int where "ET_DYN = 3"
definition BINARY_TYPE_NO_PIE :: u32 where "BINARY_TYPE_NO_PIE = 0"
definition BINARY_TYPE_PIE :: u32 where "BINARY_TYPE_PIE = 1"
definition BINARY_TYPE_UNKNOWN :: u32 where "BINARY_TYPE_UNKNOWN = -2"
definition BINARY_TYPE_FILE_NOT_EXIST :: u32 where "BINARY_TYPE_FILE_NOT_EXIST = -1"

definition sizeof_Ehdr :: nat where "sizeof_Ehdr = 52"
definition sizeof_Shdr :: nat where "sizeof_Shdr = 40"

definition read_elf_header :: "os_t \<Rightarrow> bytes \<Rightarrow> int + bytes" where
  "read_elf_header os filepath =
     (case os_file os filepath of
        None \<Rightarrow> Inl (-2)
      | Some f \<Rightarrow> if length f < sizeof_Ehdr then Inl (-5) else Inr (take sizeof_Ehdr f))"

definition elf_type :: "os_t \<Rightarrow> bytes \<Rightarrow> int" where
  "elf_type os filepath =
     (case read_elf_header os filepath of
        Inl err \<Rightarrow> err
      | Inr header \<Rightarrow> uint (le_dec (take 2 (drop 16 header)) :: u16))"

definition get_binary_type :: "os_t \<Rightarrow> bytes \<Rightarrow> u32" where
  "get_binary_type os path =
     (let ty = elf_type os path in
      if ty = ET_DYN then BINARY_TYPE_PIE
      else if ty = ET_EXEC then BINARY_TYPE_NO_PIE
      else BINARY_TYPE_UNKNOWN)"

section \<open>The debug strings\<close>

text \<open>A mapping is whole pages, zero behind the end of the file; an empty file cannot be mapped.\<close>

definition PAGE_SIZE :: nat where "PAGE_SIZE = 4096"

definition mmap_file :: "os_t \<Rightarrow> bytes \<Rightarrow> bytes option" where
  "mmap_file os filepath =
     (case os_file os filepath of
        None \<Rightarrow> None
      | Some f \<Rightarrow>
          if f = [] then None
          else Some (f @ replicate ((PAGE_SIZE - length f mod PAGE_SIZE) mod PAGE_SIZE) 0))"

definition rd32 :: "bytes \<Rightarrow> nat \<Rightarrow> nat option" where
  "rd32 mem off = (if off + 4 \<le> length mem then Some (unat (le_dec (take 4 (drop off mem)) :: u32)) else None)"

definition rd16 :: "bytes \<Rightarrow> nat \<Rightarrow> nat option" where
  "rd16 mem off = (if off + 2 \<le> length mem then Some (unat (le_dec (take 2 (drop off mem)) :: u16)) else None)"

text \<open>\<^verbatim>\<open>strcmp\<close> of a literal with the memory at a pointer.\<close>

fun str_same :: "bytes \<Rightarrow> bytes \<Rightarrow> bool option" where
  "str_same s [] = None"
| "str_same [] (c # cs) = Some (c = 0)"
| "str_same (l # ls) (c # cs) = (if c = l then str_same ls cs else Some False)"

primrec find_section :: "bytes \<Rightarrow> nat \<Rightarrow> nat \<Rightarrow> nat list \<Rightarrow> nat option option" where
  "find_section mem section_table string_section [] = Some None"
| "find_section mem section_table string_section (i # is) =
     (let entry = section_table + i * sizeof_Shdr in
      Option.bind (rd32 mem entry) (\<lambda>sh_name.
      Option.bind (str_same (cstr ''.debug_str'') (drop (string_section + sh_name) mem)) (\<lambda>eq.
        if eq then Some (Some entry) else find_section mem section_table string_section is)))"

definition elf_find_debug_header :: "bytes \<Rightarrow> nat option option" where
  "elf_find_debug_header obj =
     Option.bind (rd32 obj 32) (\<lambda>e_shoff.
     Option.bind (rd16 obj 50) (\<lambda>e_shstrndx.
     Option.bind (rd32 obj (e_shoff + e_shstrndx * sizeof_Shdr + 16)) (\<lambda>string_section.
     Option.bind (rd16 obj 48) (\<lambda>e_shnum.
       find_section obj e_shoff string_section [0..<e_shnum]))))"

text \<open>Upper-case letters of the C locale.\<close>

definition isupper :: "byte \<Rightarrow> bool" where "isupper c \<longleftrightarrow> 65 \<le> c \<and> c \<le> 90"
definition isalpha :: "byte \<Rightarrow> bool" where "isalpha c \<longleftrightarrow> isupper c \<or> 97 \<le> c \<and> c \<le> 122"

definition is_like_absolute_path :: "bytes \<Rightarrow> bool option" where
  "is_like_absolute_path str =
     (case str of
        [] \<Rightarrow> None
      | c # cs \<Rightarrow>
          if c = 47 then Some True
          else if \<not> isupper c then Some False
          else case cs of
            [] \<Rightarrow> None
          | c1 # cs1 \<Rightarrow>
              if c1 \<noteq> 58 then Some False
              else case cs1 of [] \<Rightarrow> None | c2 # _ \<Rightarrow> Some (c2 = 92))"

text \<open>
  The search for a path in the section, \<open>e\<close> its end. Without a NUL up to the end \<^verbatim>\<open>memchr\<close> gives NULL
  and the loop goes on at address 1.
\<close>

function scan_paths :: "bytes \<Rightarrow> nat \<Rightarrow> nat \<Rightarrow> bytes option option" where
  "scan_paths mem e p =
     (if p + 3 < e then
        (case is_like_absolute_path (drop p mem) of
           None \<Rightarrow> None
         | Some True \<Rightarrow> map_option (\<lambda>n. Some (take n (drop p mem))) (cstrlen (drop p mem))
         | Some False \<Rightarrow>
             (case cstrlen (take (e - p) (drop p mem)) of
                None \<Rightarrow> None
              | Some n \<Rightarrow> scan_paths mem e (p + n + 1)))
      else Some None)"
  by pat_completeness auto
termination by (relation "measure (\<lambda>(mem, e, p). e - p)") auto

declare scan_paths.simps [simp del]

definition suffix_filename :: "os_t \<Rightarrow> bytes \<Rightarrow> bytes option" where
  "suffix_filename os filename =
     (let adj_filename = take (PATH_MAX - 1) (filename @ cstr ''.exe'');
          use_filename = (if os_stat os adj_filename then adj_filename else filename)
      in if length use_filename + 1 \<le> PATH_MAX then Some use_filename else None)"

definition get_build_dir :: "os_t \<Rightarrow> bytes \<Rightarrow> bytes option" where
  "get_build_dir os filename =
     Option.bind (suffix_filename os filename) (\<lambda>adj_filename.
       case mmap_file os adj_filename of
         None \<Rightarrow> Some []
       | Some mem \<Rightarrow>
           Option.bind (elf_find_debug_header mem) (\<lambda>debug_header.
             case debug_header of
               None \<Rightarrow> Some []
             | Some h \<Rightarrow>
                 Option.bind (rd32 mem (h + 16)) (\<lambda>sh_offset.
                 Option.bind (rd32 mem (h + 20)) (\<lambda>sh_size.
                 Option.bind (scan_paths mem (sh_offset + sh_size) sh_offset) (\<lambda>r.
                   Some (case r of None \<Rightarrow> [] | Some dir \<Rightarrow> take (PATH_MAX - 1) dir))))))"

section \<open>The digest of a file\<close>

text \<open>The reads of a regular file, 1024 bytes at a time.\<close>

function read_chunks :: "bytes \<Rightarrow> bytes list" where
  "read_chunks f = (if f = [] then [] else take 1024 f # read_chunks (drop 1024 f))"
  by pat_completeness auto
termination by (relation "measure length") auto

declare read_chunks.simps [simp del]

text \<open>The state is an automatic variable; its buffer starts as it was.\<close>

definition get_file_md5sum :: "os_t \<Rightarrow> md5_state_t \<Rightarrow> bytes \<Rightarrow> bytes" where
  "get_file_md5sum os pms filename =
     (let st = md5_init pms;
          st = (case os_file os filename of
                  Some f \<Rightarrow> fold (\<lambda>c s. md5_append s c) (read_chunks f) st
                | None \<Rightarrow> st)
      in md5_finish st)"

definition stack_state :: md5_state_t where
  "stack_state = \<lparr>md_count0 = 0, md_count1 = 0, md_abcd = (0, 0, 0, 0), md_buf = replicate 64 0\<rparr>"

section \<open>One binary\<close>

record binary_ack =
  ba_type :: u32
  ba_binpath :: bytes
  ba_digest :: bytes

definition basename :: "bytes \<Rightarrow> bytes option" where
  "basename filename =
     (if 47 \<in> set filename then Some (rev (takeWhile (\<lambda>c. c \<noteq> 47) (rev filename))) else None)"

definition check_windows_path :: "bytes \<Rightarrow> bool" where
  "check_windows_path path \<longleftrightarrow>
     length path > 3 \<and> isalpha (path ! 0) \<and> path ! 1 = 58 \<and> path ! 2 = 92"

definition binary_ack_alloc :: "os_t \<Rightarrow> bytes \<Rightarrow> binary_ack option" where
  "binary_ack_alloc os filename =
     (if os_stat os filename then
        (let ty = get_binary_type os filename in
         Option.bind (if ty \<noteq> BINARY_TYPE_UNKNOWN then get_build_dir os filename else Some []) (\<lambda>builddir.
           let base = (case basename filename of Some b \<Rightarrow> b | None \<Rightarrow> []);
               binpath = (if builddir \<noteq> [] then
                            take (PATH_MAX - 1)
                              (builddir @ [if check_windows_path builddir then 92 else 47] @ base)
                          else [])
           in Some \<lparr>ba_type = ty, ba_binpath = binpath,
                    ba_digest = get_file_md5sum os stack_state filename\<rparr>))
      else Some \<lparr>ba_type = BINARY_TYPE_FILE_NOT_EXIST, ba_binpath = filename, ba_digest = replicate 16 0\<rparr>)"

definition binary_ack_size :: "binary_ack \<Rightarrow> u32" where
  "binary_ack_size ba = 4 + of_nat (length (ba_binpath ba)) + 1 + 2 * 16 + 1"

definition hex_digit :: "byte \<Rightarrow> byte" where
  "hex_digit v = (if v < 10 then 48 + v else 87 + v)"

definition hex2 :: "byte \<Rightarrow> bytes" where
  "hex2 v = [hex_digit (v div 16), hex_digit (v mod 16)]"

definition binary_ack_pack :: "binary_ack \<Rightarrow> bytes" where
  "binary_ack_pack ba = le32 (ba_type ba) @ ba_binpath ba @ [0] @ concat (map hex2 (ba_digest ba)) @ [0]"

section \<open>The request\<close>

text \<open>The paths in the message, and the answer for each; a missing path ends the loop.\<close>

primrec binary_acks :: "os_t \<Rightarrow> nat \<Rightarrow> msg_buf_t \<Rightarrow> binary_ack list pres" where
  "binary_acks os 0 b = POk [] b"
| "binary_acks os (Suc n) b =
     pbind (parse_string_inplace b) (\<lambda>str b.
       case binary_ack_alloc os str of
         None \<Rightarrow> PFault
       | Some new \<Rightarrow> pbind (binary_acks os n b) (\<lambda>acks b. POk (new # acks) b))"

definition bad_binary :: "binary_ack \<Rightarrow> bool" where
  "bad_binary ba \<longleftrightarrow> ba_type ba = BINARY_TYPE_FILE_NOT_EXIST \<or> ba_type ba = BINARY_TYPE_UNKNOWN"

definition binary_reply :: "binary_ack list \<Rightarrow> u32 \<Rightarrow> bytes option" where
  "binary_reply acks bincount =
     (let error_code = (if \<exists>a \<in> set acks. bad_binary a then ERR_WRONG_MESSAGE_DATA else ERR_NO);
          total_size = (\<Sum>a\<leftarrow>acks. binary_ack_size a)
      in map_option (\<lambda>pl. le32 (msg_val NMSG_BINARY_INFO_ACK) @ le32 (total_size + 4 + 4) @ pl)
           (fill_block 0 (unat (total_size + 4 + 4))
              (le32 (word_of_int (err_val error_code)) @ le32 bincount
                 @ concat (map binary_ack_pack acks))))"

definition process_msg_binary_info :: "os_t \<Rightarrow> msg_buf_t \<Rightarrow> da_t \<Rightarrow> (int \<times> da_t) run" where
  "process_msg_binary_info os b d =
     (case parse_int32 b of
        PFault \<Rightarrow> Faults
      | PFail \<Rightarrow> Ret (-1, d)
      | POk bincount b \<Rightarrow>
          if \<not> os_stack os (4 * unat bincount) then Faults
          else case binary_acks os (unat bincount) b of
            PFault \<Rightarrow> Faults
          | PFail \<Rightarrow> Ret (-1, d)
          | POk acks b \<Rightarrow> rbind (of_option (binary_reply acks bincount)) (\<lambda>msg. Ret (send_reply os msg d)))"

section \<open>Facts\<close>

lemma concat_read_chunks: "concat (read_chunks f) = f"
proof (induction f rule: read_chunks.induct)
  case (1 f)
  then show ?case by (subst read_chunks.simps) simp
qed

lemma length_read_chunks: "c \<in> set (read_chunks f) \<Longrightarrow> length c \<le> 1024"
proof (induction f rule: read_chunks.induct)
  case (1 f)
  then show ?case by (subst (asm) (2) read_chunks.simps) (auto split: if_splits)
qed

text \<open>Read in pieces and hashed piece by piece: the digest is that of the file.\<close>

lemma file_md5:
  assumes "length (md_buf st) = 64"
  shows "get_file_md5sum os st filename = md5 (case os_file os filename of Some f \<Rightarrow> f | None \<Rightarrow> [])"
proof -
  have "md5_finish (fold (\<lambda>c s. md5_append s c) (read_chunks f) (md5_init st)) = md5 f" for f
  proof (rule md5_finish_state)
    have "\<forall>c \<in> set (read_chunks f). length c < 2 ^ 28"
      by (auto dest: length_read_chunks)
    from md5_fold_state [OF md5_init_state [OF assms] this]
    show "md5_state (fold (\<lambda>c s. md5_append s c) (read_chunks f) (md5_init st)) f"
      by (simp add: concat_read_chunks)
  qed
  then show ?thesis
    using md5_finish_state [OF md5_init_state [OF assms]]
    by (simp add: get_file_md5sum_def Let_def split: option.split)
qed

lemma length_regs_bytes [simp]: "length (regs_bytes r) = 16"
  by (cases r) simp

lemma length_md5 [simp]: "length (md5 m) = 16"
  by (simp add: md5_def)

lemma length_hex: "length (concat (map hex2 bs)) = 2 * length bs"
  by (induction bs) (auto simp: hex2_def)

lemma ack_digest: "binary_ack_alloc os f = Some a \<Longrightarrow> length (ba_digest a) = 16"
  by (auto simp: binary_ack_alloc_def Let_def bind_eq_Some_conv file_md5 stack_state_def split: if_splits)

lemma length_binary_ack_pack:
  "length (ba_digest a) = 16 \<Longrightarrow> of_nat (length (binary_ack_pack a)) = binary_ack_size a"
  by (simp add: binary_ack_pack_def binary_ack_size_def length_hex)

lemma binary_ack_fits:
  assumes "\<forall>a \<in> set acks. \<exists>f. binary_ack_alloc os f = Some a"
  shows "(\<Sum>a\<leftarrow>acks. binary_ack_size a) = of_nat (length (concat (map binary_ack_pack acks)))"
  using assms
proof (induction acks)
  case (Cons a acks)
  then have "length (ba_digest a) = 16" using ack_digest by auto
  with Cons length_binary_ack_pack [of a] show ?case by simp
qed simp

section \<open>Properties\<close>

text \<open>
  The digest in the answer for an existing file is the digest of its contents, those of an empty
  file when it cannot be opened; a missing file gets sixteen zero bytes.
\<close>

theorem file_digest:
  assumes "binary_ack_alloc os filename = Some a"
  shows "ba_digest a = (if os_stat os filename
     then md5 (case os_file os filename of Some f \<Rightarrow> f | None \<Rightarrow> []) else replicate 16 0)"
  using assms file_md5 [of stack_state os filename]
  by (auto simp: binary_ack_alloc_def Let_def bind_eq_Some_conv stack_state_def split: if_splits)

definition sample_elf_os :: "bytes \<Rightarrow> os_t" where
  "sample_elf_os f = (sample_os 0)\<lparr>os_stat := \<lambda>p. p = [47, 97], os_file := \<lambda>_. Some f\<rparr>"

theorem file_digest_witness:
  "map_option ba_digest (binary_ack_alloc (sample_elf_os [1, 2, 3]) [47, 97]) = Some (md5 [1, 2, 3])"
proof -
  have "get_binary_type (sample_elf_os [1, 2, 3]) [47, 97] = BINARY_TYPE_UNKNOWN"
    by (simp add: get_binary_type_def elf_type_def read_elf_header_def sample_elf_os_def sizeof_Ehdr_def
        ET_DYN_def ET_EXEC_def)
  then obtain a where a: "binary_ack_alloc (sample_elf_os [1, 2, 3]) [47, 97] = Some a"
    by (simp add: binary_ack_alloc_def Let_def) (simp add: sample_elf_os_def)
  from file_digest [OF a] a show ?thesis by (simp add: sample_elf_os_def)
qed



text \<open>
  Nothing checks an ELF file before its offsets are followed: a file whose section table lies
  outside of it makes the daemon read outside of the mapping.
\<close>

theorem section_table_outside:
  assumes "os_stat os f" "\<not> os_stat os (take (PATH_MAX - 1) (f @ cstr ''.exe''))" "length f < PATH_MAX"
    and "get_binary_type os f \<noteq> BINARY_TYPE_UNKNOWN"
    and "mmap_file os f = Some mem" "rd32 mem 32 = Some e_shoff" "length mem \<le> e_shoff"
  shows "binary_ack_alloc os f = None"
proof -
  have "suffix_filename os f = Some f" using assms(2,3) by (simp add: suffix_filename_def Let_def)
  moreover have "rd32 mem (e_shoff + k) = None" for k using assms(7) by (simp add: rd32_def)
  then have "elf_find_debug_header mem = None"
    using assms(6) by (auto simp: elf_find_debug_header_def bind_eq_None_conv add.assoc)
  ultimately have "get_build_dir os f = None" using assms(5) by (simp add: get_build_dir_def)
  then show ?thesis using assms(1,4) by (simp add: binary_ack_alloc_def Let_def)
qed

theorem section_table_outside_witness:
  "binary_ack_alloc (sample_elf_os (replicate 16 0 @ [2, 0] @ replicate 14 0 @ [0, 32, 0, 0] @ replicate 16 0)) [47, 97] = None"
proof -
  let ?f = "replicate 16 0 @ [2, 0] @ replicate 14 0 @ [0, 32, 0, 0] @ replicate 16 0 :: bytes"
  let ?os = "sample_elf_os ?f"
  have "get_binary_type ?os [47, 97] = BINARY_TYPE_NO_PIE"
    by (simp add: get_binary_type_def elf_type_def read_elf_header_def sample_elf_os_def sizeof_Ehdr_def
        ET_DYN_def ET_EXEC_def)
  then have "get_binary_type ?os [47, 97] \<noteq> BINARY_TYPE_UNKNOWN"
    by (simp add: BINARY_TYPE_NO_PIE_def BINARY_TYPE_UNKNOWN_def)
  moreover have "mmap_file ?os [47, 97] = Some (?f @ replicate 4044 0)"
    by (simp add: mmap_file_def sample_elf_os_def PAGE_SIZE_def)
  moreover have "rd32 (?f @ replicate 4044 0) 32 = Some 8192"
    by (simp add: rd32_def)
  moreover have "os_stat ?os [47, 97]" "\<not> os_stat ?os (take (PATH_MAX - 1) ([47, 97] @ cstr ''.exe''))"
    "length [47, 97 :: byte] < PATH_MAX"
    by (simp_all add: sample_elf_os_def PATH_MAX_def cstr_def)
  ultimately show ?thesis
    by (intro section_table_outside) auto
qed

end
