(* ===== verification/Handler.thy ===== *)
theory Handler
  imports Session_Inv Binary_Info
begin

text \<open>
  The dispatch of the host's requests (\<^verbatim>\<open>host_message_handler\<close> in \<^verbatim>\<open>daemon/da_protocol.c\<close>). A received
  message is its block, header and payload. What \<^verbatim>\<open>fill_target_info\<close> reads from the system is a
  parameter.
\<close>

section \<open>Lists of paths for the targets\<close>

text \<open>
  \<^verbatim>\<open>send_maps_inst_msg_to\<close> and \<^verbatim>\<open>send_maps_inst_msg_to_all_targets\<close> (\<^verbatim>\<open>daemon/da_inst.c\<close>). The message
  pointer is NULL until the first list has been made; the loop over the slots takes its length only
  when a slot is in use.
\<close>

definition maps_block :: "maps_msg \<Rightarrow> bytes" where
  "maps_block m = le32 (maps_type m) @ le32 (maps_length m) @ maps_data m"

definition send_maps_inst_msg_to :: "os_t \<Rightarrow> nat \<Rightarrow> da_t \<Rightarrow> da_t run" where
  "send_maps_inst_msg_to os i d =
     (case lib_maps_message (s_inst d) of
        None \<Rightarrow> Faults
      | Some m \<Rightarrow> Ret (snd (target_send_msg os i (maps_block m) (maps_length m) d)))"

definition send_maps_inst_msg_to_all_targets :: "os_t \<Rightarrow> da_t \<Rightarrow> da_t run" where
  "send_maps_inst_msg_to_all_targets os d =
     (case lib_maps_message (s_inst d) of
        None \<Rightarrow> if True \<in> set (tg_use d) then Faults else Ret d
      | Some m \<Rightarrow> Ret (snd (target_send_msg_to_all os (maps_block m) (maps_length m) d)))"

section \<open>Requests\<close>

definition msg_block :: "msg_t \<Rightarrow> bytes" where
  "msg_block m = le32 (msg_id m) @ le32 (msg_len m) @ msg_payload m"

definition send_ack :: "os_t \<Rightarrow> u32 \<Rightarrow> ErrorCode \<Rightarrow> int \<Rightarrow> da_t \<Rightarrow> (int \<times> da_t) run" where
  "send_ack os resp error_code r d =
     rbind (sendACKToHost os resp error_code [] d) (\<lambda>(_, d). Ret (r, d))"

text \<open>The exit by the label \<^verbatim>\<open>send_ack\<close>, which returns \<^verbatim>\<open>error_code == ERR_NO\<close>.\<close>

definition exit_ack :: "os_t \<Rightarrow> u32 \<Rightarrow> ErrorCode \<Rightarrow> da_t \<Rightarrow> (int \<times> da_t) run" where
  "exit_ack os resp error_code d = send_ack os resp error_code (if error_code = ERR_NO then 1 else 0) d"

definition process_msg_get_screenshot :: "os_t \<Rightarrow> da_t \<Rightarrow> int \<times> da_t" where
  "process_msg_get_screenshot os d =
     (let (r, d) = target_send_msg_to_all os (target_msg MSG_CAPTURE_SCREEN []) 0 d;
          err_code = (if r = 1 then ERR_NO else ERR_UNKNOWN)
      in (if err_code \<noteq> ERR_NO then -1 else 0, d))"

text \<open>The features in the form of the kernel: the bit of the energy feature moves.\<close>

definition convert_features :: "u64 \<Rightarrow> u64" where
  "convert_features f =
     (if f AND fl FL_SYSTEM_ENERGY \<noteq> 0
      then (f AND NOT (fl FL_SYSTEM_ENERGY)) OR FL_SYSTEM_ENERGY_OLD
      else (f AND NOT (fl FL_SYSTEM_ENERGY)) AND NOT (FL_SYSTEM_ENERGY_OLD))"

definition option_msg :: "u64 \<Rightarrow> bytes" where
  "option_msg features = target_msg MSG_OPTION (decimal (unat features) @ [0])"

definition send_option_to_all :: "os_t \<Rightarrow> da_t \<Rightarrow> da_t" where
  "send_option_to_all os d =
     (let f = use_features0 (s_conf d) in
      snd (target_send_msg_to_all os (option_msg f) (of_nat (length (decimal (unat f)) + 1)) d))"

definition handle_config :: "os_t \<Rightarrow> msg_t \<Rightarrow> da_t \<Rightarrow> (int \<times> da_t) run" where
  "handle_config os msg d =
     (case parse_msg_config (init_parse_control msg) of
        PFault \<Rightarrow> Faults
      | PFail \<Rightarrow> send_ack os (msg_id msg) ERR_WRONG_MESSAGE_FORMAT (-1) d
      | POk conf _ \<Rightarrow>
          (let (r, d) = reconfigure os conf d in
           if r \<noteq> 0 then Ret (-1, d)
           else
             (let feature0 = convert_features (le_dec (take 8 (msg_payload msg)));
                  msg = msg\<lparr>msg_payload := le64 feature0 @ drop 8 (msg_payload msg)\<rparr>;
                  (r, d) = ioctl_send_msg os (msg_block msg) d in
              if r \<noteq> 0 then send_ack os (msg_id msg) ERR_UNKNOWN (-1) d
              else
                rbind (send_ack os (msg_id msg) ERR_NO 0 d) (\<lambda>(_, d).
                  Ret (0, send_option_to_all os d)))))"

text \<open>The outcome of an add or remove request: the lists, and the paths for the targets.\<close>

definition apply_inst :: "os_t \<Rightarrow> inst_t \<times> inst_out \<Rightarrow> da_t \<Rightarrow> (inst_out \<times> da_t) run" where
  "apply_inst os r d =
     (let d = d\<lparr>s_inst := fst r\<rparr> in
      if out_maps (snd r) then rbind (send_maps_inst_msg_to_all_targets os d) (\<lambda>d. Ret (snd r, d))
      else Ret (snd r, d))"

definition out_code :: "inst_out \<Rightarrow> ErrorCode" where
  "out_code out = (case out_err out of Some e \<Rightarrow> e | None \<Rightarrow> ERR_UNKNOWN)"

definition handle_inst_add :: "os_t \<Rightarrow> msg_t \<Rightarrow> da_t \<Rightarrow> (int \<times> da_t) run" where
  "handle_inst_add os msg d =
     rbind (of_option (msg_swap_inst_add (os_stat os) (os_realpath os) (init_parse_control msg) (s_inst d)))
       (\<lambda>r. rbind (apply_inst os r d) (\<lambda>(out, d).
     if out_res out \<noteq> 0 then exit_ack os (msg_id msg) (out_code out) d
     else case out_msg out of
       None \<Rightarrow> exit_ack os (msg_id msg) (out_code out) d
     | Some m \<Rightarrow>
         (let (r, d) = ioctl_send_msg os m d in
          exit_ack os (msg_id msg) (if r \<noteq> 0 then ERR_UNKNOWN else out_code out) d)))"

definition handle_inst_remove :: "os_t \<Rightarrow> msg_t \<Rightarrow> da_t \<Rightarrow> (int \<times> da_t) run" where
  "handle_inst_remove os msg d =
     rbind (of_option (msg_swap_inst_remove (os_stat os) (os_realpath os) (init_parse_control msg) (s_inst d)))
       (\<lambda>r. rbind (apply_inst os r d) (\<lambda>(out, d).
     if out_res out \<noteq> 0 then exit_ack os (msg_id msg) ERR_UNKNOWN d
     else case out_msg out of
       None \<Rightarrow> exit_ack os (msg_id msg) ERR_UNKNOWN d
     | Some m \<Rightarrow>
         (let (r, d) = ioctl_send_msg os m d in
          exit_ack os (msg_id msg) (if r \<noteq> 0 then ERR_UNKNOWN else out_code out) d)))"

text \<open>The reply fills the block that is allocated for it.\<close>

definition handle_target_info :: "os_t \<Rightarrow> (io list \<Rightarrow> target_info_t) \<Rightarrow> msg_t \<Rightarrow> da_t \<Rightarrow> (int \<times> da_t) run" where
  "handle_target_info os fill_target_info msg d =
     (case gen_target_info_reply (fill_target_info (trace d)) of
        None \<Rightarrow> Faults
      | Some msg_reply \<Rightarrow>
          if \<not> os_malloc os (of_nat (length msg_reply)) then send_ack os (msg_id msg) ERR_UNKNOWN (-1) d
          else Ret (0, snd (send_reply os msg_reply d)))"

definition handle_stop :: "os_t \<Rightarrow> msg_t \<Rightarrow> da_t \<Rightarrow> (int \<times> da_t) run" where
  "handle_stop os msg d =
     rbind (send_ack os (msg_id msg) ERR_NO 0 d) (\<lambda>(_, d).
     rbind (stop_all os d) (\<lambda>(e, d).
     Ret (0, if e \<noteq> ERR_NO then write_msg_error os (cstr ''Stop failed'') d else d)))"

definition host_message_handler :: "os_t \<Rightarrow> (io list \<Rightarrow> target_info_t) \<Rightarrow> msg_t \<Rightarrow> da_t \<Rightarrow> (int \<times> da_t) run" where
  "host_message_handler os fill_target_info msg d =
     (let ty = msg_id msg; msg_control = init_parse_control msg in
      if ty = msg_val NMSG_KEEP_ALIVE then send_ack os ty ERR_NO 0 d
      else if ty = msg_val NMSG_START then process_msg_start os msg_control d
      else if ty = msg_val NMSG_STOP then handle_stop os msg d
      else if ty = msg_val NMSG_CONFIG then handle_config os msg d
      else if ty = msg_val NMSG_BINARY_INFO then process_msg_binary_info os msg_control d
      else if ty = msg_val NMSG_SWAP_INST_ADD then handle_inst_add os msg d
      else if ty = msg_val NMSG_SWAP_INST_REMOVE then handle_inst_remove os msg d
      else if ty = msg_val NMSG_GET_TARGET_INFO then handle_target_info os fill_target_info msg d
      else if ty = msg_val NMSG_GET_SCREENSHOT then Ret (process_msg_get_screenshot os d)
      else if ty = msg_val NMSG_GET_PROCESS_ADD_INFO then process_msg_get_process_add_info os msg_control d
      else exit_ack os ty ERR_WRONG_MESSAGE_TYPE d)"

section \<open>Facts\<close>

text \<open>The kernel's form of the features: bit 26 is the energy bit, bit 44 is clear, the rest is as it was.\<close>

lemma convert_features_bit:
  "bit (convert_features f) n = (if n = 44 then False else if n = 26 then bit f 44 else bit f n)"
proof -
  have e: "fl FL_SYSTEM_ENERGY = 2 ^ 44" and o: "FL_SYSTEM_ENERGY_OLD = 2 ^ 26"
    by (simp_all add: FL_SYSTEM_ENERGY_OLD_def)
  have b: "bit (2 ^ 44 :: u64) n \<longleftrightarrow> n = 44" "bit (2 ^ 26 :: u64) n \<longleftrightarrow> n = 26"
    by (auto simp only: bit_exp_iff) simp_all
  have z: "f AND 2 ^ 44 = 0 \<longleftrightarrow> \<not> bit f 44"
    by (rule and_exp_eq_0_iff_not_bit)
  have l: "bit f n \<Longrightarrow> n < 64"
    using bit_imp_le_length [of f n] by simp
  show ?thesis
    unfolding convert_features_def e o z
    by (auto simp only: bit_and_iff bit_or_iff bit_not_iff b split: if_splits) (use l in simp_all)
qed

lemma send_ack_known:
  assumes "m_control_socket d \<noteq> -1" "get_ack_msg_id resp = Some i"
  shows "send_ack os resp e r d = Ret (r, emit (Send (m_control_socket d) (ack_msg i (word_of_int (err_val e)) [])) d)"
  using sendACK_known [OF assms, of os e "[]"] by (auto simp: send_ack_def)

lemma length_decimal: "n < 10 ^ k \<Longrightarrow> 0 < k \<Longrightarrow> length (decimal n) \<le> k"
proof (induction k arbitrary: n)
  case (Suc k)
  show ?case
  proof (cases "n < 10")
    case False
    then have "0 < k" using Suc.prems by (cases k) auto
    moreover have "n div 10 < 10 ^ k" using Suc.prems(1) by (simp add: less_mult_imp_div_less mult.commute)
    ultimately show ?thesis using Suc.IH [of "n div 10"] False by (simp add: decimal.simps [of n])
  qed (simp add: decimal.simps [of n])
qed simp

lemma length_decimal_u64: "length (decimal (unat (f :: u64))) \<le> 20"
  by (rule length_decimal) (use unsigned_less [of f, where 'a = nat] in simp_all)

text \<open>The option goes to every target in use; its block is complete.\<close>

lemma send_option_to_all_effect:
  "trace (send_option_to_all os d) =
     trace d @ map (\<lambda>i. Send (t_socket (target_get i d)) (option_msg (use_features0 (s_conf d))))
       (filter (\<lambda>i. tg_use d ! i) [0..<MAX_TARGET_COUNT])"
  "s_conf (send_option_to_all os d) = s_conf d"
proof -
  let ?f = "use_features0 (s_conf d)"
  let ?n = "length (decimal (unat ?f))"
  let ?l = "of_nat (?n + 1) :: u32"
  have "?n \<le> 20" by (rule length_decimal_u64)
  then have "unat (8 + ?l) = 9 + ?n" by (simp add: unat_word_ariths unat_of_nat)
  moreover have "length (option_msg ?f) = 9 + ?n" by (simp add: option_msg_def target_msg_def)
  ultimately have u: "unat (8 + ?l) = length (option_msg ?f)" by simp
  note * = send_slots_trace [of ?l "option_msg ?f" os "[0..<MAX_TARGET_COUNT]" 0 d, unfolded u, OF order_refl]
  show "trace (send_option_to_all os d) =
     trace d @ map (\<lambda>i. Send (t_socket (target_get i d)) (option_msg ?f))
       (filter (\<lambda>i. tg_use d ! i) [0..<MAX_TARGET_COUNT])"
    using * by (simp add: send_option_to_all_def target_send_msg_to_all_def Let_def)
  have "s_conf x = s_conf (x\<lparr>trace := []\<rparr>)" for x :: da_t by simp
  then show "s_conf (send_option_to_all os d) = s_conf d"
    using conjunct2 [OF *] unfolding send_option_to_all_def target_send_msg_to_all_def Let_def by metis
qed

section \<open>Properties\<close>

text \<open>The configuration as the driver gets it: the request's bytes with the converted features.\<close>

definition kernel_conf :: "msg_t \<Rightarrow> conf_t \<Rightarrow> bytes" where
  "kernel_conf msg c =
     msg_block (msg\<lparr>msg_payload := le64 (convert_features (use_features0 c)) @ drop 8 (msg_payload msg)\<rparr>)"

text \<open>
  C8. A valid configuration request, when the sampling thread starts and the driver takes the message,
  becomes the session's configuration; then the driver has got the request with the features in its own
  form (the energy bit 44 moved to bit 26 and every other bit unchanged), the host its acknowledgement,
  and every target in use the features in decimal.
\<close>

theorem config_request:
  assumes "wf_buf (init_parse_control msg)" "msg_payload msg = enc_conf c @ rest" "check_conf c"
    and "msg_id msg = msg_val NMSG_CONFIG" "m_control_socket d \<noteq> -1"
    and "reconfigure os c d = (0, d1)" "os_ret os (trace d1) (Ioctl_msg (kernel_conf msg c)) \<noteq> -1"
    and "session_inv d"
  shows "\<exists>d'. host_message_handler os fill_target_info msg d = Ret (0, d') \<and> s_conf d' = c
    \<and> trace d' = trace d1 @ [Ioctl_msg (kernel_conf msg c),
        Send (m_control_socket d) (ack_msg (msg_val NMSG_CONFIG_ACK) (word_of_int (err_val ERR_NO)) [])]
      @ map (\<lambda>i. Send (t_socket (target_get i d1)) (option_msg (use_features0 c)))
          (filter (\<lambda>i. tg_use d1 ! i) [0..<MAX_TARGET_COUNT])
    \<and> (\<forall>n. bit (convert_features (use_features0 c)) n =
        (if n = 44 then False else if n = 26 then bit (use_features0 c) 44 else bit (use_features0 c) n))"
proof -
  let ?b = "kernel_conf msg c"
  let ?d2 = "emit (Ioctl_msg ?b) d1"
  let ?ack = "ack_msg (msg_val NMSG_CONFIG_ACK) (word_of_int (err_val ERR_NO)) []"
  let ?d3 = "emit (Send (m_control_socket d) ?ack) ?d2"
  note f = reconfigure_inv [OF assms(8,6)]
  have p: "parse_msg_config (init_parse_control msg) = POk c (advance 24 (init_parse_control msg))"
    using parse_conf_enc [OF assms(1), of c rest] assms(2,3) by (simp add: parse_msg_config_def)
  have k: "msg_block (msg\<lparr>msg_payload := le64 (convert_features (le_dec (take 8 (msg_payload msg)))) @
      drop 8 (msg_payload msg)\<rparr>) = ?b"
    by (simp add: kernel_conf_def assms(2) enc_conf_def)
  have i: "ioctl_send_msg os ?b d1 = (0, ?d2)" using assms(7) by (simp add: ioctl_send_msg_def sys_def)
  have "get_ack_msg_id (msg_val NMSG_CONFIG) = Some (msg_val NMSG_CONFIG_ACK)" by (simp add: get_ack_msg_id_def)
  from send_ack_known [OF _ this, of ?d2 os ERR_NO 0] assms(5) f(5)
  have a: "send_ack os (msg_id msg) ERR_NO 0 ?d2 = Ret (0, ?d3)" by (simp add: assms(4))
  have "host_message_handler os fill_target_info msg d = handle_config os msg d"
    by (simp add: host_message_handler_def assms(4))
  also have "\<dots> = Ret (0, send_option_to_all os ?d3)"
    by (simp add: handle_config_def p assms(6) k i a)
  finally show ?thesis
    using send_option_to_all_effect [of os ?d3] f(2) by (simp add: convert_features_bit)
qed

definition sample_config_msg :: msg_t where
  "sample_config_msg =
     \<lparr>msg_id = msg_val NMSG_CONFIG, msg_len = 24, msg_payload = enc_conf sample_conf\<rparr>"

definition sample_target_info :: target_info_t where
  "sample_target_info =
     \<lparr>sys_mem_size = 512, storage_size = 1024, bluetooth_supp = 1, gps_supp = 0, wifi_supp = 1,
      camera_count = 1, network_type = [], max_brightness = 100, cpu_core_count = 2\<rparr>"

lemma sample_conf_valid: "check_conf sample_conf"
  by (simp add: check_conf_def sample_conf_def check_conf_features_def FL_ALL_FEATURES_def
      check_conf_systrace_period_def check_conf_datamsg_period_def limit_defs)

lemma sample_connected: "session_inv (manager0\<lparr>m_control_socket := 5\<rparr>)"
  using manager0_inv by (simp add: session_inv_def option_set_def pool_ok_def target_get_def manager0_def)

theorem config_request_witness:
  "\<exists>d'. host_message_handler (sample_os 0) (\<lambda>_. sample_target_info) sample_config_msg (manager0\<lparr>m_control_socket := 5\<rparr>) = Ret (0, d')
     \<and> s_conf d' = sample_conf"
proof -
  let ?d = "manager0\<lparr>m_control_socket := 5\<rparr>"
  have "fst (reconfigure (sample_os 0) sample_conf ?d) = 0"
    by (simp add: reconfigure_def samplingStart_def reconfigure_recording_def Let_def sys_def split: prod.splits)
  then obtain d1 where r: "reconfigure (sample_os 0) sample_conf ?d = (0, d1)" by (metis prod.collapse)
  have m: "wf_buf (init_parse_control sample_config_msg)" "msg_payload sample_config_msg = enc_conf sample_conf @ []"
    "msg_id sample_config_msg = msg_val NMSG_CONFIG" "m_control_socket ?d \<noteq> -1"
    by (simp_all add: sample_config_msg_def wf_buf_def init_parse_control_def enc_conf_def HOST_CTL_MSG_MAX_LEN_def)
  from config_request [OF m(1,2) sample_conf_valid m(3,4) r _ sample_connected, of "\<lambda>_. sample_target_info"]
  show ?thesis by auto
qed

text \<open>
  Once a host is connected, a request whose number the daemon does not know ends the whole process:
  the acknowledgement that should report the wrong type has no number of its own.
\<close>

theorem unknown_request_exits:
  assumes "msg_id msg \<notin> range msg_val" "m_control_socket d \<noteq> -1"
  shows "host_message_handler os fill_target_info msg d = Exits d"
proof -
  have k: "msg_id msg \<noteq> msg_val m" for m using assms(1) by auto
  then have "msg_id msg \<notin> msg_val ` set acked_requests" by auto
  then have "get_ack_msg_id (msg_id msg) = None" by (simp only: get_ack_msg_id_iff simp_thms)
  from sendACK_unknown [OF assms(2) this]
  have "exit_ack os (msg_id msg) ERR_WRONG_MESSAGE_TYPE d = Exits d"
    by (simp add: exit_ack_def send_ack_def)
  with k show ?thesis by (simp only: host_message_handler_def Let_def if_False)
qed

theorem unknown_request_exits_witness:
  "host_message_handler (sample_os 0) (\<lambda>_. sample_target_info) \<lparr>msg_id = 0x42, msg_len = 0, msg_payload = []\<rparr>
     (manager0\<lparr>m_control_socket := 5\<rparr>) = Exits (manager0\<lparr>m_control_socket := 5\<rparr>)"
proof -
  have "(0x42 :: u32) \<noteq> msg_val m" for m by (cases m) simp_all
  then show ?thesis by (intro unknown_request_exits) auto
qed

text \<open>
  C35. The list of paths is sent with the size of its whole block as the payload length: a target gets
  the block and then up to eight bytes of whatever lies behind it in memory.
\<close>

theorem maps_over_read:
  assumes "length (enc_paths (maps_paths realpath us)) + 16 < 2 ^ 32"
    and "generate_maps_inst_msg realpath us = Some m" "lib_maps_message (s_inst d) = Some m"
  shows "\<exists>d'. send_maps_inst_msg_to os i d = Ret d' \<and>
    trace d' = trace d @ [Send (t_socket (target_get i d))
      (maps_block m @ take 8 (os_bytes os (trace d) (Send (t_socket (target_get i d)) (maps_block m))))]"
proof -
  let ?n = "length (enc_paths (maps_paths realpath us))"
  have m: "maps_length m = of_nat (8 + ?n)" "length (maps_block m) = 8 + ?n"
    using generate_maps_enc [of realpath us] assms(1,2) by (auto simp: maps_block_def)
  have "unat (8 + maps_length m) = 8 + (8 + ?n)"
    using assms(1) m(1) by (simp add: unat_word_ariths unat_of_nat)
  then have "send_bytes os sock (maps_block m) (unat (8 + maps_length m)) d =
      maps_block m @ take 8 (os_bytes os (trace d) (Send sock (maps_block m)))" for sock
    by (simp add: send_bytes_def m(2))
  then show ?thesis
    by (simp add: send_maps_inst_msg_to_def assms(3))
qed

text \<open>The lists are empty, and eight bytes with the value 7 lie behind the block.\<close>

theorem maps_over_read_witness:
  "\<exists>d'. send_maps_inst_msg_to ((sample_os 0)\<lparr>os_bytes := \<lambda>_ _. replicate 20 7\<rparr>) 3
      (manager0\<lparr>s_inst := (s_inst manager0)\<lparr>lib_maps_message :=
        Some \<lparr>maps_type = 109, maps_length = 12, maps_data = le32 0\<rparr>\<rparr>\<rparr>) = Ret d' \<and>
    trace d' = [Send 0 (le32 109 @ le32 12 @ le32 0 @ replicate 8 7)]"
proof -
  let ?us = "us_inst (s_inst manager0)"
  let ?m = "\<lparr>maps_type = 109, maps_length = 12, maps_data = le32 0\<rparr>"
  let ?d = "manager0\<lparr>s_inst := (s_inst manager0)\<lparr>lib_maps_message := Some ?m\<rparr>\<rparr>"
  have p: "maps_paths Some ?us = []" by (simp add: maps_paths_def manager0_def)
  then have e: "length (enc_paths (maps_paths Some ?us)) + 16 < 2 ^ 32" by (simp add: enc_paths_def)
  then have g: "generate_maps_inst_msg Some ?us = Some ?m"
    using generate_maps_enc [of Some ?us] p by (simp add: enc_paths_def MSG_MAPS_INST_LIST_def)
  have l: "lib_maps_message (s_inst ?d) = Some ?m" by simp
  have t: "t_socket (target_get 3 ?d) = 0" "trace ?d = []" "take 8 (replicate 20 7 :: bytes) = replicate 8 7"
    by (simp_all add: target_get_def manager0_def target0_def MAX_TARGET_COUNT_def take_replicate)
  from maps_over_read [OF e g l, of "(sample_os 0)\<lparr>os_bytes := \<lambda>_ _. replicate 20 7\<rparr>" 3]
  show ?thesis unfolding t maps_block_def by (simp add: t(3))
qed

end
