(* ===== verification/Recv_Thread.thy ===== *)
theory Recv_Thread
  imports Handler
begin

text \<open>
  The thread that receives the messages of a target (\<^verbatim>\<open>recvThread\<close> in \<^verbatim>\<open>daemon/threads.c\<close>,
  \<^verbatim>\<open>recv_msg_from_sock\<close> in \<^verbatim>\<open>daemon/da_protocol.c\<close>). The message buffer \<^verbatim>\<open>log\<close> is the bytes of
  \<^verbatim>\<open>struct msg_target_t\<close>: type, length and 4096 bytes of data. The lengths in a message are not
  checked before the bytes are received; bytes that go past the buffer are \<open>Faults\<close>.
\<close>

section \<open>Receiving a message\<close>

definition TARGER_MSG_MAX_LEN :: nat where "TARGER_MSG_MAX_LEN = 4096"
definition MSG_HEADER_LEN :: nat where "MSG_HEADER_LEN = 8"
definition MSG_DATA_HDR_LEN :: nat where "MSG_DATA_HDR_LEN = 20"
definition sizeof_msg_target :: nat where "sizeof_msg_target = 8 + TARGER_MSG_MAX_LEN"

definition log_type :: "bytes \<Rightarrow> u32" where "log_type log = le_dec (take 4 log)"
definition log_length :: "bytes \<Rightarrow> u32" where "log_length log = le_dec (take 4 (drop 4 log))"
definition log_data :: "bytes \<Rightarrow> bytes" where "log_data log = drop MSG_HEADER_LEN log"

text \<open>The last header member of \<^verbatim>\<open>struct msg_data_t\<close>.\<close>

definition data_len :: "bytes \<Rightarrow> u32" where "data_len log = le_dec (take 4 (drop 16 log))"

definition IS_PROBE_MSG :: "u32 \<Rightarrow> bool" where
  "IS_PROBE_MSG ty \<longleftrightarrow> ty AND 0x0100 = 0x0100"

text \<open>\<^verbatim>\<open>recv\<close> of up to \<open>n\<close> bytes to offset \<open>off\<close> of the buffer. It delivers at most \<open>n\<close> bytes.\<close>

definition recv_at :: "os_t \<Rightarrow> int \<Rightarrow> nat \<Rightarrow> u32 \<Rightarrow> bytes \<Rightarrow> da_t \<Rightarrow> (int \<times> bytes \<times> da_t) run" where
  "recv_at os sock off n log d =
     (let e = Recv sock (unat n);
          (ret, d') = sys os e d;
          got = (if ret \<le> 0 then [] else take (min (nat ret) (unat n)) (os_bytes os (trace d) e))
      in if off + length got > length log then Faults
         else Ret (ret, mem_put off got log, d'))"

definition recv_msg_from_sock :: "os_t \<Rightarrow> int \<Rightarrow> bytes \<Rightarrow> da_t \<Rightarrow> (int \<times> bytes \<times> da_t) run" where
  "recv_msg_from_sock os sock log d =
     rbind (recv_at os sock 0 (of_nat MSG_HEADER_LEN) log d) (\<lambda>(ret, log, d).
       if ret \<noteq> int MSG_HEADER_LEN then Ret (1, log, d)
       else if IS_PROBE_MSG (log_type log) then
         (let n = of_nat (MSG_DATA_HDR_LEN - MSG_HEADER_LEN) in
          rbind (recv_at os sock MSG_HEADER_LEN n log d) (\<lambda>(ret, log, d).
            if word_of_int ret \<noteq> n then Ret (1, log, d)
            else
              rbind (recv_at os sock MSG_DATA_HDR_LEN (data_len log) log d) (\<lambda>(ret, log, d).
                Ret (if word_of_int ret \<noteq> data_len log then 1 else 0, log, d))))
       else if log_length log > 0 then
         rbind (recv_at os sock MSG_HEADER_LEN (log_length log) log d) (\<lambda>(ret, log, d).
           Ret (if word_of_int ret \<noteq> log_length log then 1 else 0, log, d))
       else Ret (0, log, d))"

section \<open>Handling a message\<close>

definition MSG_IMAGE :: u32 where "MSG_IMAGE = 6"
definition MSG_TERMINATE :: u32 where "MSG_TERMINATE = 7"
definition MSG_PID :: u32 where "MSG_PID = 8"
definition MSG_MSG :: u32 where "MSG_MSG = 9"
definition MSG_ALLOC :: u32 where "MSG_ALLOC = 10"
definition MSG_ERROR :: u32 where "MSG_ERROR = 11"
definition MSG_WARNING :: u32 where "MSG_WARNING = 12"

definition EVENT_STOP :: u64 where "EVENT_STOP = 1"
definition EVENT_PID :: u64 where "EVENT_PID = 2"
definition EVENT_ERROR :: u64 where "EVENT_ERROR = 4"

text \<open>\<^verbatim>\<open>sscanf(s, "%d %d", ...)\<close> when both numbers are there.\<close>

definition scan_int :: "bytes \<Rightarrow> (int \<times> bytes) option" where
  "scan_int s = (let (v, rest) = strtol10 s in if rest = s then None else Some (v, rest))"

definition scan_two :: "bytes \<Rightarrow> (int \<times> int) option" where
  "scan_two s =
     Option.bind (scan_int s) (\<lambda>(v, rest). map_option (\<lambda>(w, _). (v, w)) (scan_int rest))"

definition chsmack :: "os_t \<Rightarrow> bytes \<Rightarrow> da_t \<Rightarrow> int \<times> da_t" where
  "chsmack os filename d =
     (let cmd = take 1023 (cstr ''chsmack -a sdbd '' @ [34] @ filename @ [34]);
          (pid, d) = sys os (Spawn [SHELL_CMD, SHELL_CMD, cstr ''-c'', cmd]) d in
      if pid = -1 then (1, d) else (0, emit Waitpid d))"

text \<open>The probe message at a pointer, as \<^verbatim>\<open>write_to_buf\<close> takes it: header and \<^verbatim>\<open>len\<close> bytes, 32 bits.\<close>

definition data_msg_at :: "bytes \<Rightarrow> nat \<Rightarrow> bytes option" where
  "data_msg_at log p =
     (if p + MSG_DATA_HDR_LEN > length log then None
      else (let total_len = unat (of_nat MSG_DATA_HDR_LEN + data_len (drop p log)) in
            if p + total_len > length log then None else Some (take total_len (drop p log))))"

text \<open>One round of the loop ends it, goes on, or waits for the main thread to see the first message.\<close>

datatype recv_out = Next bytes bool da_t | Stopped da_t | Waiting bytes da_t

definition send_event :: "nat \<Rightarrow> u64 \<Rightarrow> da_t \<Rightarrow> da_t" where
  "send_event i event d = emit (Event_write i event) d"

definition handle_pid :: "os_t \<Rightarrow> nat \<Rightarrow> bytes \<Rightarrow> bool \<Rightarrow> da_t \<Rightarrow> recv_out run" where
  "handle_pid os i log pass d =
     (let known = (t_pid (target_get i d) \<noteq> UNKNOWN_PID) in
      if known then rbind (send_maps_inst_msg_to os i d) (\<lambda>d. Ret (Next log pass d))
      else
        case scan_two (str_of_buf (log_data log)) of
          None \<Rightarrow> Ret (Stopped (send_event i EVENT_STOP d))
        | Some (pid, ppid) \<Rightarrow>
            (let d = upd_target i (\<lambda>t. t\<lparr>t_pid := pid, t_ppid := ppid\<rparr>) d;
                 d = send_event i EVENT_PID d in
             rbind (send_maps_inst_msg_to os i d) (\<lambda>d. Ret (Next log pass d))))"

definition handle_image :: "os_t \<Rightarrow> bytes \<Rightarrow> bool \<Rightarrow> da_t \<Rightarrow> recv_out run" where
  "handle_image os log pass d =
     (let file_name = str_of_buf (log_data log); (r, d) = chsmack os file_name d in
      if r = 0 then
        rbind (of_option (data_msg_at log (MSG_HEADER_LEN + min (length file_name) PATH_MAX + 1))) (\<lambda>m.
          Ret (Next log pass (snd (write_to_buf os m d))))
      else Ret (Next log pass d))"

definition recv_step :: "os_t \<Rightarrow> nat \<Rightarrow> bytes \<Rightarrow> bool \<Rightarrow> da_t \<Rightarrow> recv_out run" where
  "recv_step os i log pass d =
     rbind (recv_msg_from_sock os (t_socket (target_get i d)) log d) (\<lambda>(err, log, d).
     if err \<noteq> 0 \<or> log_length log \<ge> of_nat TARGER_MSG_MAX_LEN then Ret (Stopped (send_event i EVENT_STOP d))
     else if IS_PROBE_MSG (log_type log) then
       rbind (of_option (data_msg_at log 0)) (\<lambda>m. Ret (Next log pass (snd (write_to_buf os m d))))
     else
       (let log = mem_put (MSG_HEADER_LEN + unat (log_length log)) [0] log; ty = log_type log in
        if ty = MSG_ALLOC then
          Ret (Next log pass (upd_target i
            (\<lambda>t. t\<lparr>t_allocmem := sint (str_to_int64 (str_of_buf (log_data log)))\<rparr>) d))
        else if ty = MSG_PID then handle_pid os i log pass d
        else if ty = MSG_TERMINATE then Ret (Stopped (send_event i EVENT_STOP d))
        else if ty = MSG_MSG \<or> ty = MSG_ERROR \<or> ty = MSG_WARNING then Ret (Next log pass d)
        else if ty = MSG_IMAGE then handle_image os log pass d
        else if \<not> pass \<and> \<not> t_initial_log (target_get i d) then Ret (Waiting log d)
        else Ret (Next log True d)))"

text \<open>
  The thread over at most \<open>n\<close> messages. While it waits it receives nothing; the main thread's
  step that ends the wait comes from outside.
\<close>

primrec recv_loop :: "os_t \<Rightarrow> nat \<Rightarrow> nat \<Rightarrow> bytes \<Rightarrow> bool \<Rightarrow> da_t \<Rightarrow> recv_out run" where
  "recv_loop os i 0 log pass d = Ret (Next log pass d)"
| "recv_loop os i (Suc n) log pass d =
     rbind (recv_step os i log pass d) (\<lambda>r.
       case r of
         Next log pass d \<Rightarrow> recv_loop os i n log pass d
       | Stopped d \<Rightarrow> Ret (Stopped d)
       | Waiting log d \<Rightarrow> Ret (Waiting log d))"

definition recvThread :: "os_t \<Rightarrow> nat \<Rightarrow> nat \<Rightarrow> bytes \<Rightarrow> da_t \<Rightarrow> recv_out run" where
  "recvThread os i n log d =
     recv_loop os i n log False (upd_target i (\<lambda>t. t\<lparr>t_allocmem := 0\<rparr>) d)"

section \<open>Facts\<close>

lemma length_mem_put: "off + length p \<le> length buf \<Longrightarrow> length (mem_put off p buf) = length buf"
  by (simp add: mem_put_def)

lemma recv_at_length: "recv_at os sock off n log d = Ret (r, log', d') \<Longrightarrow> length log' = length log"
  by (auto simp: recv_at_def Let_def sys_def length_mem_put split: if_splits)

lemma recv_at_frame:
  "recv_at os sock off n log d = Ret (r, log', d') \<Longrightarrow> \<exists>e. d' = emit e d \<and> r = os_ret os (trace d) e"
  by (auto simp: recv_at_def Let_def sys_def split: if_splits)

lemma recv_at_faults:
  "recv_at os sock off n log d = Faults \<longleftrightarrow>
     length log < off + (let e = Recv sock (unat n); r = os_ret os (trace d) e in
       if r \<le> 0 then 0 else min (length (os_bytes os (trace d) e)) (min (nat r) (unat n)))"
  by (auto simp: recv_at_def Let_def sys_def)

lemma recv_at_in_room: "off + unat n \<le> length log \<Longrightarrow> recv_at os sock off n log d \<noteq> Faults"
  by (auto simp: recv_at_faults Let_def)

lemma recv_msg_length:
  assumes "recv_msg_from_sock os sock log d = Ret (err, log', d')"
  shows "length log' = length log"
  using assms
  by (auto simp: recv_msg_from_sock_def Let_def rbind_Ret_iff dest!: recv_at_length split: if_splits)

text \<open>The sequence number of a probe message: the bytes of the length of the other messages.\<close>

definition probe_seq :: "bytes \<Rightarrow> u32" where "probe_seq log = le_dec (take 4 (drop 4 log))"

lemma probe_seq_is_length: "probe_seq log = log_length log"
  by (simp add: probe_seq_def log_length_def)

lemma data_msg_at_start:
  assumes "length log = sizeof_msg_target" "unat (data_len log) \<le> sizeof_msg_target - MSG_DATA_HDR_LEN"
  shows "data_msg_at log 0 = Some (take (20 + unat (data_len log)) log)"
proof -
  have "unat (20 + data_len log) = 20 + unat (data_len log)"
    using assms(2) by (simp add: unat_word_ariths sizeof_msg_target_def TARGER_MSG_MAX_LEN_def MSG_DATA_HDR_LEN_def)
  then show ?thesis
    using assms
    by (simp add: data_msg_at_def Let_def sizeof_msg_target_def TARGER_MSG_MAX_LEN_def MSG_DATA_HDR_LEN_def)
qed

text \<open>How many bytes a call of \<^verbatim>\<open>recv\<close> delivers.\<close>

definition delivered :: "os_t \<Rightarrow> io list \<Rightarrow> int \<Rightarrow> nat \<Rightarrow> nat" where
  "delivered os es sock n =
     (let r = os_ret os es (Recv sock n) in
      if r \<le> 0 then 0 else min (length (os_bytes os es (Recv sock n))) (min (nat r) n))"

lemma delivered_le: "delivered os es sock n \<le> n"
  by (auto simp: delivered_def Let_def)

lemma recv_at_overflow:
  "recv_at os sock off n log d = Faults \<longleftrightarrow> length log < off + delivered os (trace d) sock (unat n)"
  by (simp add: recv_at_faults delivered_def Let_def)

lemma recv_at_Ret:
  assumes "off + delivered os (trace d) sock (unat n) \<le> length log"
    and "os_ret os (trace d) (Recv sock (unat n)) = r" "os_bytes os (trace d) (Recv sock (unat n)) = bs"
  shows "recv_at os sock off n log d =
    Ret (r, mem_put off (if r \<le> 0 then [] else take (min (nat r) (unat n)) bs) log, emit (Recv sock (unat n)) d)"
  using assms by (auto simp: recv_at_def delivered_def Let_def sys_def min_def split: if_splits)

section \<open>Properties\<close>

text \<open>
  C18. A message with a plain header is received into the buffer of the thread with the length the
  target wrote into it: the buffer is left exactly when the target delivers more than the 4096 bytes
  of its data.
\<close>

theorem recv_overflow:
  assumes "length log = sizeof_msg_target" "length hdr = 8"
    and "os_ret os (trace d) (Recv sock 8) = 8" "os_bytes os (trace d) (Recv sock 8) = hdr"
    and "\<not> IS_PROBE_MSG (log_type hdr)" "log_length hdr > 0"
  shows "recv_msg_from_sock os sock log d = Faults \<longleftrightarrow>
    4096 < delivered os (trace d @ [Recv sock 8]) sock (unat (log_length hdr))"
proof -
  let ?log1 = "mem_put 0 hdr log"
  let ?d1 = "emit (Recv sock 8) d"
  have l: "length log = 4104" using assms(1) by (simp add: sizeof_msg_target_def TARGER_MSG_MAX_LEN_def)
  have r: "recv_at os sock 0 8 log d = Ret (8, ?log1, ?d1)"
    using recv_at_Ret [of 0 os d sock 8 log 8 hdr] delivered_le [of os "trace d" sock 8] assms(2-4) l by simp
  have log1: "?log1 = hdr @ drop 8 log" using assms(2) by (simp add: mem_put_def)
  have h: "log_type ?log1 = log_type hdr" "log_length ?log1 = log_length hdr" "length ?log1 = 4104"
    using assms(2) l by (simp_all add: log1 log_type_def log_length_def)
  have "recv_msg_from_sock os sock log d = Faults \<longleftrightarrow>
      recv_at os sock MSG_HEADER_LEN (log_length hdr) ?log1 ?d1 = Faults"
    using r h assms(5,6) by (simp add: recv_msg_from_sock_def MSG_HEADER_LEN_def rbind_Faults_iff)
  then show ?thesis
    by (simp add: recv_at_overflow h MSG_HEADER_LEN_def)
qed

text \<open>A target that announces and sends 5000 bytes.\<close>

definition talking_os :: "bytes \<Rightarrow> os_t" where
  "talking_os hdr = (sample_os 0)
     \<lparr>os_ret := \<lambda>_ e. (case e of Recv s n \<Rightarrow> int n | _ \<Rightarrow> 0),
      os_bytes := \<lambda>_ e. (case e of Recv s n \<Rightarrow> (if n = 8 then hdr else replicate n 0) | _ \<Rightarrow> [])\<rparr>"

lemma talking_os_simps [simp]:
  "os_ret (talking_os hdr) es (Recv s n) = int n"
  "os_bytes (talking_os hdr) es (Recv s n) = (if n = 8 then hdr else replicate n 0)"
  "delivered (talking_os hdr) es s n = (if n = 8 then min (length hdr) 8 else n)"
  by (auto simp: talking_os_def delivered_def Let_def)

theorem recv_overflow_witness:
  "recv_msg_from_sock (talking_os (le32 9 @ le32 5000)) 4 (replicate sizeof_msg_target 0) manager0 = Faults"
proof -
  let ?h = "le32 9 @ le32 5000"
  have h: "log_type ?h = 9" "log_length ?h = 5000" by (simp_all add: log_type_def log_length_def)
  have "recv_msg_from_sock (talking_os ?h) 4 (replicate sizeof_msg_target 0) manager0 = Faults \<longleftrightarrow>
    4096 < delivered (talking_os ?h) (trace manager0 @ [Recv 4 8]) 4 (unat (log_length ?h))"
    by (rule recv_overflow) (simp_all add: h IS_PROBE_MSG_def)
  then show ?thesis by (simp add: h)
qed

text \<open>
  C17. A received probe message that fits the buffer goes to the driver complete, header and data, as
  long as its sequence number is below 4096. With a higher one the target is disconnected and the
  message is lost, because the check of the length reads the sequence number.
\<close>

theorem probe_message:
  assumes "length log = sizeof_msg_target"
    and "recv_msg_from_sock os (t_socket (target_get i d)) log d = Ret (0, log', d')"
    and "IS_PROBE_MSG (log_type log')" "unat (data_len log') \<le> sizeof_msg_target - MSG_DATA_HDR_LEN"
  shows "recv_step os i log pass d = Ret
    (if probe_seq log' < 4096
     then Next log' pass (snd (write_to_buf os (take (20 + unat (data_len log')) log') d'))
     else Stopped (send_event i EVENT_STOP d'))"
proof -
  have l: "length log' = sizeof_msg_target" using recv_msg_length [OF assms(2)] assms(1) by simp
  have "(of_nat TARGER_MSG_MAX_LEN :: u32) = 4096" by (simp add: TARGER_MSG_MAX_LEN_def)
  then show ?thesis
    using data_msg_at_start [OF l assms(4)] assms(2,3)
    by (simp add: recv_step_def probe_seq_is_length not_le [symmetric])
qed

lemma talking_probe:
  assumes "length log = sizeof_msg_target"
  shows "recv_msg_from_sock (talking_os (le32 0x100 @ le32 n)) sock log d =
    Ret (0, le32 0x100 @ le32 n @ replicate 12 0 @ drop 20 log,
      emit (Recv sock 0) (emit (Recv sock 12) (emit (Recv sock 8) d)))"
proof -
  let ?h = "le32 0x100 @ le32 n"
  let ?os = "talking_os ?h"
  have l: "length log = 4104" using assms by (simp add: sizeof_msg_target_def TARGER_MSG_MAX_LEN_def)
  have 1: "recv_at ?os sock 0 8 log d = Ret (8, ?h @ drop 8 log, emit (Recv sock 8) d)"
    using recv_at_Ret [of 0 ?os d sock 8 log 8 ?h] l by (simp add: mem_put_def)
  have 2: "recv_at ?os sock 8 12 (?h @ drop 8 log) d1 =
      Ret (12, ?h @ replicate 12 0 @ drop 20 log, emit (Recv sock 12) d1)" for d1
    using recv_at_Ret [of 8 ?os d1 sock 12 "?h @ drop 8 log" 12 "replicate 12 0"] l by (simp add: mem_put_def)
  have 3: "recv_at ?os sock 20 0 (?h @ replicate 12 0 @ drop 20 log) d2 =
      Ret (0, ?h @ replicate 12 0 @ drop 20 log, emit (Recv sock 0) d2)" for d2
    using recv_at_Ret [of 20 ?os d2 sock 0 "?h @ replicate 12 0 @ drop 20 log" 0 "[]"] l by (simp add: mem_put_def)
  have ty: "log_type (?h @ xs) = 0x100" for xs by (simp add: log_type_def)
  have dl: "data_len (?h @ replicate 12 0 @ xs) = 0" for xs by (simp add: data_len_def numeral_eq_Suc)
  show ?thesis
    using 1 2 3 ty [of "drop 8 log"] dl [of "drop 20 log"]
    by (simp add: recv_msg_from_sock_def MSG_HEADER_LEN_def MSG_DATA_HDR_LEN_def IS_PROBE_MSG_def)
qed

theorem probe_message_witness:
  "\<exists>d'. recv_step (talking_os (le32 0x100 @ le32 5000)) 0 (replicate sizeof_msg_target 0) True manager0
     = Ret (Stopped (send_event 0 EVENT_STOP d'))"
proof -
  let ?log = "replicate sizeof_msg_target 0 :: bytes"
  let ?log' = "le32 0x100 @ le32 5000 @ replicate 12 0 @ drop 20 ?log"
  have l: "length ?log = sizeof_msg_target" by simp
  have f: "IS_PROBE_MSG (log_type ?log')" "probe_seq ?log' = 5000" "data_len ?log' = 0"
    by (simp_all add: IS_PROBE_MSG_def log_type_def probe_seq_def data_len_def numeral_eq_Suc)
  show ?thesis
    using probe_message [OF l talking_probe [OF l] f(1), of 0 True] f by (simp del: recv_out.inject) blast
qed

end
