(* ===== verification/Input_Events.thy ===== *)
theory Input_Events
  imports Threads Host_Msgs
begin

text \<open>
  Input devices (\<^verbatim>\<open>daemon/input_events.c\<close>): finding them, reading events for the host, writing
  events for the replay, and the replay thread's body (\<^verbatim>\<open>daemon/threads.c\<close>). The handlers of the
  event loop are in \<open>Threads\<close>. An array of devices has room for ten entries, the last of them the
  end mark.
\<close>

section \<open>Finding the devices\<close>

definition MAX_DEVICE :: nat where "MAX_DEVICE = 10"
definition BUF_SIZE :: nat where "BUF_SIZE = 1024"
definition INPUT_ID_TOUCH :: u32 where "INPUT_ID_TOUCH = 0"
definition INPUT_ID_KEY :: u32 where "INPUT_ID_KEY = 1"

definition input_key_devices :: "bytes list" where
  "input_key_devices = map cstr
     [''Maru Virtio Hwkey'', ''gpio-keys'', ''melfas-touchkey'', ''MELFAS MCS Touchkey'',
      ''gpio-keys.5'', ''sci-keypad'', ''ist30xx_ts_tinput'']"

definition input_touch_devices :: "bytes list" where
  "input_touch_devices = map cstr
     [''Maru Virtio Touchscreen'', ''sec_touchscreen'', ''MELPAS MMS114 Touchscreen'', ''ist30xx_ts_input'']"

text \<open>The name file ends with a newline, whose place takes the NUL.\<close>

definition check_input :: "os_t \<Rightarrow> bytes \<Rightarrow> u32 \<Rightarrow> int" where
  "check_input os inputname input_id =
     (let command = take (MAX_FILENAME - 1) (cstr ''/sys/class/input/'' @ inputname @ cstr ''/device/name'') in
      case os_file os command of
        None \<Rightarrow> -1
      | Some f \<Rightarrow>
          (let bytes_count = min BUF_SIZE (length f); name = str_of_buf (take (bytes_count - 1) f) in
           if bytes_count \<le> 1 then -1
           else if input_id = INPUT_ID_KEY then (if name \<in> set input_key_devices then 0 else -1)
           else if input_id = INPUT_ID_TOUCH then (if name \<in> set input_touch_devices then 0 else -1)
           else -1))"

definition is_event_name :: "bytes \<Rightarrow> bool" where
  "is_event_name name \<longleftrightarrow> take 5 name = cstr ''event''"

primrec get_fds_loop :: "os_t \<Rightarrow> u32 \<Rightarrow> bytes list \<Rightarrow> int list \<Rightarrow> da_t \<Rightarrow> (int list \<times> da_t) run" where
  "get_fds_loop os input_id [] fds d = (if length fds < MAX_DEVICE then Ret (fds, d) else Faults)"
| "get_fds_loop os input_id (name # names) fds d =
     (if is_event_name name \<and> check_input os name input_id = 0 then
        (if length fds < MAX_DEVICE then
           (let (fd, d) = sys os (Open (take (MAX_FILENAME - 1) (cstr ''/dev/input/'' @ name))) d in
            get_fds_loop os input_id names (fds @ [fd]) d)
         else Faults)
      else get_fds_loop os input_id names fds d)"

definition get_fds :: "os_t \<Rightarrow> u32 \<Rightarrow> da_t \<Rightarrow> (int list \<times> da_t) run" where
  "get_fds os input_id d =
     (case os_input_dir os of None \<Rightarrow> Ret ([], d) | Some names \<Rightarrow> get_fds_loop os input_id names [] d)"

definition init_input_events :: "os_t \<Rightarrow> da_t \<Rightarrow> (int \<times> da_t) run" where
  "init_input_events os d =
     rbind (get_fds os INPUT_ID_KEY d) (\<lambda>(keys, d).
       let d = d\<lparr>g_key_fds := keys\<rparr> in
       if keys = [] then Ret (-1, d)
       else rbind (get_fds os INPUT_ID_TOUCH d) (\<lambda>(touches, d).
         let d = d\<lparr>g_touch_fds := touches\<rparr> in Ret (if touches = [] then -1 else 0, d)))"

section \<open>Reading events\<close>

definition MAX_EVENTS_NUM :: nat where "MAX_EVENTS_NUM = 10"
definition sizeof_input_event :: nat where "sizeof_input_event = 16"

definition dec_event :: "bytes \<Rightarrow> input_event" where
  "dec_event bs =
     \<lparr>ev_time = \<lparr>tv_sec = le_dec (take 4 bs), tv_usec = le_dec (take 4 (drop 4 bs))\<rparr>,
      ev_type = le_dec (take 2 (drop 8 bs)), ev_code = le_dec (take 2 (drop 10 bs)),
      ev_value = le_dec (take 4 (drop 12 bs))\<rparr>"

definition event_bytes :: "input_event \<Rightarrow> bytes" where
  "event_bytes ev = le32 (tv_sec (ev_time ev)) @ le32 (tv_usec (ev_time ev)) @ le_enc 2 (ev_type ev)
     @ le_enc 2 (ev_code ev) @ le32 (ev_value ev)"

primrec read_events :: "os_t \<Rightarrow> int \<Rightarrow> nat \<Rightarrow> da_t \<Rightarrow> input_event list \<times> da_t" where
  "read_events os fd 0 d = ([], d)"
| "read_events os fd (Suc n) d =
     (let e = Read_fd fd sizeof_input_event; bs = os_bytes os (trace d) e; (size, d) = sys os e d in
      if size > 0 then (let (evs, d) = read_events os fd n d in (dec_event bs # evs, d)) else ([], d))"

definition deviceEventHandler :: "os_t \<Rightarrow> int \<Rightarrow> u32 \<Rightarrow> da_t \<Rightarrow> int \<times> da_t" where
  "deviceEventHandler os fd input_type d =
     (if input_type = INPUT_ID_TOUCH \<or> input_type = INPUT_ID_KEY then
        (let (in_ev, d) = read_events os fd MAX_EVENTS_NUM d in
         if in_ev \<noteq> [] then
           (0, snd (write_to_buf os (gen_message_event (os_time os (trace d)) in_ev input_type) d))
         else (0, d))
      else (1, d))"

text \<open>The callbacks of the two kinds of devices; a failure is only logged.\<close>

definition touch_event_cb :: "os_t \<Rightarrow> int \<Rightarrow> da_t \<Rightarrow> da_t" where
  "touch_event_cb os touch_dev d = snd (deviceEventHandler os touch_dev INPUT_ID_TOUCH d)"

definition key_event_cb :: "os_t \<Rightarrow> int \<Rightarrow> da_t \<Rightarrow> da_t" where
  "key_event_cb os key_dev d = snd (deviceEventHandler os key_dev INPUT_ID_KEY d)"

section \<open>Writing events\<close>

primrec device_write :: "int list \<Rightarrow> bytes \<Rightarrow> da_t \<Rightarrow> da_t" where
  "device_write [] ev d = d"
| "device_write (fd # fds) ev d = device_write fds ev (if fd \<ge> 0 then emit (Write_fd fd ev) d else d)"

definition write_input_event :: "u32 \<Rightarrow> input_event \<Rightarrow> da_t \<Rightarrow> da_t" where
  "write_input_event i ev d =
     (if i = INPUT_ID_TOUCH then device_write (g_touch_fds d) (event_bytes ev) d
      else if i = INPUT_ID_KEY then device_write (g_key_fds d) (event_bytes ev) d
      else d)"

text \<open>The body of the replay thread, when it is not cancelled: for each event a sleep and a write.\<close>

fun replay_one :: "u32 \<times> replay_event_t \<Rightarrow> da_t \<Rightarrow> da_t" where
  "replay_one (ms, ev) d = write_input_event (re_id ev) (re_ev ev) (emit (Sleep_us ms) d)"

definition replay_run :: "da_t \<Rightarrow> da_t run" where
  "replay_run d =
     rbind (of_option (replay_thread (s_replay d))) (\<lambda>schedule.
       Ret (exit_replay_thread (fold replay_one schedule d)))"

section \<open>Facts\<close>

lemma length_event_bytes [simp, size_simps]: "length (event_bytes ev) = 16"
  by (simp add: event_bytes_def)

lemma le_dec_enc2: "le_dec (le_enc 2 w) = (w :: u16)"
  by (simp add: le_dec_enc take_bit_word_eq_self)

lemma dec_event_bytes [simp]: "dec_event (event_bytes ev) = ev"
  by (simp add: dec_event_def event_bytes_def le_dec_enc2)

lemma length_read_events: "read_events os fd n d = (evs, d') \<Longrightarrow> length evs \<le> n"
  by (induction n arbitrary: d evs) (auto simp: Let_def split: if_splits prod.splits)

text \<open>The devices that are found, in the order of the directory.\<close>

definition matching :: "os_t \<Rightarrow> u32 \<Rightarrow> bytes list \<Rightarrow> bytes list" where
  "matching os input_id names = filter (\<lambda>n. is_event_name n \<and> check_input os n input_id = 0) names"

lemma matching_simps [simp]:
  "matching os k [] = []"
  "matching os k (n # ns) =
     (if is_event_name n \<and> check_input os n k = 0 then n # matching os k ns else matching os k ns)"
  by (simp_all add: matching_def)

lemma get_fds_loop_faults:
  "length fds \<le> MAX_DEVICE \<Longrightarrow>
     get_fds_loop os k names fds d = Faults \<longleftrightarrow> MAX_DEVICE \<le> length fds + length (matching os k names)"
proof (induction names arbitrary: fds d)
  case (Cons n ns)
  show ?case
  proof (cases "is_event_name n \<and> check_input os n k = 0 \<and> length fds < MAX_DEVICE")
    case True
    then show ?thesis using Cons.IH [of "fds @ [_]"] by (simp add: sys_def Let_def)
  next
    case False
    with Cons show ?thesis by auto
  qed
qed auto

lemma get_fds_loop_length:
  "get_fds_loop os k names fds d = Ret (fds', d') \<Longrightarrow> length fds' = length fds + length (matching os k names)"
  by (induction names arbitrary: fds d) (auto simp: sys_def Let_def split: if_splits)

section \<open>Properties\<close>

text \<open>
  C36. Looking for devices of a kind leaves its array of ten exactly when the directory has ten or more
  of them; otherwise it finds all of them.
\<close>

theorem device_limit:
  assumes "os_input_dir os = Some names"
  shows "(get_fds os k d = Faults \<longleftrightarrow> 10 \<le> length (matching os k names))
    \<and> (\<forall>fds d'. get_fds os k d = Ret (fds, d') \<longrightarrow> length fds = length (matching os k names))"
  using get_fds_loop_faults [of "[]" os k names d] get_fds_loop_length [of os k names "[]" d] assms
  by (simp add: get_fds_def MAX_DEVICE_def)

text \<open>Every entry is a touch screen.\<close>

definition touch_os :: "nat \<Rightarrow> os_t" where
  "touch_os n = (sample_os 0)
     \<lparr>os_file := \<lambda>_. Some (cstr ''sec_touchscreen'' @ [10]), os_input_dir := Some (replicate n (cstr ''event0''))\<rparr>"

theorem device_limit_witness: "get_fds (touch_os 10) INPUT_ID_TOUCH manager0 = Faults"
proof -
  have i: "os_input_dir (touch_os 10) = Some (replicate 10 (cstr ''event0''))" by (simp add: touch_os_def)
  have c: "check_input (touch_os 10) (cstr ''event0'') INPUT_ID_TOUCH = 0" and e: "is_event_name (cstr ''event0'')"
    by code_simp+
  then have "length (matching (touch_os 10) INPUT_ID_TOUCH (replicate 10 (cstr ''event0''))) = 10"
    by (simp add: matching_def)
  with device_limit [OF i, of INPUT_ID_TOUCH manager0] show ?thesis by simp
qed

text \<open>The descriptors an event is written to.\<close>

definition event_fds :: "u32 \<Rightarrow> da_t \<Rightarrow> int list" where
  "event_fds i d =
     filter (\<lambda>fd. fd \<ge> 0)
       (if i = INPUT_ID_TOUCH then g_touch_fds d else if i = INPUT_ID_KEY then g_key_fds d else [])"

lemma device_write_trace:
  "device_write fds b d = d\<lparr>trace := trace d @ map (\<lambda>fd. Write_fd fd b) (filter (\<lambda>fd. fd \<ge> 0) fds)\<rparr>"
  by (induction fds arbitrary: d) (auto simp: emit_def)

lemma write_input_event_trace:
  "write_input_event i ev d = d\<lparr>trace := trace d @ map (\<lambda>fd. Write_fd fd (event_bytes ev)) (event_fds i d)\<rparr>"
  by (simp add: write_input_event_def device_write_trace event_fds_def)

lemma event_fds_trace [simp]: "event_fds i (d\<lparr>trace := es\<rparr>) = event_fds i d"
  by (simp add: event_fds_def)

lemma replay_one_trace:
  "replay_one (ms, ev) d = d\<lparr>trace := trace d @
     Sleep_us ms # map (\<lambda>fd. Write_fd fd (event_bytes (re_ev ev))) (event_fds (re_id ev) d)\<rparr>"
proof -
  have "event_fds (re_id ev) (emit (Sleep_us ms) d) = event_fds (re_id ev) d" by (simp add: event_fds_def)
  then show ?thesis by (simp add: write_input_event_trace)
qed

lemma fold_replay_trace:
  "fold replay_one sch d = d\<lparr>trace := trace d @
     concat (map (\<lambda>(ms, ev). Sleep_us ms # map (\<lambda>fd. Write_fd fd (event_bytes (re_ev ev))) (event_fds (re_id ev) d)) sch)\<rparr>"
proof (induction sch arbitrary: d)
  case (Cons a sch)
  then show ?case by (cases a) (simp add: replay_one_trace del: replay_one.simps)
qed simp

text \<open>When the events are in order, the delays add up to the time of the last one.\<close>

lemma replay_schedule_events: "map snd (replay_schedule tv prev evs) = evs"
  by (induction evs arbitrary: prev) (simp_all add: Let_def)

lemma replay_schedule_total:
  assumes "sorted (prev # map (\<lambda>ev. time_diff_us (ev_time (re_ev ev)) tv) evs)"
  shows "(\<Sum>x\<leftarrow>replay_schedule tv prev evs. fst x) =
    (if evs = [] then 0 else time_diff_us (ev_time (re_ev (last evs))) tv - prev)"
  using assms by (induction evs arbitrary: prev) (auto simp: Let_def)

text \<open>
  C28. The replay thread sleeps before each event and writes it to every open device of its kind, in
  the order of the sequence; events in the order of their times are spread over the whole time of the
  recording; at the end the sequence is cleared and the thread is gone.
\<close>

theorem replay_all_events:
  assumes "events (s_replay d) = Some evs" "unat (event_num (s_replay d)) = length evs" "evs \<noteq> []"
    and "sorted (map (\<lambda>ev. time_diff_us (ev_time (re_ev ev)) (seq_tv (s_replay d))) evs)"
  shows "\<exists>delays d'. replay_run d = Ret d' \<and> length delays = length evs
    \<and> sum_list delays = time_diff_us (ev_time (re_ev (last evs))) (seq_tv (s_replay d))
    \<and> trace d' = trace d @ concat (map2 (\<lambda>ms ev.
        Sleep_us ms # map (\<lambda>fd. Write_fd fd (event_bytes (re_ev ev))) (event_fds (re_id ev) d)) delays evs)
    \<and> \<not> m_replay d' \<and> event_num (s_replay d') = 0"
proof -
  let ?tv = "seq_tv (s_replay d)"
  let ?sch = "replay_schedule ?tv 0 evs"
  let ?delays = "map fst ?sch"
  have n: "event_num (s_replay d) \<noteq> 0" using assms(2,3) by auto
  have "replay_thread (s_replay d) = Some ?sch"
    using assms(1,2) n by (simp add: replay_thread_def)
  then have run: "replay_run d = Ret (exit_replay_thread (fold replay_one ?sch d))"
    by (simp add: replay_run_def)
  have z: "zip ?delays evs = ?sch"
    using zip_map_fst_snd [of ?sch] by (simp add: replay_schedule_events)
  have l: "length ?delays = length evs" using replay_schedule_events [of ?tv 0 evs] by (metis length_map)
  have "sum_list ?delays = time_diff_us (ev_time (re_ev (last evs))) ?tv"
    using replay_schedule_total [of 0 ?tv evs] assms(3,4) by simp
  then show ?thesis
    using run l z
    by (intro exI [of _ ?delays] exI [of _ "exit_replay_thread (fold replay_one ?sch d)"])
      (simp add: exit_replay_thread_def fold_replay_trace reset_replay_event_seq_def)
qed

definition sample_replay :: "nat \<Rightarrow> replay_event_t" where
  "sample_replay n =
     \<lparr>re_id = INPUT_ID_KEY,
      re_ev = \<lparr>ev_time = \<lparr>tv_sec = of_nat n, tv_usec = 0\<rparr>, ev_type = 1, ev_code = 2, ev_value = 3\<rparr>\<rparr>"

theorem replay_all_events_witness:
  "\<exists>d'. replay_run (manager0\<lparr>g_key_fds := [7], m_replay := True,
      s_replay := \<lparr>enabled = 1, seq_tv = \<lparr>tv_sec = 1, tv_usec = 0\<rparr>, event_num = 2,
        events = Some [sample_replay 2, sample_replay 4]\<rparr>\<rparr>) = Ret d' \<and> \<not> m_replay d'"
proof -
  let ?d = "manager0\<lparr>g_key_fds := [7], m_replay := True,
      s_replay := \<lparr>enabled = 1, seq_tv = \<lparr>tv_sec = 1, tv_usec = 0\<rparr>, event_num = 2,
        events = Some [sample_replay 2, sample_replay 4]\<rparr>\<rparr>"
  have "\<exists>delays d'. replay_run ?d = Ret d' \<and> length delays = length [sample_replay 2, sample_replay 4]
    \<and> sum_list delays = time_diff_us (ev_time (re_ev (last [sample_replay 2, sample_replay 4]))) (seq_tv (s_replay ?d))
    \<and> trace d' = trace ?d @ concat (map2 (\<lambda>ms ev.
        Sleep_us ms # map (\<lambda>fd. Write_fd fd (event_bytes (re_ev ev))) (event_fds (re_id ev) ?d)) delays
          [sample_replay 2, sample_replay 4])
    \<and> \<not> m_replay d' \<and> event_num (s_replay d') = 0"
    by (rule replay_all_events) (simp_all add: sample_replay_def time_diff_us_def)
  then show ?thesis by blast
qed

end
