(* ===== verification/Daemon.thy ===== *)
theory Daemon
  imports Recv_Thread Input_Events
begin

text \<open>
  The callbacks of the main loop (\<^verbatim>\<open>daemon/daemon.c\<close>): connections and messages of the host,
  connections and events of the targets, timers.
\<close>

section \<open>The connection timer\<close>

definition MAX_CONNECT_TIMEOUT_TIME :: int where "MAX_CONNECT_TIMEOUT_TIME = 5 * 60"

definition connect_timer_cb :: "os_t \<Rightarrow> da_t \<Rightarrow> da_t run" where
  "connect_timer_cb os d =
     rbind (terminate_error os (cstr ''no incoming connections'') True d) (\<lambda>d.
       Ret (emit Loop_quit ((emit (Close (m_connect_timerfd d)) d)\<lparr>m_connect_timerfd := -1\<rparr>)))"

definition close_connect_timer :: "da_t \<Rightarrow> da_t" where
  "close_connect_timer d = (emit (Close (m_connect_timerfd d)) d)\<lparr>m_connect_timerfd := -1\<rparr>"

definition launch_timer_start :: "os_t \<Rightarrow> da_t \<Rightarrow> int \<times> da_t" where
  "launch_timer_start os d =
     (let (fd, d) = sys os Timerfd_create d; d = d\<lparr>m_connect_timerfd := fd\<rparr> in
      if fd > 0 then
        (let (r, d) = sys os (Timerfd_settime fd MAX_CONNECT_TIMEOUT_TIME) d in
         if r < 0 then (0, close_connect_timer d)
         else (let (h, d) = sys os (Fd_handler_add fd) d in
               if h = 0 then (0, close_connect_timer d) else (0, d)))
      else (0, d))"

section \<open>Events of the targets\<close>

definition LPAD_PATH :: bytes where
  "LPAD_PATH = cstr ''/usr/bin/debug_launchpad_preloading_preinitializing_daemon''"

text \<open>
  The number of the launch pad is kept once it was found. \<open>Read_cmdline\<close> gives a negative number when
  the file cannot be opened or read.
\<close>

definition get_lpad_pid :: "os_t \<Rightarrow> int \<Rightarrow> da_t \<Rightarrow> int \<times> da_t" where
  "get_lpad_pid os pid d =
     (if g_lpad_pid d = UNKNOWN_PID then
        (let e = Read_cmdline pid; file = take (length LPAD_PATH) (os_bytes os (trace d) e);
             (r, d) = sys os e d in
         if r < 0 \<or> file = [] then (g_lpad_pid d, d)
         else (let d = (if file = LPAD_PATH then d\<lparr>g_lpad_pid := pid\<rparr> else d) in (g_lpad_pid d, d)))
      else (g_lpad_pid d, d))"

definition target_set_type :: "os_t \<Rightarrow> nat \<Rightarrow> da_t \<Rightarrow> da_t" where
  "target_set_type os i d =
     (let ppid = t_ppid (target_get i d) in
      if os_pid os = ppid then upd_target i (\<lambda>t. t\<lparr>t_app_type := APP_TYPE_COMMON\<rparr>) d
      else (let (lpad, d) = get_lpad_pid os ppid d in
            upd_target i (\<lambda>t. t\<lparr>t_app_type :=
              (if lpad = ppid then APP_TYPE_TIZEN else APP_TYPE_UNKNOWN)\<rparr>) d))"

primrec find_app :: "os_t \<Rightarrow> int \<Rightarrow> inst_data list \<Rightarrow> da_t \<Rightarrow> (bool \<times> da_t) run" where
  "find_app os pid [] d = Ret (False, d)"
| "find_app os pid (app # apps) d =
     rbind (is_same_app_process os (exe_path app) pid d) (\<lambda>(same, d).
       if same then Ret (True, d) else find_app os pid apps d)"

definition target_event_pid_handler :: "os_t \<Rightarrow> nat \<Rightarrow> da_t \<Rightarrow> (int \<times> da_t) run" where
  "target_event_pid_handler os i d =
     (let d = target_set_type os i d in
      if session_apps d = [] then Ret (-1, d)
      else rbind (find_app os (t_pid (target_get i d)) (session_apps d) d) (\<lambda>(found, d).
        if \<not> found then Ret (-1, d)
        else (let (r, d) = start_replay os d in
              if r \<noteq> 0 then Ret (-1, d)
              else Ret (0, upd_target i (\<lambda>t. t\<lparr>t_initial_log := True\<rparr>) d))))"

definition target_event_stop_handler :: "os_t \<Rightarrow> nat \<Rightarrow> da_t \<Rightarrow> (int \<times> da_t) run" where
  "target_event_stop_handler os i d =
     (let app_type = t_app_type (target_get i d);
          d = emit (Fd_handler_del (t_event_fd (target_get i d))) d in
      rbind (target_wait os i d) (\<lambda>(_, d).
      rbind (target_dtor i d) (\<lambda>d.
      let (cnt, d) = target_cnt_sub_and_fetch d in
      if cnt = 0 \<and> (app_type = APP_TYPE_TIZEN \<or> app_type = APP_TYPE_COMMON)
      then rbind (stop_all os d) (\<lambda>(_, d). Ret (-11, d))
      else Ret (0, d))))"

definition target_event_handler :: "os_t \<Rightarrow> nat \<Rightarrow> u64 \<Rightarrow> da_t \<Rightarrow> (int \<times> da_t) run" where
  "target_event_handler os i msg d =
     rbind (if msg AND EVENT_PID \<noteq> 0 then target_event_pid_handler os i d else Ret (0, d)) (\<lambda>(err, d).
       if err \<noteq> 0 then Ret (err, d)
       else if msg AND EVENT_STOP \<noteq> 0 \<or> msg AND EVENT_ERROR \<noteq> 0 then target_event_stop_handler os i d
       else Ret (err, d))"

text \<open>The counter of an event descriptor is eight bytes; what it holds comes from the oracle.\<close>

definition target_event_cb :: "os_t \<Rightarrow> nat \<Rightarrow> da_t \<Rightarrow> da_t run" where
  "target_event_cb os i d =
     (let e = Event_read i; u = le_dec (take 8 (os_bytes os (trace d) e)); (recvLen, d) = sys os e d in
      if recvLen \<noteq> 8 then Ret d
      else rbind (target_event_handler os i u d) (\<lambda>(_, d). Ret d))"

section \<open>Connections of targets\<close>

definition makeRecvThread :: "os_t \<Rightarrow> nat \<Rightarrow> da_t \<Rightarrow> (int \<times> da_t) run" where
  "makeRecvThread os i d =
     rbind (target_start os i d) (\<lambda>(r, d). Ret (if r < 0 then -1 else 0, d))"

definition target_connect_fail :: "nat \<Rightarrow> da_t \<Rightarrow> (int \<times> da_t) run" where
  "target_connect_fail i d =
     (if target_cnt_get d = 0 then Ret (-1, d)
      else rbind (target_dtor i d) (\<lambda>d. Ret (1, d)))"

definition target_connected :: "os_t \<Rightarrow> da_t \<Rightarrow> da_t" where
  "target_connected os d =
     (let d = dec_apps_to_run d;
          d = (if m_launch_timerfd d > 0 \<and> get_apps_to_run d = 0
               then snd (stop_app_launch_timer os d) else d)
      in target_cnt_set (target_cnt_get d + 1) d)"

definition send_option_to :: "os_t \<Rightarrow> nat \<Rightarrow> da_t \<Rightarrow> da_t" where
  "send_option_to os i d =
     (let f = use_features0 (s_conf d) in
      snd (target_send_msg os i (option_msg f) (of_nat (length (decimal (unat f)) + 1)) d))"

definition targetServerHandler :: "os_t \<Rightarrow> da_t \<Rightarrow> (int \<times> da_t) run" where
  "targetServerHandler os d =
     (let (target, d) = target_ctor os d in
      case target of
        None \<Rightarrow> Ret (1, d)
      | Some i \<Rightarrow>
          (let (err, d) = target_accept os i (m_target_server_socket d) d in
           if err \<noteq> 0 then target_connect_fail i d
           else
             rbind (send_maps_inst_msg_to os i (send_option_to os i d)) (\<lambda>d.
              let (event_fd, d) = sys os Eventfd d; d = upd_target i (\<lambda>t. t\<lparr>t_event_fd := event_fd\<rparr>) d in
              if event_fd = -1 then target_connect_fail i d
              else
                (let (h, d) = sys os (Fd_handler_add event_fd) d in
                 if h = 0 then target_connect_fail i d
                 else
                   rbind (makeRecvThread os i d) (\<lambda>(r, d).
                     if r \<noteq> 0 then target_connect_fail i (emit (Fd_handler_del event_fd) d)
                     else Ret (0, target_connected os d))))))"

definition target_connect_cb :: "os_t \<Rightarrow> da_t \<Rightarrow> da_t run" where
  "target_connect_cb os d =
     rbind (targetServerHandler os d) (\<lambda>(r, d).
       if r < 0 then
         terminate_error os (cstr ''Internal DA framework error, Please re-run the profiling (targetServerHandler)\<newline>'') True d
       else Ret d)"

section \<open>Messages of the host\<close>

text \<open>\<^verbatim>\<open>recv_msg_tail\<close> takes a message that is not wanted off the socket, 512 bytes at a time.\<close>

primrec recv_blocks :: "os_t \<Rightarrow> int \<Rightarrow> nat \<Rightarrow> da_t \<Rightarrow> bool \<times> da_t" where
  "recv_blocks os fd 0 d = (True, d)"
| "recv_blocks os fd (Suc n) d =
     (let (recv_len, d) = sys os (Recv fd 512) d in
      if recv_len \<noteq> 512 then (False, d) else recv_blocks os fd n d)"

definition recv_msg_tail :: "os_t \<Rightarrow> int \<Rightarrow> u32 \<Rightarrow> da_t \<Rightarrow> da_t" where
  "recv_msg_tail os fd len d =
     (let (ok, d) = recv_blocks os fd (unat (len div 512)) d in
      if \<not> ok then d
      else if len mod 512 \<noteq> 0 then emit (Recv fd (unat (len mod 512))) d
      else d)"

text \<open>
  The header is received without \<^verbatim>\<open>MSG_WAITALL\<close> into the eight bytes of \<^verbatim>\<open>msg_head\<close>, which hold what was
  on the stack (\<open>stack\<close>); a short read leaves the rest of them. The payload goes to a fresh block;
  after a short read the rest of it holds what was there, here the bytes the oracle gives behind
  those received.
\<close>

definition control_message ::
  "os_t \<Rightarrow> (io list \<Rightarrow> target_info_t) \<Rightarrow> u32 \<Rightarrow> u32 \<Rightarrow> da_t \<Rightarrow> (int \<times> da_t) run" where
  "control_message os fill_target_info ident len d =
     (if len > HOST_CTL_MSG_MAX_LEN \<or> \<not> os_malloc os (8 + len) then
        send_ack os ident ERR_WRONG_MESSAGE_FORMAT (-1) (recv_msg_tail os (m_control_socket d) len d)
      else if len > 0 then
        (let e = Recv (m_control_socket d) (unat len);
             pl = take (unat len) (os_bytes os (trace d) e @ replicate (unat len) 0);
             (recv_len, d) = sys os e d in
         if recv_len = -1 then Ret (-11, d)
         else host_message_handler os fill_target_info \<lparr>msg_id = ident, msg_len = len, msg_payload = pl\<rparr> d)
      else host_message_handler os fill_target_info \<lparr>msg_id = ident, msg_len = len, msg_payload = []\<rparr> d)"

definition controlSocketHandler ::
  "os_t \<Rightarrow> (io list \<Rightarrow> target_info_t) \<Rightarrow> bytes \<Rightarrow> da_t \<Rightarrow> (int \<times> da_t) run" where
  "controlSocketHandler os fill_target_info stack d =
     (let d = (if m_connect_timerfd d \<ge> 0 then close_connect_timer d else d);
          e = Recv (m_control_socket d) 8; bs = os_bytes os (trace d) e;
          (recv_len, d) = sys os e d in
      if recv_len = -1 \<or> recv_len = 0 then Ret (-11, d)
      else
        (let head = mem_put 0 (take (min 8 (nat recv_len)) bs) stack in
         control_message os fill_target_info (le_dec (take 4 head)) (le_dec (take 4 (drop 4 head))) d))"

definition host_ctrl_cb :: "os_t \<Rightarrow> (io list \<Rightarrow> target_info_t) \<Rightarrow> bytes \<Rightarrow> da_t \<Rightarrow> da_t run" where
  "host_ctrl_cb os fill_target_info stack d =
     rbind (controlSocketHandler os fill_target_info stack d) (\<lambda>(result, d).
       Ret (if result = -11 then emit Loop_quit (d\<lparr>m_data_socket := -1\<rparr>) else d))"

definition host_data_cb :: "os_t \<Rightarrow> da_t \<Rightarrow> da_t" where
  "host_data_cb os d =
     (let (recvLen, d) = sys os (Recv (m_data_socket d) 32) d in
      if recvLen = 0 then
        (emit (Close (m_data_socket d)) (emit (Fd_handler_del (m_data_socket d)) d))\<lparr>m_data_socket := -1\<rparr>
      else d)"

section \<open>Connections of the host\<close>

definition PORTFILE :: bytes where "PORTFILE = cstr ''/tmp/port.da''"

definition hostServerHandler :: "os_t \<Rightarrow> da_t \<Rightarrow> int \<times> da_t" where
  "hostServerHandler os d =
     (if g_host_order d > 1 then (1, d)
      else
        (let (csocket, d) = sys os (Accept (m_host_server_socket d)) d in
         if csocket \<ge> 0 then
           (let d = (if g_host_order d = 0 then emit (Unlink PORTFILE) (d\<lparr>m_control_socket := csocket\<rparr>)
                     else d\<lparr>m_data_socket := csocket\<rparr>);
                (h, d) = sys os (Fd_handler_add csocket) d in
            if h = 0 then (-1, emit (Close csocket) d)
            else (0, d\<lparr>g_host_order := g_host_order d + 1\<rparr>))
         else (-1, d)))"

definition host_connect_cb :: "os_t \<Rightarrow> da_t \<Rightarrow> da_t" where
  "host_connect_cb os d = snd (hostServerHandler os d)"

section \<open>The loop\<close>

definition initialize_events :: "os_t \<Rightarrow> da_t \<Rightarrow> bool \<times> da_t" where
  "initialize_events os d =
     (let (h, d) = sys os (Fd_handler_add (m_host_server_socket d)) d in
      if h = 0 then (False, d)
      else (let (h, d) = sys os (Fd_handler_add (m_target_server_socket d)) d in (h \<noteq> 0, d)))"

text \<open>\<^verbatim>\<open>init_prof_session\<close> (\<^verbatim>\<open>daemon/da_protocol.c\<close>) clears the whole structure.\<close>

definition init_prof_session :: "da_t \<Rightarrow> da_t" where
  "init_prof_session d =
     d\<lparr>s_conf := \<lparr>use_features0 = 0, use_features1 = 0, system_trace_period = 0, data_message_period = 0\<rparr>,
       s_inst := (s_inst d)\<lparr>us_inst := \<lparr>app_num = 0, app_inst_list = [], lib_num = 0, lib_inst_list = []\<rparr>\<rparr>,
       s_replay := \<lparr>enabled = 0, seq_tv = zero_tv, event_num = 0, events = None\<rparr>,
       s_running := False\<rparr>"

text \<open>What the main loop calls back, each with the data its handler was given.\<close>

datatype callback =
    Host_connect | Target_connect | Host_ctrl bytes | Host_data | Target_event nat
  | Launch_timer | Connect_timer | Touch_event int | Key_event int

definition run_callback :: "os_t \<Rightarrow> (io list \<Rightarrow> target_info_t) \<Rightarrow> callback \<Rightarrow> da_t \<Rightarrow> da_t run" where
  "run_callback os fill_target_info c d =
     (case c of
        Host_connect \<Rightarrow> Ret (host_connect_cb os d)
      | Target_connect \<Rightarrow> target_connect_cb os d
      | Host_ctrl stack \<Rightarrow> host_ctrl_cb os fill_target_info stack d
      | Host_data \<Rightarrow> Ret (host_data_cb os d)
      | Target_event i \<Rightarrow> target_event_cb os i d
      | Launch_timer \<Rightarrow> Ret (launch_timer_cb os d)
      | Connect_timer \<Rightarrow> connect_timer_cb os d
      | Touch_event dev \<Rightarrow> Ret (touch_event_cb os dev d)
      | Key_event dev \<Rightarrow> Ret (key_event_cb os dev d))"

primrec main_loop :: "os_t \<Rightarrow> (io list \<Rightarrow> target_info_t) \<Rightarrow> callback list \<Rightarrow> da_t \<Rightarrow> da_t run" where
  "main_loop os fill_target_info [] d = Ret d"
| "main_loop os fill_target_info (c # cs) d =
     rbind (run_callback os fill_target_info c d) (\<lambda>d.
       if Loop_quit \<in> set (trace d) then Ret d else main_loop os fill_target_info cs d)"

definition daemonLoop :: "os_t \<Rightarrow> (io list \<Rightarrow> target_info_t) \<Rightarrow> callback list \<Rightarrow> da_t \<Rightarrow> (int \<times> da_t) run" where
  "daemonLoop os fill_target_info cs d =
     rbind (init_input_events os d) (\<lambda>(r, d).
       if r = -1 then Ret (-1, d)
       else
         (let (ok, d) = initialize_events os d in
          if \<not> ok then Ret (-1, emit (Close (-1)) d)
          else
            (let (r, d) = launch_timer_start os d in
             if r < 0 then Ret (-1, emit (Close (-1)) d)
             else rbind (main_loop os fill_target_info cs (init_prof_session d)) (\<lambda>d.
                    Ret (0, emit (Close (-1)) d)))))"

section \<open>Facts\<close>

lemma target_ctor_inst: "target_ctor os d = (t, d') \<Longrightarrow> s_inst d' = s_inst d \<and> tg_cnt d' = tg_cnt d
    \<and> m_target_server_socket d' = m_target_server_socket d"
  by (auto simp: target_ctor_def Let_def upd_target_def split: option.splits prod.splits if_splits)

lemma target_accept_ok:
  assumes "os_ret os (trace d) (Accept s) \<noteq> UNKNOWN_FD"
  shows "target_accept os i s d =
    (0, upd_target i (\<lambda>t. t\<lparr>t_socket := os_ret os (trace d) (Accept s)\<rparr>) (fd_setup_attributes (os_ret os (trace d) (Accept s)) (emit (Accept s) d)))"
  using assms by (simp add: target_accept_def sys_def)

lemma target_accept_fails:
  "os_ret os (trace d) (Accept s) = UNKNOWN_FD \<Longrightarrow> target_accept os i s d = (1, emit (Accept s) d)"
  by (simp add: target_accept_def sys_def)

lemma send_option_to_inst: "s_inst (send_option_to os i d) = s_inst d"
  by (simp add: send_option_to_def Let_def)

lemma upd_target_inst [simp]: "s_inst (upd_target i f d) = s_inst d" "tg_cnt (upd_target i f d) = tg_cnt d"
  by (simp_all add: upd_target_def)

section \<open>Properties\<close>

text \<open>
  A target that connects before any request has made the list of paths brings the daemon down: the
  list is sent through a pointer that is still NULL.
\<close>

theorem target_before_list_faults:
  assumes "lib_maps_message (s_inst d) = None" "target_ctor os d = (Some i, d1)"
    and "os_ret os (trace d1) (Accept (m_target_server_socket d)) \<noteq> UNKNOWN_FD"
  shows "targetServerHandler os d = Faults"
proof -
  let ?s = "m_target_server_socket d"
  obtain d2 where a: "target_accept os i ?s d1 = (0, d2)" "s_inst d2 = s_inst d1"
    using target_accept_ok [OF assms(3), of i] by auto
  have "lib_maps_message (s_inst (send_option_to os i d2)) = None"
    using assms(1) target_ctor_inst [OF assms(2)] a by (simp add: send_option_to_inst)
  then have "send_maps_inst_msg_to os i (send_option_to os i d2) = Faults"
    by (simp add: send_maps_inst_msg_to_def)
  then show ?thesis
    using assms(2) a target_ctor_inst [OF assms(2)] by (simp add: targetServerHandler_def)
qed

theorem target_before_list_faults_witness: "targetServerHandler (sample_os 0) manager0 = Faults"
proof -
  obtain t d1 where c: "target_ctor (sample_os 0) manager0 = (t, d1)" by fastforce
  have "used_slots (tg_use manager0) = {}" by (auto simp: used_slots_def manager0_def)
  moreover have "0 \<in> {..<MAX_TARGET_COUNT}" by (simp add: MAX_TARGET_COUNT_def)
  ultimately have "t \<noteq> None"
    using target_ctor_None(4) [OF manager0_pool, of "sample_os 0" d1] c by auto
  then obtain i where "t = Some i" by blast
  with c have c: "target_ctor (sample_os 0) manager0 = (Some i, d1)" by simp
  have "lib_maps_message (s_inst manager0) = None" by (simp add: manager0_def)
  from target_before_list_faults [OF this c] show ?thesis by (simp add: UNKNOWN_FD_def)
qed

text \<open>
  When a connection of a target cannot be accepted its slot is given back, unless no target is
  connected: then the handler reports a fatal error and the slot stays taken for good.
\<close>

theorem failed_connection_slot:
  assumes "pool_ok d" "target_ctor os d = (Some i, d1)"
    and "os_ret os (trace d1) (Accept (m_target_server_socket d)) = UNKNOWN_FD"
  shows "\<exists>d'. targetServerHandler os d = Ret (if tg_cnt d = 0 then -1 else 1, d') \<and> pool_ok d'
    \<and> used_slots (tg_use d') = used_slots (tg_use d) \<union> (if tg_cnt d = 0 then {i} else {})"
proof -
  let ?d2 = "emit (Accept (m_target_server_socket d)) d1"
  note c = target_ctor_Some [OF assms(1,2)] target_ctor_inst [OF assms(2)]
  have h: "targetServerHandler os d = target_connect_fail i ?d2"
    using assms(2) target_accept_fails [OF assms(3), of i] c by (simp add: targetServerHandler_def)
  show ?thesis
  proof (cases "tg_cnt d = 0")
    case True
    with h c show ?thesis by (simp add: target_connect_fail_def target_cnt_get_def)
  next
    case False
    have "pool_ok ?d2" "i \<in> used_slots (tg_use ?d2)" using c by simp_all
    then obtain d' where "target_dtor i ?d2 = Ret d'" "pool_ok d'"
      "used_slots (tg_use d') = used_slots (tg_use ?d2) - {i}" by (rule target_dtor_ok)
    with h c False show ?thesis by (simp add: target_connect_fail_def target_cnt_get_def)
  qed
qed

theorem failed_connection_slot_witness:
  "\<exists>i d'. targetServerHandler (sample_os (-1)) manager0 = Ret (-1, d') \<and> used_slots (tg_use d') = {i}"
proof -
  obtain t d1 where c: "target_ctor (sample_os (-1)) manager0 = (t, d1)" by fastforce
  have u: "used_slots (tg_use manager0) = {}" by (auto simp: used_slots_def manager0_def)
  moreover have "0 \<in> {..<MAX_TARGET_COUNT}" by (simp add: MAX_TARGET_COUNT_def)
  ultimately have "t \<noteq> None"
    using target_ctor_None(4) [OF manager0_pool, of "sample_os (-1)" d1] c by auto
  then obtain i where "t = Some i" by blast
  with c have c: "target_ctor (sample_os (-1)) manager0 = (Some i, d1)" by simp
  have "tg_cnt manager0 = 0" by (simp add: manager0_def)
  with failed_connection_slot [OF manager0_pool c] u show ?thesis by (auto simp: UNKNOWN_FD_def)
qed

text \<open>How many bytes the calls of \<^verbatim>\<open>recv\<close> ask for.\<close>

definition recv_sizes :: "io list \<Rightarrow> nat" where
  "recv_sizes es = (\<Sum>e\<leftarrow>es. case e of Recv s n \<Rightarrow> n | _ \<Rightarrow> 0)"

lemma recv_blocks_full:
  assumes "\<And>es n. os_ret os es (Recv fd n) = int n"
  shows "\<exists>d'. recv_blocks os fd k d = (True, d') \<and> trace d' = trace d @ replicate k (Recv fd 512)"
proof (induction k arbitrary: d)
  case (Suc k)
  obtain d' where "recv_blocks os fd k (emit (Recv fd 512) d) = (True, d')"
    "trace d' = trace (emit (Recv fd 512) d) @ replicate k (Recv fd 512)"
    using Suc.IH by blast
  with assms [of "trace d" 512] show ?case by (simp add: sys_def)
qed simp

text \<open>
  A request that is too long is taken off the socket completely: when every read is full, the reads
  add up to the length in its header.
\<close>

theorem long_request_drained:
  assumes "\<And>es n. os_ret os es (Recv fd n) = int n"
  shows "\<exists>es. trace (recv_msg_tail os fd len d) = trace d @ es \<and> recv_sizes es = unat len"
proof -
  obtain d' where b: "recv_blocks os fd (unat (len div 512)) d = (True, d')"
    "trace d' = trace d @ replicate (unat (len div 512)) (Recv fd 512)"
    using recv_blocks_full [OF assms] by blast
  have s: "recv_sizes (replicate k (Recv fd 512) @ es) = k * 512 + recv_sizes es" for k es
    by (simp add: recv_sizes_def sum_list_replicate)
  have u: "unat (len div 512) * 512 + unat (len mod 512) = unat len"
    by (simp add: unat_div unat_mod)
  have z: "len mod 512 = 0 \<Longrightarrow> unat (len mod 512) = 0" by simp
  show ?thesis
    using b u z s [of "unat (len div 512)" "[]"] s [of "unat (len div 512)" "[Recv fd (unat (len mod 512))]"]
    by (cases "len mod 512 = 0") (auto simp: recv_msg_tail_def recv_sizes_def)
qed

theorem long_request_drained_witness:
  "\<exists>es. trace (recv_msg_tail (talking_os []) 5 1300 manager0) = trace manager0 @ es \<and> recv_sizes es = 1300"
proof -
  have "os_ret (talking_os []) es (Recv 5 n) = int n" for es n by simp
  from long_request_drained [OF this, of 1300 manager0] show ?thesis by simp
qed

end
