(* ===== verification/Daemon_Main.thy ===== *)
theory Daemon_Main
  imports Daemon
begin

text \<open>
  Start and end of the program: the driver's files (\<^verbatim>\<open>daemon/buffer.c\<close>), the server sockets, the
  single instance, the end by a signal or at exit (\<^verbatim>\<open>daemon/main.c\<close>). Whether
  \<^verbatim>\<open>initialize_system_info\<close> finds memory is a parameter here; its model is in \<open>Sys_Cpu\<close>.
\<close>

section \<open>The driver's files\<close>

definition INST_PID_FILENAME :: bytes where
  "INST_PID_FILENAME = cstr ''/sys/kernel/debug/swap/us_manager/tasks''"

definition open_tasks_dev :: "os_t \<Rightarrow> da_t \<Rightarrow> int \<times> da_t" where
  "open_tasks_dev os d =
     (if \<not> m_inst_tasks d then
        (let (r, d) = sys os (Fopen INST_PID_FILENAME) d; d = d\<lparr>m_inst_tasks := (r \<noteq> 0)\<rparr> in
         (if r = 0 then 1 else 0, d))
      else (0, d))"

definition close_tasks_dev :: "da_t \<Rightarrow> da_t" where
  "close_tasks_dev d = (if m_inst_tasks d then (emit Fclose d)\<lparr>m_inst_tasks := False\<rparr> else d)"

definition BUF_FILENAME :: bytes where "BUF_FILENAME = cstr ''/dev/swap_device''"
definition USER_EVENT_FILENAME :: bytes where
  "USER_EVENT_FILENAME = cstr ''/sys/kernel/debug/swap/writer/raw''"

definition open_buf_ctl :: "os_t \<Rightarrow> da_t \<Rightarrow> int \<times> da_t" where
  "open_buf_ctl os d =
     (let (fd, d) = sys os (Open BUF_FILENAME) d; d = d\<lparr>m_buf_fd := fd\<rparr> in
      if fd = -1 then (1, d)
      else (let (fd, d) = sys os (Open USER_EVENT_FILENAME) d; d = d\<lparr>m_user_ev_fd := fd\<rparr> in
            (if fd = -1 then 1 else 0, d)))"

definition close_buf_ctl :: "da_t \<Rightarrow> da_t" where
  "close_buf_ctl d = emit (Close (m_user_ev_fd d)) (emit (Close (m_buf_fd d)) d)"

definition start_sh :: bytes where "start_sh = cstr ''cd /opt/swap/sdk && ./start.sh''"
definition stop_sh :: bytes where "stop_sh = cstr ''cd /opt/swap/sdk && ./stop.sh''"

definition insert_buf_modules :: "os_t \<Rightarrow> da_t \<Rightarrow> int \<times> da_t" where
  "insert_buf_modules os d =
     (let (r, d) = sys os (System start_sh) d in (if r \<noteq> 0 then -1 else 0, d))"

definition remove_buf_modules :: "da_t \<Rightarrow> da_t" where
  "remove_buf_modules d = emit (System stop_sh) d"

definition init_buf :: "os_t \<Rightarrow> da_t \<Rightarrow> int \<times> da_t" where
  "init_buf os d =
     (let (r, d) = insert_buf_modules os d in
      if r \<noteq> 0 then (1, d)
      else (let (r, d) = open_buf_ctl os d in
      if r \<noteq> 0 then (1, d)
      else (let (r, d) = sys os Ioctl_init d in
      if r = -1 then (1, d)
      else (let (r, d) = open_tasks_dev os d in (if r \<noteq> 0 then 1 else 0, d)))))"

definition exit_buf :: "da_t \<Rightarrow> da_t" where
  "exit_buf d = close_tasks_dev (close_buf_ctl (emit Ioctl_uninit d))"

section \<open>Server sockets\<close>

definition UDS_NAME :: bytes where "UDS_NAME = cstr ''/tmp/da.socket''"
definition INIT_PORT :: nat where "INIT_PORT = 8001"
definition LIMIT_PORT :: nat where "LIMIT_PORT = 8100"

definition makeTargetServerSocket :: "os_t \<Rightarrow> da_t \<Rightarrow> int \<times> da_t" where
  "makeTargetServerSocket os d =
     (if m_target_server_socket d \<noteq> -1 then (-1, d)
      else
        (let (s, d) = sys os Socket_local (emit (Unlink UDS_NAME) d); d = d\<lparr>m_target_server_socket := s\<rparr> in
         if s < 0 then (-1, d)
         else
           (let (r, d) = sys os (Bind_local s UDS_NAME) (fd_setup_attributes s d) in
            if r = -1 then (-1, d)
            else (let (r, d) = sys os (Listen s) (emit (Chmod UDS_NAME) d) in
                  (if r = -1 then -1 else 0, d)))))"

primrec bind_ports :: "os_t \<Rightarrow> int \<Rightarrow> nat list \<Rightarrow> da_t \<Rightarrow> nat option \<times> da_t" where
  "bind_ports os s [] d = (None, d)"
| "bind_ports os s (port # ports) d =
     (let (r, d) = sys os (Bind_port s port) d in
      if r = 0 then (Some port, d) else bind_ports os s ports d)"

definition makeHostServerSocket :: "os_t \<Rightarrow> da_t \<Rightarrow> int \<times> da_t" where
  "makeHostServerSocket os d =
     (if m_host_server_socket d \<noteq> -1 then (-1, d)
      else
        (let (s, d) = sys os Socket_inet d; d = d\<lparr>m_host_server_socket := s\<rparr> in
         if s < 0 then (-1, d)
         else
           (let (port, d) = bind_ports os s [INIT_PORT..<LIMIT_PORT] d in
            case port of
              None \<Rightarrow> (-1, d)
            | Some port \<Rightarrow>
                (let (r, d) = sys os (Listen s) d in (if r = -1 then -1 else int port, d)))))"

section \<open>Start\<close>

definition SINGLETON_LOCKFILE :: bytes where "SINGLETON_LOCKFILE = cstr ''/tmp/da_manager.lock''"

text \<open>The descriptor that holds the lock is closed, whether it was locked or not.\<close>

definition ensure_singleton :: "os_t \<Rightarrow> bytes \<Rightarrow> da_t \<Rightarrow> bool \<times> da_t" where
  "ensure_singleton os lockfile d =
     (let (r, d) = sys os (Access lockfile) d in
      if r = 0 then (False, d)
      else
        (let (lockfd, d) = sys os (Open lockfile) d in
         if lockfd < 0 then (False, d)
         else (let (r, d) = sys os (Flock lockfd) d in (r = 0, emit (Close lockfd) d))))"

definition initializeManager :: "os_t \<Rightarrow> bool \<Rightarrow> da_t \<Rightarrow> int \<times> da_t" where
  "initializeManager os sysinfo_ok d =
     (let write_int = (\<lambda>code d. emit (Write_port code) d); (r, d) = init_buf os d in
      if r \<noteq> 0 then (-1, d)
      else if \<not> sysinfo_ok then (-1, write_int (err_val ERR_INITIALIZE_SYSTEM_INFO_FAILED) d)
      else (let (r, d) = makeTargetServerSocket os d in
      if r \<noteq> 0 then (-1, write_int (err_val ERR_TARGET_SERVER_SOCKET_CREATE_FAILED) d)
      else (let (r, d) = sys os Sigmask d in
      if r \<noteq> 0 then (-1, write_int (err_val ERR_SIGNAL_MASK_SETTING_FAILED) d)
      else (let (port, d) = makeHostServerSocket os d in
      if port < 0 then (-1, write_int (err_val ERR_HOST_SERVER_SOCKET_CREATE_FAILED) d)
      else (0, target_cnt_set 0 (write_int port d))))))"

section \<open>End\<close>

definition finalizeManager :: "da_t \<Rightarrow> da_t" where
  "finalizeManager d =
     (let d = (if m_control_socket d \<noteq> -1 then emit (Close (m_control_socket d)) d else d) in
      if m_data_socket d \<noteq> -1 then emit (Close (m_data_socket d)) d else d)"

definition close_server_socket :: "da_t \<Rightarrow> da_t" where
  "close_server_socket d =
     (let d = (if m_host_server_socket d \<noteq> -1 then emit (Close (m_host_server_socket d)) d else d) in
      if m_target_server_socket d \<noteq> -1 then emit (Close (m_target_server_socket d)) d else d)"

definition unlink_files :: "da_t \<Rightarrow> da_t" where
  "unlink_files d = emit (Unlink SINGLETON_LOCKFILE) (emit (Unlink PORTFILE) d)"

text \<open>\<open>in_process\<close>: the mutex of \<^verbatim>\<open>stop_all\<close> is taken, by the stop the signal interrupted.\<close>

definition terminate :: "os_t \<Rightarrow> bool \<Rightarrow> int \<Rightarrow> da_t \<Rightarrow> da_t run" where
  "terminate os in_process sig d =
     (if \<not> in_process then
        rbind (stop_all_no_lock os d) (\<lambda>(_, d).
          let d = remove_buf_modules (exit_buf (close_server_socket (unlink_files d))) in
          Ret (if sig \<noteq> 0 then emit (Raise sig) (emit (Signal_default sig) d) else d))
      else Ret (if sig \<noteq> 0 then emit (Signal_ignore sig) d else d))"

definition terminate0 :: "os_t \<Rightarrow> da_t \<Rightarrow> da_t run" where
  "terminate0 os d = terminate os False 0 d"

text \<open>
  \<^verbatim>\<open>main\<close> with the exit handler \<^verbatim>\<open>terminate0\<close> that it registers. \<open>log_ok\<close>: \<^verbatim>\<open>initialize_log\<close>
  (\<open>Daemon_Log\<close>) gave 0.
\<close>

definition at_exit :: "os_t \<Rightarrow> int \<Rightarrow> da_t \<Rightarrow> (int \<times> da_t) run" where
  "at_exit os r d = rbind (terminate0 os d) (\<lambda>d. Ret (r, d))"

definition main_fn ::
  "os_t \<Rightarrow> (io list \<Rightarrow> target_info_t) \<Rightarrow> bool \<Rightarrow> bool \<Rightarrow> callback list \<Rightarrow> da_t \<Rightarrow> (int \<times> da_t) run" where
  "main_fn os fill_target_info log_ok sysinfo_ok cs d =
     (let (single, d) = ensure_singleton os SINGLETON_LOCKFILE d in
      if \<not> single then Ret (1, d)
      else if \<not> log_ok then rbind (terminate0 os d) (\<lambda>d. Ret (0, d))
      else
        (let (portfile, d) = sys os (Fopen PORTFILE) d in
         if portfile = 0 then at_exit os 1 d
         else
           (let (err, d) = initializeManager os sysinfo_ok d; d = emit Fclose d in
            if err \<noteq> 0 then at_exit os 1 d
            else
              rbind (daemonLoop os fill_target_info cs d) (\<lambda>(_, d).
              rbind (stop_all os d) (\<lambda>(_, d).
                at_exit os 0 (finalizeManager d))))))"

section \<open>Facts\<close>

lemma bind_ports_find:
  assumes "\<And>es p. os_ret os es (Bind_port s p) = b p"
  shows "fst (bind_ports os s ports d) = find (\<lambda>p. b p = 0) ports"
  using assms by (induction ports arbitrary: d) (simp_all add: sys_def)

definition exit_buf_calls :: "da_t \<Rightarrow> io list" where
  "exit_buf_calls d =
     [Ioctl_uninit, Close (m_buf_fd d), Close (m_user_ev_fd d)] @ (if m_inst_tasks d then [Fclose] else [])"

definition close_server_calls :: "da_t \<Rightarrow> io list" where
  "close_server_calls d =
     (if m_host_server_socket d \<noteq> -1 then [Close (m_host_server_socket d)] else [])
     @ (if m_target_server_socket d \<noteq> -1 then [Close (m_target_server_socket d)] else [])"

lemma exit_buf_trace: "trace (exit_buf d) = trace d @ exit_buf_calls d"
  by (simp add: exit_buf_def close_tasks_dev_def close_buf_ctl_def exit_buf_calls_def)

lemma close_server_trace:
  "trace (close_server_socket d) = trace d @ close_server_calls d"
  "exit_buf_calls (close_server_socket d) = exit_buf_calls d"
  by (simp_all add: close_server_socket_def close_server_calls_def exit_buf_calls_def Let_def)

lemma unlink_files_trace:
  "trace (unlink_files d) = trace d @ [Unlink PORTFILE, Unlink SINGLETON_LOCKFILE]"
  "exit_buf_calls (unlink_files d) = exit_buf_calls d" "close_server_calls (unlink_files d) = close_server_calls d"
  by (simp_all add: unlink_files_def exit_buf_calls_def close_server_calls_def)

lemma stop_all_no_lock_returns:
  assumes "session_inv d"
  obtains e d' where "stop_all_no_lock os d = Ret (e, d')"
proof (cases "s_running d")
  case True
  have "pool_ok d" using assms by (simp add: session_inv_def)
  then show thesis by (rule stop_all_no_lock_cases [OF _ True, of os]) (use that in blast)+
next
  case False
  with that show thesis by (simp add: stop_all_no_lock_def)
qed

section \<open>Properties\<close>

text \<open>
  The port of the host's server is the first from 8001 to 8099 that can be bound, and -1 when there
  is none; the loop over the ports agrees with a search.
\<close>

theorem port_search:
  assumes "m_host_server_socket d = -1" "os_ret os (trace d) Socket_inet = s" "0 \<le> s"
    and "\<And>es p. os_ret os es (Bind_port s p) = b p" "\<And>es. os_ret os es (Listen s) \<noteq> -1"
  shows "fst (makeHostServerSocket os d) =
    (case find (\<lambda>p. b p = 0) [8001..<8100] of None \<Rightarrow> -1 | Some p \<Rightarrow> int p)"
proof -
  let ?d = "(emit Socket_inet d)\<lparr>m_host_server_socket := s\<rparr>"
  obtain port d2 where b: "bind_ports os s [8001..<8100] ?d = (port, d2)" by fastforce
  have "port = find (\<lambda>p. b p = 0) [8001..<8100]"
    using bind_ports_find [OF assms(4), of "[8001..<8100]" ?d] b by simp
  with b assms(1-3,5) show ?thesis
    by (simp add: makeHostServerSocket_def sys_def INIT_PORT_def LIMIT_PORT_def split: option.splits)
qed

text \<open>Only the port 8050 is free.\<close>

definition port_os :: os_t where
  "port_os = (sample_os 0)\<lparr>os_ret := \<lambda>_ e. (case e of Bind_port s p \<Rightarrow> (if p = 8050 then 0 else -1) | _ \<Rightarrow> 6)\<rparr>"

theorem port_search_witness: "fst (makeHostServerSocket port_os manager0) = 8050"
proof -
  have "fst (makeHostServerSocket port_os manager0) =
      (case find (\<lambda>p. (if p = 8050 then 0 else -1) = (0 :: int)) [8001..<8100] of None \<Rightarrow> -1 | Some p \<Rightarrow> int p)"
    by (rule port_search [where s = 6]) (simp_all add: port_os_def manager0_def)
  moreover have "find (\<lambda>p. (if p = 8050 then 0 else -1) = (0 :: int)) [8001..<8100] = Some 8050"
    by simp
  ultimately show ?thesis by simp
qed



end
