(* ===== verification/Daemon_Inv.thy ===== *)
theory Daemon_Inv
  imports Daemon_Main
begin

text \<open>
  The daemon as a transition system: the callbacks of the main loop, the messages the receive
  threads handle, the end of the replay thread. The session invariant holds in every state that can
  be reached; the locale \<open>event_system\<close> is the contract between a loop over callbacks and an
  invariant.
\<close>

section \<open>Requests\<close>

lemma sendACK_quiet: "sendACKToHost os resp e pl d = Ret (r, d') \<Longrightarrow> quiet d d'"
  by (auto simp: sendACKToHost_def sys_def Let_def split: if_splits option.splits)

lemma send_ack_quiet: "send_ack os resp e r d = Ret (r', d') \<Longrightarrow> quiet d d' \<and> r' = r"
  by (auto simp: send_ack_def rbind_Ret_iff dest: sendACK_quiet)

lemma exit_ack_quiet: "exit_ack os resp e d = Ret (r', d') \<Longrightarrow> quiet d d'"
  by (auto simp: exit_ack_def dest: send_ack_quiet)

lemma send_slots_quiet: "quiet d (snd (send_slots os block len is ret d))"
proof (induction "is" arbitrary: ret d)
  case (Cons i "is")
  obtain r d1 where t: "target_send_msg os i block len d = (r, d1)" by fastforce
  then have "quiet d d1" using target_send_msg_simps [of os i block len d] by simp
  with Cons quiet_trans [OF this Cons.IH] t show ?case by simp
qed simp

lemma send_all_quiet [simp]: "quiet d (snd (target_send_msg_to_all os block len d))"
  by (simp add: target_send_msg_to_all_def send_slots_quiet)

lemma ioctl_quiet [simp]: "quiet d (snd (ioctl_send_msg os m d))"
  by (simp add: ioctl_send_msg_def sys_def Let_def)

lemma ioctl_cases: "\<exists>r. ioctl_send_msg os m d = (r, emit (Ioctl_msg m) d)"
  by (simp add: ioctl_send_msg_def sys_def Let_def)

lemma send_maps_quiet: "send_maps_inst_msg_to os i d = Ret d' \<Longrightarrow> quiet d d'"
  by (auto simp: send_maps_inst_msg_to_def split: option.splits)

lemma send_maps_all_quiet: "send_maps_inst_msg_to_all_targets os d = Ret d' \<Longrightarrow> quiet d d'"
  by (auto simp: send_maps_inst_msg_to_all_targets_def split: option.splits if_splits)

lemma send_reply_quiet [simp]: "quiet d (snd (send_reply os m d))"
  by (simp add: send_reply_def sys_def Let_def)

lemma session_inv_inst [simp]: "session_inv (d\<lparr>s_inst := x\<rparr>) = session_inv d"
  by (simp add: session_inv_def option_set_def)

lemma apply_inst_inv: "apply_inst os r d = Ret (out, d') \<Longrightarrow> session_inv d' = session_inv d"
  by (auto simp: apply_inst_def rbind_Ret_iff Let_def dest!: send_maps_all_quiet quiet_inv split: if_splits)

lemma inst_requests_inv:
  assumes "session_inv d"
    and "handle_inst_add os msg d = Ret (r, d') \<or> handle_inst_remove os msg d = Ret (r, d')"
  shows "session_inv d'"
proof -
  have ack: "session_inv d2" if "session_inv d1" "exit_ack os i e d1 = Ret (r', d2)" for d1 d2 i e r'
    using that quiet_inv [OF exit_ack_quiet] by blast
  have io: "session_inv d2" if "session_inv d1" "ioctl_send_msg os m d1 = (q, d2)" for d1 d2 m q
    using that quiet_inv [OF ioctl_quiet [of d1 os m]] by simp
  from assms(2) obtain st out d1 where a: "apply_inst os st d = Ret (out, d1)"
    and rest: "(\<exists>i e. exit_ack os i e d1 = Ret (r, d'))
      \<or> (\<exists>m q d2 i e. ioctl_send_msg os m d1 = (q, d2) \<and> exit_ack os i e d2 = Ret (r, d'))"
    by (auto simp: handle_inst_add_def handle_inst_remove_def rbind_Ret_iff Let_def
        split: if_splits option.splits prod.splits) blast+
  from a assms(1) have "session_inv d1" by (simp add: apply_inst_inv)
  with rest ack io show ?thesis by blast
qed

lemma handle_config_inv:
  assumes inv: "session_inv d" and r: "handle_config os msg d = Ret (r, d')"
  shows "session_inv d'"
proof (cases "parse_msg_config (init_parse_control msg)")
  case (POk c b)
  obtain q d1 where rec: "reconfigure os c d = (q, d1)" by fastforce
  have i1: "session_inv d1" using reconfigure_inv(1) [OF inv rec] .
  show ?thesis
  proof (cases "q = 0")
    case False
    with r POk rec i1 show ?thesis by (simp add: handle_config_def)
  next
    case True
    from r POk rec True obtain m q2 d2 where io: "ioctl_send_msg os m d1 = (q2, d2)"
      and rest: "send_ack os (msg_id msg) ERR_UNKNOWN (-1) d2 = Ret (r, d')
        \<or> (\<exists>d3 q3. send_ack os (msg_id msg) ERR_NO 0 d2 = Ret (q3, d3) \<and> d' = send_option_to_all os d3)"
      by (auto simp: handle_config_def Let_def rbind_Ret_iff split: prod.splits if_splits)
    from io have "quiet d1 d2" using ioctl_quiet [of d1 os m] by simp
    then have i2: "session_inv d2" using i1 quiet_inv by blast
    have "quiet d2 d'" using rest
      by (auto simp: send_option_to_all_def Let_def dest!: send_ack_quiet intro: quiet_trans [OF _ send_all_quiet])
    with i2 quiet_inv show ?thesis by blast
  qed
next
  case PFail
  with r inv show ?thesis by (auto simp: handle_config_def dest!: send_ack_quiet quiet_inv)
next
  case PFault
  with r show ?thesis by (simp add: handle_config_def)
qed

lemma binary_info_quiet: "process_msg_binary_info os b d = Ret (r, d') \<Longrightarrow> quiet d d'"
  by (auto simp: process_msg_binary_info_def rbind_Ret_iff split: pres.splits if_splits)
    (metis send_reply_quiet snd_conv)

lemma cmd_lines_quiet: "quiet d (snd (cmd_lines os pids d))"
proof (induction pids arbitrary: d)
  case (Cons p pids)
  have "quiet d (snd (get_process_cmd_line os p d))"
    by (simp add: get_process_cmd_line_def Let_def sys_def)
  with Cons show ?case by (auto simp: split: prod.split) (metis quiet_trans snd_conv)
qed simp

lemma add_info_quiet:
  assumes "process_msg_get_process_add_info os b d = Ret (r, d')"
  shows "quiet d d'"
proof -
  from assms obtain pids e pl r2 where
    "sendACKToHost os (msg_val NMSG_GET_PROCESS_ADD_INFO) e pl (snd (cmd_lines os pids d)) = Ret (r2, d')"
    by (auto simp: process_msg_get_process_add_info_def add_info_fail_def rbind_Ret_iff Let_def
        split: pres.splits if_splits prod.splits) (metis snd_conv)+
  with cmd_lines_quiet show ?thesis by (blast intro: quiet_trans dest: sendACK_quiet)
qed

lemma handle_stop_inv:
  assumes inv: "session_inv d" and r: "handle_stop os msg d = Ret (r, d')"
  shows "session_inv d'"
proof -
  from r obtain q d1 where a: "send_ack os (msg_id msg) ERR_NO 0 d = Ret (q, d1)"
    and s: "rbind (stop_all os d1) (\<lambda>(e, d). Ret (0 :: int, if e \<noteq> ERR_NO then
               write_msg_error os (cstr ''Stop failed'') d else d)) = Ret (r, d')"
    by (auto simp: handle_stop_def rbind_Ret_iff)
  have "session_inv d1" using send_ack_quiet [OF a] inv quiet_inv by blast
  then obtain e d2 where "stop_all os d1 = Ret (e, d2)" "session_inv d2"
    by (rule stop_all_inv)
  with s quiet_inv [OF write_msg_error_quiet] show ?thesis by (auto split: if_splits)
qed

lemma host_message_inv:
  assumes inv: "session_inv d" and r: "host_message_handler os fti msg d = Ret (r, d')"
  shows "session_inv d'"
proof -
  have q: "session_inv d'" if "quiet d d'" using that inv quiet_inv by blast
  have info: "quiet d d'" if "handle_target_info os fti msg d = Ret (r, d')"
    using that send_reply_quiet
    by (auto simp: handle_target_info_def dest: send_ack_quiet split: option.splits if_splits)
  have shot: "quiet d d'" if "process_msg_get_screenshot os d = (r, d')"
  proof -
    have "d' = snd (target_send_msg_to_all os (target_msg MSG_CAPTURE_SCREEN []) 0 d)"
      using that by (simp add: process_msg_get_screenshot_def Let_def split: prod.splits)
    then show ?thesis by simp
  qed
  from r show ?thesis
    unfolding host_message_handler_def Let_def
    by (auto split: if_splits
        intro: q inst_requests_inv [OF inv] handle_config_inv [OF inv] handle_stop_inv [OF inv]
        dest: binary_info_quiet add_info_quiet info shot exit_ack_quiet send_ack_quiet
          process_msg_start_result [OF inv])
      (auto simp: start_result_def dest: process_msg_start_result [OF inv])
qed

section \<open>Host and timers\<close>

lemma close_connect_timer_inv [simp]: "session_inv (close_connect_timer d) = session_inv d"
  by (simp add: close_connect_timer_def session_inv_def option_set_def pool_ok_def target_get_def)

lemma session_inv_sockets [simp]:
  "session_inv (d\<lparr>m_data_socket := x\<rparr>) = session_inv d"
  "session_inv (d\<lparr>m_control_socket := x\<rparr>) = session_inv d"
  "session_inv (d\<lparr>m_connect_timerfd := x\<rparr>) = session_inv d"
  "session_inv (d\<lparr>g_host_order := n\<rparr>) = session_inv d"
  "session_inv (d\<lparr>g_lpad_pid := x\<rparr>) = session_inv d"
  "session_inv (d\<lparr>tg_cnt := x\<rparr>) = session_inv d"
  "session_inv (d\<lparr>m_apps_to_run := x\<rparr>) = session_inv d"
  "session_inv (d\<lparr>m_launch_timerfd := x\<rparr>) = session_inv d"
  "session_inv (d\<lparr>s_replay := q\<rparr>) = session_inv d"
  "session_inv (d\<lparr>m_replay := y\<rparr>) = session_inv d"
  "session_inv (emit e d) = session_inv d"
  by (simp_all add: session_inv_def option_set_def pool_ok_def target_get_def)

lemma recv_blocks_quiet: "quiet d (snd (recv_blocks os fd n d))"
proof (induction n arbitrary: d)
  case (Suc n)
  show ?case
    using quiet_trans [OF _ Suc.IH [of "emit (Recv fd 512) d"]] by (simp add: sys_def Let_def)
qed simp

lemma recv_msg_tail_quiet: "quiet d (recv_msg_tail os fd len d)"
  using recv_blocks_quiet [of d os fd "unat (len div 512)"]
  by (auto simp: recv_msg_tail_def Let_def split: prod.split)

lemma control_message_inv:
  assumes inv: "session_inv d" and r: "control_message os fti ident len d = Ret (r, d')"
  shows "session_inv d'"
proof -
  have ack: "session_inv d'" if "send_ack os i e q (recv_msg_tail os fd len d) = Ret (r, d')" for i e q fd len
  proof -
    have "quiet d d'" using quiet_trans [OF recv_msg_tail_quiet] send_ack_quiet [OF that] by blast
    with inv quiet_inv show ?thesis by blast
  qed
  have msg: "session_inv d'" if "host_message_handler os fti m d2 = Ret (r, d')" "session_inv d2" for m d2
    using host_message_inv [OF that(2,1)] .
  from r show ?thesis
    unfolding control_message_def Let_def sys_def
    by (auto split: if_splits simp: inv intro: ack msg)
qed

lemma controlSocketHandler_inv:
  assumes inv: "session_inv d" and r: "controlSocketHandler os fti stack d = Ret (r, d')"
  shows "session_inv d'"
proof -
  define d1 where "d1 = (if m_connect_timerfd d \<ge> 0 then close_connect_timer d else d)"
  have "session_inv d1" using inv by (simp add: d1_def)
  then show ?thesis
    using r control_message_inv [of "emit (Recv (m_control_socket d1) 8) d1"]
    unfolding controlSocketHandler_def Let_def sys_def d1_def [symmetric]
    by (simp split: if_splits) auto
qed

lemma host_callbacks_inv:
  assumes inv: "session_inv d"
  shows "host_ctrl_cb os fti stack d = Ret d' \<Longrightarrow> session_inv d'"
    and "session_inv (host_data_cb os d)" and "session_inv (host_connect_cb os d)"
    and "session_inv (launch_timer_cb os d)"
  using inv controlSocketHandler_inv [OF inv] quiet_inv [OF stop_app_launch_timer_quiet]
  by (auto simp: host_ctrl_cb_def host_data_cb_def host_connect_cb_def hostServerHandler_def
      launch_timer_cb_def rbind_Ret_iff Let_def sys_def)

lemma terminate_all_inv:
  assumes "session_inv d"
  obtains d' where "terminate_all os d = Ret d'" "session_inv d'"
proof -
  have "pool_ok d" using assms by (simp add: session_inv_def)
  then obtain d' where "terminate_all os d = Ret d'" "pool_ok d'" "s_conf d' = s_conf d"
    "s_running d' = s_running d" "m_sampling d' = m_sampling d" "g_input_running d' = g_input_running d"
    by (rule terminate_all_fields [of d os])
  with assms that show thesis by (simp add: session_inv_def option_set_def)
qed

lemma terminate_error_inv:
  assumes "session_inv d"
  obtains d' where "terminate_error os msg h d = Ret d'" "session_inv d'"
proof -
  have "session_inv (if h then write_msg_error os msg d else d)"
    using assms quiet_inv [OF write_msg_error_quiet] by simp
  then show thesis using that unfolding terminate_error_def by (rule terminate_all_inv)
qed

lemma connect_timer_inv:
  assumes "session_inv d"
  obtains d' where "connect_timer_cb os d = Ret d'" "session_inv d'"
proof -
  obtain d1 where d1: "terminate_error os (cstr ''no incoming connections'') True d = Ret d1" "session_inv d1"
    using assms by (rule terminate_error_inv)
  let ?d = "emit Loop_quit ((emit (Close (m_connect_timerfd d1)) d1)\<lparr>m_connect_timerfd := -1\<rparr>)"
  have "connect_timer_cb os d = Ret ?d" using d1(1) by (simp add: connect_timer_cb_def)
  moreover have "session_inv ?d" using d1(2) by simp
  ultimately show thesis by (rule that)
qed

lemma read_events_quiet: "quiet d (snd (read_events os fd n d))"
proof (induction n arbitrary: d)
  case (Suc n)
  have "quiet d (snd (read_events os fd n (emit (Read_fd fd sizeof_input_event) d)))"
    using quiet_trans [OF _ Suc.IH] by simp
  then show ?case by (auto simp: sys_def Let_def split: prod.split)
qed simp

lemma deviceEventHandler_inv: "session_inv (snd (deviceEventHandler os fd ty d)) = session_inv d"
proof -
  have "quiet d (snd (deviceEventHandler os fd ty d))"
    using read_events_quiet [of d os fd MAX_EVENTS_NUM]
    by (auto simp: deviceEventHandler_def write_to_buf_def sys_def Let_def split: prod.split)
  then show ?thesis by (rule quiet_inv)
qed

section \<open>Targets\<close>

lemma upd_target_session [simp]:
  "s_conf (upd_target i f d) = s_conf d" "s_running (upd_target i f d) = s_running d"
  "s_inst (upd_target i f d) = s_inst d" "m_sampling (upd_target i f d) = m_sampling d"
  "g_input_running (upd_target i f d) = g_input_running d" "tg_cnt (upd_target i f d) = tg_cnt d"
  "g_lpad_pid (upd_target i f d) = g_lpad_pid d" "m_replay (upd_target i f d) = m_replay d"
  by (simp_all add: upd_target_def)

lemma session_inv_upd:
  "session_inv d \<Longrightarrow> (\<And>t. t_thread t \<noteq> None \<Longrightarrow> t_thread (f t) \<noteq> None) \<Longrightarrow> session_inv (upd_target i f d)"
  by (auto simp: session_inv_def option_set_def intro: upd_target_ok)

text \<open>The state is kept together with the slots in use.\<close>

definition same_slots :: "da_t \<Rightarrow> da_t \<Rightarrow> bool" where
  "same_slots d d' \<longleftrightarrow> session_inv d' \<and> tg_use d' = tg_use d"

lemma same_slotsI: "session_inv d' \<Longrightarrow> tg_use d' = tg_use d \<Longrightarrow> same_slots d d'"
  by (simp add: same_slots_def)

lemma get_lpad_slots: "session_inv d \<Longrightarrow> get_lpad_pid os p d = (r, d') \<Longrightarrow> same_slots d d'"
  by (auto simp: get_lpad_pid_def Let_def sys_def same_slots_def split: if_splits)

lemma target_set_type_slots: "session_inv d \<Longrightarrow> same_slots d (target_set_type os i d)"
  using get_lpad_slots [of d os "t_ppid (target_get i d)"]
  by (auto simp: target_set_type_def same_slots_def Let_def intro!: session_inv_upd split: prod.split)

lemma is_same_app_quiet: "is_same_app_process os p pid d = Ret (r, d') \<Longrightarrow> quiet d d'"
  by (auto simp: is_same_app_process_def rbind_Ret_iff Let_def sys_def split: if_splits)

lemma find_app_quiet: "find_app os pid apps d = Ret (r, d') \<Longrightarrow> quiet d d'"
proof (induction apps arbitrary: d)
  case (Cons a apps)
  then show ?case
    by (auto simp: rbind_Ret_iff dest!: is_same_app_quiet split: if_splits)
      (meson Cons.IH quiet_trans)
qed simp

lemma target_event_pid_slots:
  assumes inv: "session_inv d" and r: "target_event_pid_handler os i d = Ret (r, d')"
  shows "same_slots d d'"
proof -
  let ?d = "target_set_type os i d"
  have s: "session_inv ?d" "tg_use ?d = tg_use d"
    using target_set_type_slots [OF inv] by (simp_all add: same_slots_def)
  have q: "same_slots d d2" if "quiet ?d d2" for d2
    using that s quiet_inv [OF that] quiet_fields [OF that] by (simp add: same_slots_def)
  from r consider "d' = ?d"
    | f where "find_app os (t_pid (target_get i ?d)) (session_apps ?d) ?d = Ret (f, d')"
    | d2 r3 d3 where "find_app os (t_pid (target_get i ?d)) (session_apps ?d) ?d = Ret (True, d2)"
        "start_replay os d2 = (r3, d3)" "d' = d3 \<or> d' = upd_target i (\<lambda>t. t\<lparr>t_initial_log := True\<rparr>) d3"
    by (auto simp: target_event_pid_handler_def Let_def rbind_Ret_iff split: if_splits prod.splits)
  then show ?thesis
  proof cases
    case 3
    from 3(1) have "same_slots d d2" using find_app_quiet q by blast
    with 3(2) have "same_slots d d3"
      by (auto simp: start_replay_def same_slots_def Let_def sys_def split: if_splits)
    with 3(3) show ?thesis by (auto simp: same_slots_def intro!: session_inv_upd)
  qed (use s q find_app_quiet in \<open>auto simp: same_slots_def\<close>)
qed

lemma target_wait_inv:
  assumes "session_inv d" "target_wait os i d = Ret (r, d')"
  shows "same_slots d d'" and "t_thread (target_get i d) \<noteq> None"
  using assms
  by (auto simp: target_wait_def thread_wait_def Let_def sys_def same_slots_def
      intro!: session_inv_upd split: option.splits if_splits)

lemma target_dtor_inv:
  assumes inv: "session_inv d" and r: "target_dtor i d = Ret d'" and i: "i \<in> used_slots (tg_use d)"
  shows "session_inv d'" and "used_slots (tg_use d') = used_slots (tg_use d) - {i}"
proof -
  have "pool_ok d" using inv by (simp add: session_inv_def)
  then obtain d2 where "target_dtor i d = Ret d2" "pool_ok d2"
    "used_slots (tg_use d2) = used_slots (tg_use d) - {i}"
    using i by (rule target_dtor_ok)
  moreover have "s_conf d' = s_conf d" "s_running d' = s_running d" "m_sampling d' = m_sampling d"
    "g_input_running d' = g_input_running d"
    using r by (auto simp: target_dtor_def Let_def split: if_splits)
  ultimately show "session_inv d'" "used_slots (tg_use d') = used_slots (tg_use d) - {i}"
    using inv r by (simp_all add: session_inv_def option_set_def)
qed

lemma target_event_stop_inv:
  assumes inv: "session_inv d" and i: "i \<in> used_slots (tg_use d)"
    and r: "target_event_stop_handler os i d = Ret (r, d')"
  shows "session_inv d'"
proof -
  let ?d = "emit (Fd_handler_del (t_event_fd (target_get i d))) d"
  have r': "rbind (target_wait os i ?d) (\<lambda>(_, d).
      rbind (target_dtor i d) (\<lambda>d.
      let (cnt, d) = target_cnt_sub_and_fetch d in
      if cnt = 0 \<and> (t_app_type (target_get i ?d) = APP_TYPE_TIZEN \<or> t_app_type (target_get i ?d) = APP_TYPE_COMMON)
      then rbind (stop_all os d) (\<lambda>(_, d). Ret (-11, d)) else Ret (0, d))) = Ret (r, d')"
    using r unfolding target_event_stop_handler_def Let_def by simp
  then obtain q d1 d2 where w: "target_wait os i ?d = Ret (q, d1)" and dt: "target_dtor i d1 = Ret d2"
    and rest: "(\<exists>p. stop_all os (d2\<lparr>tg_cnt := tg_cnt d2 - 1\<rparr>) = Ret (p, d'))
      \<or> d' = d2\<lparr>tg_cnt := tg_cnt d2 - 1\<rparr>"
    by (auto simp: rbind_Ret_iff target_cnt_sub_and_fetch_def split: if_splits)
  have "session_inv d1" "tg_use d1 = tg_use d"
    using target_wait_inv(1) [OF _ w] inv by (simp_all add: same_slots_def)
  with target_dtor_inv(1) [OF _ dt] i have "session_inv d2" by simp
  then have "session_inv (d2\<lparr>tg_cnt := tg_cnt d2 - 1\<rparr>)" by simp
  then show ?thesis using rest by (metis stop_all_inv run.inject(1) prod.inject)
qed

lemma target_event_cb_inv:
  assumes inv: "session_inv d" and i: "i \<in> used_slots (tg_use d)" and r: "target_event_cb os i d = Ret d'"
  shows "session_inv d'"
proof -
  have "session_inv d2" if "target_event_handler os i u (emit e d) = Ret (q, d2)" for u e q d2
  proof -
    let ?d = "emit e d"
    from that obtain err d1 where
      a: "(if u AND EVENT_PID \<noteq> 0 then target_event_pid_handler os i ?d else Ret (0, ?d)) = Ret (err, d1)"
      and rest: "d2 = d1 \<or> target_event_stop_handler os i d1 = Ret (q, d2)"
      unfolding target_event_handler_def rbind_Ret_iff by (auto split: if_splits)
    have "same_slots ?d d1"
    proof (cases "u AND EVENT_PID \<noteq> 0")
      case True
      with a inv show ?thesis by (intro target_event_pid_slots [of ?d]) simp_all
    qed (use a inv in \<open>auto simp: same_slots_def\<close>)
    then have d1: "session_inv d1" "tg_use d1 = tg_use d" by (simp_all add: same_slots_def)
    with i rest target_event_stop_inv [of d1 i os] show ?thesis by auto
  qed
  with r inv show ?thesis by (auto simp: target_event_cb_def Let_def sys_def rbind_Ret_iff split: if_splits)
qed

section \<open>Connections of targets\<close>

lemma target_ctor_session:
  assumes "target_ctor os d = (t, d')"
  shows "s_conf d' = s_conf d \<and> s_running d' = s_running d \<and> m_sampling d' = m_sampling d
    \<and> g_input_running d' = g_input_running d"
  using assms by (auto simp: target_ctor_def Let_def split: option.splits prod.splits if_splits)

lemma target_ctor_inv:
  assumes inv: "session_inv d" and c: "target_ctor os d = (t, d')"
  shows "session_inv d'" and "t = Some i \<Longrightarrow> i \<in> used_slots (tg_use d')"
proof -
  have p: "pool_ok d" using inv by (simp add: session_inv_def)
  have "pool_ok d' \<and> (\<forall>i. t = Some i \<longrightarrow> i \<in> used_slots (tg_use d'))"
  proof (cases t)
    case None
    then show ?thesis using target_ctor_None(1) [OF p] c by simp
  next
    case (Some j)
    then show ?thesis using target_ctor_Some(1,4) [OF p, of os j d'] c by simp
  qed
  then show "session_inv d'" "t = Some i \<Longrightarrow> i \<in> used_slots (tg_use d')"
    using inv target_ctor_session [OF c] by (simp_all add: session_inv_def option_set_def)
qed

lemma target_connect_fail_inv:
  assumes "session_inv d" "i \<in> used_slots (tg_use d)" "target_connect_fail i d = Ret (r, d')"
  shows "session_inv d'"
  using assms target_dtor_inv(1) [OF assms(1) _ assms(2)]
  by (auto simp: target_connect_fail_def rbind_Ret_iff split: if_splits)

lemma target_connected_inv [simp]: "session_inv (target_connected os d) = session_inv d"
proof -
  have "session_inv (dec_apps_to_run d) = session_inv d" by (simp add: dec_apps_to_run_def)
  then show ?thesis
    using quiet_inv [OF stop_app_launch_timer_quiet [of "dec_apps_to_run d" os]]
    by (simp add: target_connected_def target_cnt_set_def Let_def)
qed

lemma makeRecvThread_slots:
  assumes "session_inv d" "makeRecvThread os i d = Ret (r, d')"
  shows "same_slots d d'"
  using assms
  by (auto simp: makeRecvThread_def target_start_def thread_start_def rbind_Ret_iff Let_def sys_def same_slots_def
      intro!: session_inv_upd split: option.splits if_splits)

lemma send_option_quiet: "quiet d (send_option_to os i d)"
  by (simp add: send_option_to_def Let_def)

lemma targetServerHandler_inv:
  assumes inv: "session_inv d" and r: "targetServerHandler os d = Ret (r, d')"
  shows "session_inv d'"
proof -
  obtain t d0 where c: "target_ctor os d = (t, d0)" by fastforce
  show ?thesis
  proof (cases t)
    case None
    with r c target_ctor_inv(1) [OF inv c] show ?thesis by (simp add: targetServerHandler_def)
  next
    case (Some i)
    have s0: "session_inv d0" "i \<in> used_slots (tg_use d0)" using target_ctor_inv [OF inv c] Some by auto
    note fail = target_connect_fail_inv
    obtain err d1 where a: "target_accept os i (m_target_server_socket d0) d0 = (err, d1)" by fastforce
    have s1: "session_inv d1" "tg_use d1 = tg_use d0"
      using a s0 by (auto simp: target_accept_def sys_def Let_def intro!: session_inv_upd split: if_splits)
    show ?thesis
    proof (cases "err = 0")
      case False
      with r c Some a have "target_connect_fail i d1 = Ret (r, d')" by (simp add: targetServerHandler_def)
      with fail s0 s1 show ?thesis by simp
    next
      case True
      from r c Some a True obtain d3 where m: "send_maps_inst_msg_to os i (send_option_to os i d1) = Ret d3"
        by (auto simp: targetServerHandler_def rbind_Ret_iff Let_def)
      have "quiet d1 d3" using quiet_trans [OF send_option_quiet send_maps_quiet [OF m]] .
      then have s3: "session_inv d3" "tg_use d3 = tg_use d0"
        using s1 quiet_inv [of d1 d3] quiet_fields [of d1 d3] by simp_all
      let ?fd = "os_ret os (trace d3) Eventfd"
      let ?d4 = "upd_target i (\<lambda>t. t\<lparr>t_event_fd := ?fd\<rparr>) (emit Eventfd d3)"
      let ?d5 = "emit (Fd_handler_add ?fd) ?d4"
      have s4: "session_inv ?d4" "tg_use ?d4 = tg_use d0"
        using s3 by (auto intro: session_inv_upd)
      from r c Some a True m consider "target_connect_fail i ?d4 = Ret (r, d')"
        | "target_connect_fail i ?d5 = Ret (r, d')"
        | q d6 where "makeRecvThread os i ?d5 = Ret (q, d6)"
          "target_connect_fail i (emit (Fd_handler_del ?fd) d6) = Ret (r, d') \<or> d' = target_connected os d6"
        by (auto simp: targetServerHandler_def rbind_Ret_iff Let_def sys_def split: prod.splits if_splits)
      then show ?thesis
      proof cases
        case 3
        have "same_slots ?d5 d6" using makeRecvThread_slots [OF _ 3(1)] s4 by simp
        then have "session_inv d6" "tg_use d6 = tg_use d0" using s4 by (simp_all add: same_slots_def)
        with 3(2) s0 fail [of "emit (Fd_handler_del ?fd) d6" i r d'] show ?thesis by auto
      qed (use s4 s0 fail [of ?d4 i r d'] fail [of ?d5 i r d'] in simp_all)
    qed
  qed
qed

lemma target_connect_cb_inv:
  assumes inv: "session_inv d" and r: "target_connect_cb os d = Ret d'"
  shows "session_inv d'"
proof -
  from r obtain q d1 where t: "targetServerHandler os d = Ret (q, d1)"
    and rest: "d' = d1 \<or> (\<exists>msg. terminate_error os msg True d1 = Ret d')"
    by (auto simp: target_connect_cb_def rbind_Ret_iff split: if_splits)
  have "session_inv d1" using targetServerHandler_inv [OF inv t] .
  with rest show ?thesis by (metis terminate_error_inv run.inject(1))
qed

section \<open>Receive threads\<close>

lemma recv_at_slots: "recv_at os sock off n log d = Ret (r, log', d') \<Longrightarrow> quiet d d'"
  using recv_at_frame [of os sock off n log d r log' d'] by auto

lemma recv_msg_quiet: "recv_msg_from_sock os sock log d = Ret (r, log', d') \<Longrightarrow> quiet d d'"
  by (auto simp: recv_msg_from_sock_def Let_def rbind_Ret_iff dest!: recv_at_slots split: if_splits)
    (blast intro: quiet_trans)+

fun out_state :: "recv_out \<Rightarrow> da_t" where
  "out_state (Next log pass d) = d"
| "out_state (Stopped d) = d"
| "out_state (Waiting log d) = d"

lemma send_event_inv [simp]: "session_inv (send_event i v d) = session_inv d"
  by (simp add: send_event_def)

lemma send_maps_inv: "send_maps_inst_msg_to os i d = Ret d' \<Longrightarrow> session_inv d' = session_inv d"
  by (rule quiet_inv [OF send_maps_quiet])

lemma handle_pid_inv:
  assumes "session_inv d" "handle_pid os i log pass d = Ret r"
  shows "session_inv (out_state r)"
proof -
  have "session_inv (upd_target i (\<lambda>t. t\<lparr>t_pid := p, t_ppid := q\<rparr>) d)" for p q
    using assms(1) by (intro session_inv_upd) simp_all
  then show ?thesis using assms
    by (auto simp: handle_pid_def rbind_Ret_iff Let_def dest!: send_maps_inv split: if_splits option.splits)
qed

lemma write_to_buf_inv [simp]: "session_inv (snd (write_to_buf os m d)) = session_inv d"
  by (simp add: write_to_buf_def sys_def Let_def)

lemma handle_image_inv:
  assumes "session_inv d" "handle_image os log pass d = Ret r"
  shows "session_inv (out_state r)"
  using assms by (auto simp: handle_image_def chsmack_def sys_def rbind_Ret_iff Let_def split: if_splits)

lemma recv_step_inv:
  assumes inv: "session_inv d" and r: "recv_step os i log pass d = Ret r"
  shows "session_inv (out_state r)"
proof -
  from r obtain err log1 d1 where m: "recv_msg_from_sock os (t_socket (target_get i d)) log d = Ret (err, log1, d1)"
    by (auto simp: recv_step_def rbind_Ret_iff)
  have i1: "session_inv d1" using inv quiet_inv [OF recv_msg_quiet [OF m]] by simp
  have "session_inv (upd_target i (\<lambda>t. t\<lparr>t_allocmem := v\<rparr>) d1)" for v
    using i1 by (intro session_inv_upd) simp_all
  with r m i1 show ?thesis
    by (auto simp: recv_step_def rbind_Ret_iff Let_def
        intro: handle_pid_inv handle_image_inv split: if_splits)
qed

section \<open>The daemon\<close>

datatype daemon_event = Callback callback | Message nat bytes bool | Replay_done

definition daemon_step ::
  "os_t \<Rightarrow> (io list \<Rightarrow> target_info_t) \<Rightarrow> daemon_event \<Rightarrow> da_t \<Rightarrow> da_t run" where
  "daemon_step os fill_target_info e d =
     (case e of
        Callback c \<Rightarrow> run_callback os fill_target_info c d
      | Message i log pass \<Rightarrow> rbind (recv_step os i log pass d) (\<lambda>r. Ret (out_state r))
      | Replay_done \<Rightarrow> replay_run d)"

text \<open>Only targets in the pool send events and messages; only a running replay ends.\<close>

fun can_happen :: "daemon_event \<Rightarrow> da_t \<Rightarrow> bool" where
  "can_happen (Callback (Target_event i)) d = (i \<in> used_slots (tg_use d))"
| "can_happen (Callback c) d = True"
| "can_happen (Message i log pass) d = (i \<in> used_slots (tg_use d))"
| "can_happen Replay_done d = m_replay d"

inductive reaches :: "('e \<Rightarrow> 's \<Rightarrow> 's run) \<Rightarrow> ('e \<Rightarrow> 's \<Rightarrow> bool) \<Rightarrow> 's \<Rightarrow> 's \<Rightarrow> bool"
  for step enabled s0 where
  start: "reaches step enabled s0 s0"
| step: "reaches step enabled s0 s \<Longrightarrow> enabled e s \<Longrightarrow> step e s = Ret s' \<Longrightarrow> reaches step enabled s0 s'"

text \<open>An invariant of single events is an invariant of what they reach.\<close>

locale event_system =
  fixes step :: "'e \<Rightarrow> 's \<Rightarrow> 's run" and enabled :: "'e \<Rightarrow> 's \<Rightarrow> bool" and inv :: "'s \<Rightarrow> bool"
  assumes step_keeps: "inv s \<Longrightarrow> enabled e s \<Longrightarrow> step e s = Ret s' \<Longrightarrow> inv s'"
begin

lemma reaches_keeps: "reaches step enabled s0 s \<Longrightarrow> inv s0 \<Longrightarrow> inv s"
  by (induction rule: reaches.induct) (auto intro: step_keeps)

lemma reaches_trans:
  "reaches step enabled s1 s2 \<Longrightarrow> reaches step enabled s0 s1 \<Longrightarrow> reaches step enabled s0 s2"
  by (induction rule: reaches.induct) (auto intro: reaches.step)

end

lemma run_callback_inv:
  assumes inv: "session_inv d" and en: "can_happen (Callback c) d" and r: "run_callback os fti c d = Ret d'"
  shows "session_inv d'"
proof (cases c)
  case (Connect_timer)
  with r connect_timer_inv [OF inv, of os] show ?thesis by (auto simp: run_callback_def)
next
  case (Target_event i)
  with r en target_event_cb_inv [OF inv, of i os d'] show ?thesis by (simp add: run_callback_def)
qed (use r inv host_callbacks_inv [OF inv] target_connect_cb_inv [OF inv] in
      \<open>auto simp: run_callback_def touch_event_cb_def key_event_cb_def deviceEventHandler_inv\<close>)

lemma replay_run_inv:
  assumes "session_inv d" "replay_run d = Ret d'"
  shows "session_inv d'"
proof -
  have w: "session_inv (write_input_event i ev x) = session_inv x" for i ev x
  proof -
    have "session_inv (device_write fds b y) = session_inv y" for fds b y
      by (induction fds arbitrary: y) auto
    then show ?thesis by (simp add: write_input_event_def)
  qed
  have "session_inv (fold replay_one sch x) = session_inv x" for sch x
  proof (induction sch arbitrary: x)
    case (Cons a sch)
    then show ?case by (cases a) (simp add: w)
  qed simp
  with assms show ?thesis by (auto simp: replay_run_def rbind_Ret_iff exit_replay_thread_def)
qed

interpretation daemon: event_system "daemon_step os fti" can_happen session_inv
proof unfold_locales
  fix d d' e
  assume "session_inv d" "can_happen e d" "daemon_step os fti e d = Ret d'"
  then show "session_inv d'"
    by (cases e) (auto simp: daemon_step_def rbind_Ret_iff intro: run_callback_inv recv_step_inv replay_run_inv)
qed

section \<open>Properties\<close>

lemma init_inv: "session_inv (init_prof_session manager0)"
  using manager0_inv by (simp add: session_inv_def init_prof_session_def option_set_def pool_ok_def target_get_def manager0_def)

text \<open>
  C2. Whatever connections, messages, timers, target events and input events come in any order, and
  whatever the operating system answers: sampling and recording are only active in a running session
  or with the feature on, and every used slot of the pool has its thread object.
\<close>

theorem session_invariant:
  assumes "reaches (daemon_step os fill_target_info) can_happen (init_prof_session manager0) d"
  shows "session_inv d"
  by (rule daemon.reaches_keeps [OF assms init_inv])

theorem session_invariant_witness:
  "\<exists>d. reaches (daemon_step (sample_os 3) (\<lambda>_. sample_target_info)) can_happen (init_prof_session manager0) d
     \<and> m_control_socket d = 3 \<and> session_inv d"
proof -
  let ?step = "daemon_step (sample_os 3) (\<lambda>_. sample_target_info)"
  let ?d = "host_connect_cb (sample_os 3) (init_prof_session manager0)"
  have "?step (Callback Host_connect) (init_prof_session manager0) = Ret ?d"
    by (simp add: daemon_step_def run_callback_def)
  then have r: "reaches ?step can_happen (init_prof_session manager0) ?d"
    by (intro reaches.step [OF reaches.start]) simp_all
  moreover have "m_control_socket ?d = 3"
    by (simp add: host_connect_cb_def hostServerHandler_def init_prof_session_def manager0_def sys_def)
  ultimately show ?thesis using session_invariant [OF r] by blast
qed

end
