(* ===== verification/Scan.thy ===== *)
theory Scan
  imports Host_Msgs
begin

text \<open>
  The functions of the C library that \<^verbatim>\<open>daemon/sys_stat.c\<close> reads text with: \<^verbatim>\<open>fgets\<close>, \<^verbatim>\<open>fscanf\<close> and
  \<^verbatim>\<open>sscanf\<close> with words and decimal numbers, \<^verbatim>\<open>strtoul\<close>, \<^verbatim>\<open>atoi\<close>, \<^verbatim>\<open>strchr\<close>, \<^verbatim>\<open>strstr\<close>. A stream is
  the bytes that are left of it.
\<close>

section \<open>Conversions\<close>

text \<open>A conversion gives a value, or does not match, or meets the end of the input.\<close>

datatype 'a scan = Got 'a bytes | Mismatch bytes | Eof

definition skip_space :: "bytes \<Rightarrow> bytes" where
  "skip_space s = dropWhile is_space s"

text \<open>\<^verbatim>\<open>%s\<close>\<close>

definition scan_word :: "bytes \<Rightarrow> bytes scan" where
  "scan_word s =
     (let s = skip_space s in
      if s = [] then Eof
      else Got (takeWhile (\<lambda>c. \<not> is_space c) s) (dropWhile (\<lambda>c. \<not> is_space c) s))"

text \<open>A decimal number: whether it has a minus sign, and its digits.\<close>

definition scan_num :: "bytes \<Rightarrow> (bool \<times> int) scan" where
  "scan_num s =
     (let s = skip_space s in
      if s = [] then Eof
      else (let (sg, ds) = scan_sign s in
            if ds = [] \<or> \<not> is_digit (hd ds) then Mismatch ds
            else (let (v, rest) = scan_digits 0 ds in Got (sg < 0, v) rest)))"

text \<open>What a number becomes in an unsigned or signed type of \<open>w\<close> bits.\<close>

definition as_unsigned :: "nat \<Rightarrow> bool \<times> int \<Rightarrow> int" where
  "as_unsigned w n =
     (let (neg, v) = n in
      if v \<ge> 2 ^ w then 2 ^ w - 1 else if neg then (- v) mod 2 ^ w else v)"

definition as_signed :: "nat \<Rightarrow> bool \<times> int \<Rightarrow> int" where
  "as_signed w n =
     (let (neg, v) = n in max (- (2 ^ (w - 1))) (min (2 ^ (w - 1) - 1) (if neg then - v else v)))"

text \<open>Several conversions of numbers in a row, up to the first that fails.\<close>

fun scan_nums :: "nat \<Rightarrow> bytes \<Rightarrow> (bool \<times> int) list" where
  "scan_nums 0 s = []"
| "scan_nums (Suc k) s = (case scan_num s of Got n rest \<Rightarrow> n # scan_nums k rest | _ \<Rightarrow> [])"

text \<open>Literal characters of a format.\<close>

definition scan_lit :: "bytes \<Rightarrow> bytes \<Rightarrow> bytes option" where
  "scan_lit lit s = (if take (length lit) s = lit then Some (drop (length lit) s) else None)"

section \<open>Lines and strings\<close>

text \<open>\<^verbatim>\<open>fgets\<close> with room for \<open>n\<close> bytes: the line with its newline, cut at \<open>n - 1\<close>.\<close>

definition line_len :: "nat \<Rightarrow> bytes \<Rightarrow> nat" where
  "line_len n s = min (n - 1) (length (takeWhile (\<lambda>c. c \<noteq> 10) s) + 1)"

definition fgets :: "nat \<Rightarrow> bytes \<Rightarrow> (bytes \<times> bytes) option" where
  "fgets n s = (if s = [] then None else Some (take (line_len n s) s, drop (line_len n s) s))"

lemma line_len_pos: "1 < n \<Longrightarrow> 0 < line_len n s"
  by (simp add: line_len_def)

function file_lines :: "nat \<Rightarrow> bytes \<Rightarrow> bytes list" where
  "file_lines n s = (if n \<le> 1 \<or> s = [] then [] else take (line_len n s) s # file_lines n (drop (line_len n s) s))"
  by pat_completeness auto
termination by (relation "measure (\<lambda>(n, s). length s)") (auto simp: line_len_pos)

declare file_lines.simps [simp del]

fun strchr :: "byte \<Rightarrow> bytes \<Rightarrow> nat option" where
  "strchr c [] = None"
| "strchr c (x # xs) = (if x = c then Some 0 else map_option Suc (strchr c xs))"

definition strrchr :: "byte \<Rightarrow> bytes \<Rightarrow> nat option" where
  "strrchr c s = map_option (\<lambda>i. length s - 1 - i) (strchr c (rev s))"

fun strstr :: "bytes \<Rightarrow> bytes \<Rightarrow> bool" where
  "strstr s [] = True"
| "strstr [] (c # cs) = False"
| "strstr (x # xs) (c # cs) = (take (length (c # cs)) (x # xs) = c # cs \<or> strstr xs (c # cs))"

definition atoi :: "bytes \<Rightarrow> int" where
  "atoi s = fst (strtol10 s)"

text \<open>\<^verbatim>\<open>strtoul(s, &tail, 10)\<close> for a 32-bit \<^verbatim>\<open>long\<close>: the value, and what is left.\<close>

definition strtoul10 :: "bytes \<Rightarrow> int \<times> bytes" where
  "strtoul10 s = (case scan_num s of Got n rest \<Rightarrow> (as_unsigned 32 n, rest) | _ \<Rightarrow> (0, s))"

section \<open>Facts\<close>

lemma concat_file_lines: "1 < n \<Longrightarrow> concat (file_lines n s) = s"
proof (induction n s rule: file_lines.induct)
  case (1 n s)
  then show ?case by (subst file_lines.simps) simp
qed

lemma strchr_Some: "strchr c s = Some i \<Longrightarrow> i < length s \<and> s ! i = c \<and> c \<notin> set (take i s)"
  by (induction s arbitrary: i) (auto split: if_splits)

lemma as_unsigned_range: "0 \<le> v \<Longrightarrow> 0 \<le> as_unsigned w (neg, v) \<and> as_unsigned w (neg, v) < 2 ^ w"
  by (simp add: as_unsigned_def Let_def)

end
