(* ===== verification/Float32.thy ===== *)
theory Float32
  imports Prelude Complex_Main
begin

text \<open>
  The C type \<^verbatim>\<open>float\<close> as its 32 bits (IEEE 754 single precision, rounding to the nearest even value,
  no extended intermediate results), as far as \<^verbatim>\<open>daemon/sys_stat.c\<close> uses it: conversion from integers
  and from text, the four operations, comparison, truncation. Zero, finite values and infinity of one
  sign are numbered in their order by the low 31 bits, the magnitude.
\<close>

section \<open>Values and rounding\<close>

type_synonym f32 = "32 word"

definition f_neg :: "f32 \<Rightarrow> bool" where "f_neg w \<longleftrightarrow> bit w 31"
definition f_mag :: "f32 \<Rightarrow> int" where "f_mag w = uint (w AND 0x7FFFFFFF)"

abbreviation (input) inf_mag :: int where "inf_mag \<equiv> 0x7F800000"

definition f_nan :: "f32 \<Rightarrow> bool" where "f_nan w \<longleftrightarrow> inf_mag < f_mag w"
definition f_finite :: "f32 \<Rightarrow> bool" where "f_finite w \<longleftrightarrow> f_mag w < inf_mag"

definition pow2 :: "int \<Rightarrow> rat" where "pow2 e = (if e \<ge> 0 then 2 ^ nat e else 1 / 2 ^ nat (- e))"

text \<open>The value of a finite magnitude: below \<^verbatim>\<open>2^23\<close> the denormal numbers.\<close>

definition mag_val :: "int \<Rightarrow> rat" where
  "mag_val n =
     (if n < 2 ^ 23 then of_int n * pow2 (-149)
      else of_int (2 ^ 23 + n mod 2 ^ 23) * pow2 (n div 2 ^ 23 - 150))"

definition f_val :: "f32 \<Rightarrow> rat" where
  "f_val w = (if f_neg w then - mag_val (f_mag w) else mag_val (f_mag w))"

text \<open>Round half to even.\<close>

definition rne :: "rat \<Rightarrow> int" where
  "rne q =
     (let k = \<lfloor>q\<rfloor>; f = q - of_int k in
      if f < 1 / 2 then k else if f > 1 / 2 then k + 1 else if even k then k else k + 1)"

text \<open>The exponent field: the least one whose range reaches above the value.\<close>

fun expo_from :: "nat \<Rightarrow> rat \<Rightarrow> int \<Rightarrow> int" where
  "expo_from 0 q e = e"
| "expo_from (Suc k) q e = (if q < pow2 (e - 126) then e else expo_from k q (e + 1))"

definition expo :: "rat \<Rightarrow> int" where "expo q = expo_from 253 q 1"

definition round_mag :: "rat \<Rightarrow> int" where
  "round_mag q = (let e = expo q in min inf_mag ((e - 1) * 2 ^ 23 + rne (q / pow2 (e - 150))))"

definition sign_bit :: "bool \<Rightarrow> f32" where "sign_bit neg = (if neg then 0x80000000 else 0)"

definition f_round :: "bool \<Rightarrow> rat \<Rightarrow> f32" where
  "f_round zero_neg q =
     sign_bit (q < 0 \<or> q = 0 \<and> zero_neg) OR word_of_int (round_mag \<bar>q\<bar>)"

section \<open>Operations\<close>

definition f_default_nan :: f32 where "f_default_nan = 0x7FC00000"
definition f_inf :: "bool \<Rightarrow> f32" where "f_inf neg = sign_bit neg OR 0x7F800000"

definition f_of_int :: "int \<Rightarrow> f32" where "f_of_int i = f_round False (of_int i)"

definition f_add :: "f32 \<Rightarrow> f32 \<Rightarrow> f32" where
  "f_add a b =
     (if f_nan a \<or> f_nan b then f_default_nan
      else if f_finite a \<and> f_finite b then f_round (f_neg a \<and> f_neg b) (f_val a + f_val b)
      else if f_finite a then b
      else if f_finite b then a
      else if f_neg a = f_neg b then a else f_default_nan)"

definition f_minus :: "f32 \<Rightarrow> f32" where "f_minus a = a XOR 0x80000000"

definition f_sub :: "f32 \<Rightarrow> f32 \<Rightarrow> f32" where "f_sub a b = f_add a (f_minus b)"

definition f_mul :: "f32 \<Rightarrow> f32 \<Rightarrow> f32" where
  "f_mul a b =
     (let neg = (f_neg a \<noteq> f_neg b) in
      if f_nan a \<or> f_nan b then f_default_nan
      else if f_finite a \<and> f_finite b then f_round neg (f_val a * f_val b)
      else if f_mag a = 0 \<or> f_mag b = 0 then f_default_nan
      else f_inf neg)"

definition f_div :: "f32 \<Rightarrow> f32 \<Rightarrow> f32" where
  "f_div a b =
     (let neg = (f_neg a \<noteq> f_neg b) in
      if f_nan a \<or> f_nan b then f_default_nan
      else if \<not> f_finite a then (if f_finite b then f_inf neg else f_default_nan)
      else if \<not> f_finite b then sign_bit neg
      else if f_mag b = 0 then (if f_mag a = 0 then f_default_nan else f_inf neg)
      else f_round neg (f_val a / f_val b))"

text \<open>Comparison orders the magnitudes; a comparison with a NaN is false.\<close>

definition f_less :: "f32 \<Rightarrow> f32 \<Rightarrow> bool" where
  "f_less a b \<longleftrightarrow>
     \<not> f_nan a \<and> \<not> f_nan b \<and>
     (if f_neg a then (if f_neg b then f_mag b < f_mag a else f_mag a \<noteq> 0 \<or> f_mag b \<noteq> 0)
      else \<not> f_neg b \<and> f_mag a < f_mag b)"

text \<open>Conversion to an integer type; \<open>None\<close> outside its range.\<close>

definition f_trunc :: "int \<Rightarrow> int \<Rightarrow> f32 \<Rightarrow> int option" where
  "f_trunc lo hi a =
     (if \<not> f_finite a then None
      else (let q = f_val a; i = (if q < 0 then \<lceil>q\<rceil> else \<lfloor>q\<rfloor>) in
            if lo \<le> i \<and> i \<le> hi then Some i else None))"

section \<open>Rounding keeps the order\<close>

lemma rne_bounds: "of_int (rne q) \<le> q + 1 / 2" "q - 1 / 2 \<le> of_int (rne q)"
  unfolding rne_def Let_def by (auto split: if_splits) linarith+

lemma rne_int [simp]: "rne (of_int k) = k"
  by (simp add: rne_def)

lemma rne_mono:
  assumes "p \<le> q"
  shows "rne p \<le> rne q"
proof (rule ccontr)
  assume "\<not> rne p \<le> rne q"
  then have lt: "rne q + 1 \<le> rne p" by simp
  then have "of_int (rne q) + 1 \<le> (of_int (rne p) :: rat)" by (metis of_int_1 of_int_add of_int_le_iff)
  then have eq: "q = p" and h: "of_int (rne p) = p + 1 / 2" "of_int (rne q) = q - 1 / 2"
    using rne_bounds [of p] rne_bounds [of q] assms by linarith+
  with lt show False by simp
qed

lemma rne_upper: "q \<le> of_int k \<Longrightarrow> rne q \<le> k"
  using rne_mono [of q "of_int k"] by simp

lemma rne_lower: "of_int k \<le> q \<Longrightarrow> k \<le> rne q"
  using rne_mono [of "of_int k" q] by simp

lemma pow2_pos [simp]: "0 < pow2 e"
  by (simp add: pow2_def)

lemma pow2_Suc: "pow2 (e + 1) = 2 * pow2 e"
proof (cases "e \<ge> 0")
  case True
  then show ?thesis by (simp add: pow2_def nat_add_distrib)
next
  case False
  then obtain n where e: "e = - int (Suc n)" by (metis not_le negD of_nat_0_le_iff)
  show ?thesis
  proof (cases n)
    case (Suc m)
    then show ?thesis by (simp add: pow2_def e nat_add_distrib)
  qed (simp add: pow2_def e)
qed

lemma pow2_add: "pow2 (e + int n) = 2 ^ n * pow2 e"
proof (induction n)
  case (Suc n)
  have "e + int (Suc n) = (e + int n) + 1" by simp
  then have "pow2 (e + int (Suc n)) = 2 * pow2 (e + int n)" by (simp only: pow2_Suc)
  with Suc show ?case by simp
qed simp

lemma pow2_mono: "d \<le> e \<Longrightarrow> pow2 d \<le> pow2 e"
proof -
  assume "d \<le> e"
  then obtain n where "e = d + int n" by (metis zle_iff_zadd)
  then show ?thesis using pow2_pos [of d] by (simp add: pow2_add)
qed

lemma expo_from:
  "e \<le> expo_from k q e" "expo_from k q e \<le> e + int k"
  "e < expo_from k q e \<Longrightarrow> pow2 (expo_from k q e - 127) \<le> q"
  "expo_from k q e < e + int k \<Longrightarrow> q < pow2 (expo_from k q e - 126)"
proof (induction k arbitrary: e)
  case (Suc k)
  {
    case 1 show ?case using Suc.IH(1) [of "e + 1"] by simp
  next
    case 2 show ?case using Suc.IH(2) [of "e + 1"] by simp
  next
    case 3
    show ?case
    proof (cases "q < pow2 (e - 126)")
      case False
      show ?thesis
      proof (cases "e + 1 < expo_from k q (e + 1)")
        case True
        with False Suc.IH(3) [of "e + 1"] show ?thesis by simp
      next
        case c: False
        then have "expo_from k q (e + 1) = e + 1" using Suc.IH(1) [of "e + 1"] by simp
        with False show ?thesis by simp
      qed
    qed (use 3 in simp)
  next
    case 4
    with Suc.IH(4) [of "e + 1"] show ?case by (auto split: if_splits)
  }
qed simp_all

lemma expo_range: "1 \<le> expo q" "expo q \<le> 254"
  using expo_from(1,2) [where e = 1 and k = 253 and q = q]
  by (simp_all add: expo_def)

lemma expo_low: "1 < expo q \<Longrightarrow> pow2 (expo q - 127) \<le> q"
  using expo_from(3) [where e = 1 and k = 253 and q = q] by (simp add: expo_def)

lemma expo_high: "expo q < 254 \<Longrightarrow> q < pow2 (expo q - 126)"
  using expo_from(4) [where e = 1 and k = 253 and q = q] by (simp add: expo_def)

lemma expo_mono:
  assumes "p \<le> q"
  shows "expo p \<le> expo q"
proof (rule ccontr)
  assume "\<not> expo p \<le> expo q"
  then have lt: "expo q + 1 \<le> expo p" by simp
  then have "pow2 (expo q - 126) \<le> pow2 (expo p - 127)" by (intro pow2_mono) simp
  moreover have "1 < expo p" "expo q < 254" using lt expo_range [of q] expo_range [of p] by simp_all
  ultimately show False using expo_low [of p] expo_high [of q] assms by simp
qed

lemma round_mag_mono:
  assumes "p \<le> q"
  shows "round_mag p \<le> round_mag q"
proof (cases "expo p = expo q")
  case True
  moreover have "p / pow2 (expo q - 150) \<le> q / pow2 (expo q - 150)"
    using assms by (simp add: divide_right_mono less_imp_le)
  ultimately show ?thesis using rne_mono by (fastforce simp: round_mag_def Let_def)
next
  case False
  let ?d = "expo p" and ?e = "expo q"
  have lt: "?d < ?e" using expo_mono [OF assms] False by simp
  have "p < pow2 (?d - 126)" using expo_high [of p] lt expo_range [of q] by simp
  moreover have "pow2 (?d - 126) = 2 ^ 24 * pow2 (?d - 150)" using pow2_add [of "?d - 150" 24] by simp
  ultimately have "p / pow2 (?d - 150) \<le> of_int (2 ^ 24)" using pow2_pos [of "?d - 150"] by (simp add: field_simps)
  then have 1: "rne (p / pow2 (?d - 150)) \<le> 2 ^ 24" by (rule rne_upper)
  have "pow2 (?e - 127) \<le> q" using expo_low [of q] lt expo_range [of p] by simp
  moreover have "pow2 (?e - 127) = 2 ^ 23 * pow2 (?e - 150)" using pow2_add [of "?e - 150" 23] by simp
  ultimately have "of_int (2 ^ 23) \<le> q / pow2 (?e - 150)" using pow2_pos [of "?e - 150"] by (simp add: field_simps)
  then have 2: "2 ^ 23 \<le> rne (q / pow2 (?e - 150))" by (rule rne_lower)
  have "(?d - 1) * 2 ^ 23 + 2 ^ 24 \<le> (?e - 1) * 2 ^ 23 + 2 ^ (23 :: nat)" using lt by simp
  with 1 2 show ?thesis by (simp add: round_mag_def Let_def)
qed

lemma round_mag_range: "0 \<le> q \<Longrightarrow> 0 \<le> round_mag q" "round_mag q \<le> inf_mag"
proof -
  assume "0 \<le> q"
  then have "of_int 0 \<le> q / pow2 (expo q - 150)" by (simp add: less_imp_le)
  then have "0 \<le> rne (q / pow2 (expo q - 150))" by (rule rne_lower)
  with expo_range [of q] show "0 \<le> round_mag q" by (simp add: round_mag_def Let_def)
qed (simp add: round_mag_def Let_def)

lemma expo_unique:
  assumes "1 \<le> e" "e < 254" "q < pow2 (e - 126)" "e = 1 \<or> pow2 (e - 127) \<le> q"
  shows "expo q = e"
proof (rule antisym)
  show "expo q \<le> e"
  proof (rule ccontr)
    assume "\<not> expo q \<le> e"
    then have "1 < expo q" "pow2 (e - 126) \<le> pow2 (expo q - 127)" using assms(1) by (auto intro: pow2_mono)
    with expo_low [of q] assms(3) show False by simp
  qed
  show "e \<le> expo q"
  proof (rule ccontr)
    assume c: "\<not> e \<le> expo q"
    then have "expo q < 254" "pow2 (expo q - 126) \<le> pow2 (e - 127)" using assms(2) by (auto intro: pow2_mono)
    moreover have "pow2 (e - 127) \<le> q" using assms(4) c expo_range [of q] by auto
    ultimately show False using expo_high [of q] by simp
  qed
qed

text \<open>The constants of the program and the range of its counters.\<close>

lemma round_mag_consts:
  "round_mag 0 = 0" "round_mag 1 = 0x3F800000" "round_mag 100 = 0x42C80000" "round_mag 18446744073709551616 = 0x5F800000"
proof -
  have "expo 0 = 1" by (rule expo_unique) (simp_all add: pow2_def)
  then show "round_mag 0 = 0" using rne_int [of 0] by (simp add: round_mag_def)
  have "expo 1 = 127" by (rule expo_unique) (simp_all add: pow2_def)
  then show "round_mag 1 = 0x3F800000" using rne_int [of "2 ^ 23"] by (simp add: round_mag_def pow2_def)
  have "expo 100 = 133" by (rule expo_unique) (simp_all add: pow2_def)
  then show "round_mag 100 = 0x42C80000" using rne_int [of "100 * 2 ^ 17"] by (simp add: round_mag_def pow2_def)
  have "expo 18446744073709551616 = 191" by (rule expo_unique) (simp_all add: pow2_def)
  then show "round_mag 18446744073709551616 = 0x5F800000" using rne_int [of "2 ^ 23"] by (simp add: round_mag_def pow2_def)
qed

section \<open>Results of operations\<close>

lemma f_round_parts:
  "f_mag (f_round z q) = round_mag \<bar>q\<bar>" "f_neg (f_round z q) \<longleftrightarrow> q < 0 \<or> q = 0 \<and> z"
proof -
  let ?m = "round_mag \<bar>q\<bar>" and ?s = "sign_bit (q < 0 \<or> q = 0 \<and> z)"
  have m: "0 \<le> ?m" "?m < 2 ^ 31" using round_mag_range(1) [of "\<bar>q\<bar>"] round_mag_range(2) [of "\<bar>q\<bar>"] by simp_all
  have b: "bit (word_of_int ?m :: f32) n \<longleftrightarrow> bit ?m n \<and> n < 31" for n
  proof -
    have "bit ?m n \<Longrightarrow> n < 31"
      using m by (metis bit_take_bit_iff take_bit_int_eq_self)
    then show ?thesis by (auto simp: bit_simps)
  qed
  have s: "bit ?s n \<longleftrightarrow> n = 31 \<and> (q < 0 \<or> q = 0 \<and> z)" for n
    using bit_exp_iff [of 31 n, where 'a = f32] by (auto simp: sign_bit_def)
  have k: "bit (0x7FFFFFFF :: f32) n \<longleftrightarrow> n < 31" for n
  proof -
    have "(0x7FFFFFFF :: f32) = mask 31" by (simp add: mask_eq_exp_minus_1)
    then show ?thesis by (simp only: bit_mask_iff) auto
  qed
  have "f_round z q AND 0x7FFFFFFF = word_of_int ?m"
    unfolding f_round_def by (rule bit_word_eqI) (simp only: bit_and_iff bit_or_iff b s k; blast)
  then have "f_mag (f_round z q) = uint (word_of_int ?m :: f32)" by (simp add: f_mag_def)
  also have "\<dots> = ?m" using m by (simp add: unsigned_of_int take_bit_int_eq_self)
  finally show "f_mag (f_round z q) = ?m" .
  show "f_neg (f_round z q) \<longleftrightarrow> q < 0 \<or> q = 0 \<and> z"
    by (simp add: f_neg_def f_round_def bit_or_iff b s)
qed

lemma mag_val_nonneg: "0 \<le> n \<Longrightarrow> 0 \<le> mag_val n"
  by (simp add: mag_val_def less_imp_le)

lemma f_mag_nonneg: "0 \<le> f_mag w"
  by (simp add: f_mag_def)

lemma f_round_not_nan: "\<not> f_nan (f_round z q)"
  using round_mag_range(2) [of "\<bar>q\<bar>"] by (simp add: f_nan_def f_round_parts)

lemma mag_val_le_one:
  assumes "m \<le> 0x3F800000"
  shows "mag_val m \<le> 1"
proof (cases "m < 2 ^ 23")
  case True
  then have "(of_int m :: rat) \<le> 2 ^ 23" by (metis less_imp_le of_int_le_iff of_int_numeral of_int_power)
  then have "of_int m * pow2 (-149) \<le> 2 ^ 23 * pow2 (-149)" by (simp add: mult_right_mono less_imp_le)
  also have "\<dots> \<le> 1" by (simp add: pow2_def)
  finally show ?thesis using True by (simp add: mag_val_def)
next
  case False
  let ?e = "m div 2 ^ 23" and ?f = "m mod 2 ^ 23"
  show ?thesis
  proof (cases "m = 0x3F800000")
    case True
    then show ?thesis by (simp add: mag_val_def pow2_def)
  next
    case ne: False
    then have "?e \<le> 126" using assms by simp
    then have "pow2 (?e - 150) \<le> pow2 (- 24)" by (intro pow2_mono) simp
    moreover have "(of_int (2 ^ 23 + ?f) :: rat) \<le> of_int (2 ^ 24)" by (subst of_int_le_iff) simp
    ultimately have "of_int (2 ^ 23 + ?f) * pow2 (?e - 150) \<le> (of_int (2 ^ 24) :: rat) * pow2 (- 24)"
      by (intro mult_mono) (simp_all add: less_imp_le)
    then show ?thesis using False by (simp add: mag_val_def pow2_def)
  qed
qed

lemma f_of_int_parts:
  "f_mag (f_of_int i) = round_mag (of_int \<bar>i\<bar>)" "f_neg (f_of_int i) \<longleftrightarrow> i < 0"
  by (simp_all add: f_of_int_def f_round_parts)

lemma f_of_int_finite: "\<bar>i\<bar> \<le> 2 ^ 64 \<Longrightarrow> f_finite (f_of_int i)"
proof -
  assume "\<bar>i\<bar> \<le> 2 ^ 64"
  then have "(of_int \<bar>i\<bar> :: rat) \<le> 2 ^ 64" by (metis of_int_le_iff of_int_numeral of_int_power)
  from round_mag_mono [OF this] show ?thesis
    by (simp add: f_finite_def f_of_int_parts round_mag_consts)
qed

lemma finite_not_nan: "f_finite w \<Longrightarrow> \<not> f_nan w"
  by (simp add: f_finite_def f_nan_def)

lemma f_minus_parts: "f_mag (f_minus w) = f_mag w" "f_neg (f_minus w) \<longleftrightarrow> \<not> f_neg w"
proof -
  have s: "bit (0x80000000 :: f32) n \<longleftrightarrow> n = 31" for n
    using bit_exp_iff [of 31 n, where 'a = f32] by auto
  have "bit (0x7FFFFFFF :: f32) 31 = False" by simp
  then have "f_minus w AND 0x7FFFFFFF = w AND 0x7FFFFFFF"
    unfolding f_minus_def by (intro bit_word_eqI) (simp only: bit_and_iff bit_xor_iff s; metis)
  then show "f_mag (f_minus w) = f_mag w" by (simp add: f_mag_def)
  show "f_neg (f_minus w) \<longleftrightarrow> \<not> f_neg w" by (simp add: f_neg_def f_minus_def bit_xor_iff s)
qed

lemma f_minus_val: "f_val (f_minus w) = - f_val w" "f_finite (f_minus w) = f_finite w" "f_nan (f_minus w) = f_nan w"
  by (simp_all add: f_val_def f_finite_def f_nan_def f_minus_parts)

lemma f_sub_finite:
  "f_finite a \<Longrightarrow> f_finite b \<Longrightarrow> f_sub a b = f_round (f_neg a \<and> \<not> f_neg b) (f_val a - f_val b)"
  by (simp add: f_sub_def f_add_def f_minus_val f_minus_parts finite_not_nan)

text \<open>
  The share of the busy time in percent, \<^verbatim>\<open>(1.0f - (float)i / (float)t) * 100.0f\<close>: never a NaN and
  never above 100, whatever the rounding.
\<close>

definition busy_percent :: "int \<Rightarrow> int \<Rightarrow> f32" where
  "busy_percent i t =
     f_mul (f_sub (f_of_int 1) (f_div (f_of_int i) (f_of_int t))) (f_of_int 100)"

lemma busy_percent_le:
  assumes "0 \<le> i" "i < 2 ^ 64" "1 \<le> t" "t < 2 ^ 64"
  shows "\<not> f_nan (busy_percent i t)" "\<not> f_less (f_of_int 100) (busy_percent i t)"
proof -
  let ?r = "f_div (f_of_int i) (f_of_int t)"
  let ?s = "f_sub (f_of_int 1) ?r"
  have fin: "f_finite (f_of_int i)" "f_finite (f_of_int t)" "f_finite (f_of_int 1)" "f_finite (f_of_int 100)"
    using assms by (auto intro: f_of_int_finite)
  have "(1 :: rat) \<le> of_int t" using assms(3) by simp
  from round_mag_mono [OF this] have t: "0x3F800000 \<le> f_mag (f_of_int t)"
    using assms(3) by (simp add: f_of_int_parts round_mag_consts)
  have v1: "f_val (f_of_int 1) = 1" "f_val (f_of_int 100) = 100"
    by (simp_all add: f_val_def f_of_int_parts round_mag_consts mag_val_def pow2_def)
  define q where "q = f_val (f_of_int i) / f_val (f_of_int t)"
  have r: "?r = f_round False q"
    using fin t assms(1,3) by (simp add: f_div_def finite_not_nan f_of_int_parts q_def)
  have q: "0 \<le> q"
    using assms(1,3) by (simp add: q_def f_val_def f_of_int_parts mag_val_nonneg round_mag_range(1))
  have rn: "\<not> f_neg ?r" "0 \<le> f_val ?r" using q by (simp_all add: r f_round_parts f_val_def mag_val_nonneg round_mag_range(1))
  have sn: "\<not> f_nan ?s \<and> (\<not> f_neg ?s \<longrightarrow> f_mag ?s \<le> 0x3F800000)"
  proof (cases "f_finite ?r")
    case False
    then have "?s = f_minus ?r"
      using r f_round_not_nan [of False q] fin
      by (simp add: f_sub_def f_add_def f_nan_def f_finite_def f_minus_parts)
    then show ?thesis using rn r f_round_not_nan [of False q] by (simp add: f_minus_val f_minus_parts)
  next
    case True
    then have s: "?s = f_round False (1 - f_val ?r)"
      using fin by (simp add: f_sub_finite v1) (simp add: f_of_int_parts)
    have "f_mag ?s \<le> 0x3F800000" if "\<not> f_neg ?s"
    proof -
      have "0 \<le> 1 - f_val ?r" "\<bar>1 - f_val ?r\<bar> \<le> 1" using s rn that by (auto simp: f_round_parts)
      then show ?thesis
        using s round_mag_mono [of "\<bar>1 - f_val ?r\<bar>" 1] by (auto simp: f_round_parts round_mag_consts)
    qed
    with s f_round_not_nan show ?thesis by metis
  qed
  have "\<not> f_nan (busy_percent i t) \<and> \<not> f_less (f_of_int 100) (busy_percent i t)"
  proof (cases "f_finite ?s")
    case False
    then have "f_mag ?s = inf_mag" "f_neg ?s" using sn by (auto simp: f_nan_def f_finite_def)
    then have "busy_percent i t = f_inf True"
      by (simp add: busy_percent_def f_mul_def f_nan_def f_finite_def f_of_int_parts round_mag_consts)
    moreover have "f_neg (f_inf True)" "f_mag (f_inf True) = inf_mag"
      by (simp_all add: f_neg_def f_mag_def f_inf_def sign_bit_def)
    ultimately show ?thesis by (simp add: f_nan_def f_less_def f_of_int_parts)
  next
    case True
    then have u: "busy_percent i t = f_round (f_neg ?s) (f_val ?s * 100)"
      using fin by (simp add: busy_percent_def f_mul_def finite_not_nan v1) (simp add: f_of_int_parts)
    show ?thesis
    proof (cases "f_neg ?s")
      case True
      then have "f_val ?s \<le> 0" by (simp add: f_val_def mag_val_nonneg f_mag_nonneg)
      then have "f_neg (busy_percent i t)" using True by (auto simp: u f_round_parts)
      then show ?thesis by (simp add: u f_round_not_nan f_less_def f_of_int_parts)
    next
      case pos: False
      then have "f_mag ?s \<le> 0x3F800000" using sn by simp
      then have "f_val ?s \<le> 1" "0 \<le> f_val ?s"
        using pos by (simp_all add: f_val_def mag_val_le_one mag_val_nonneg f_mag_nonneg)
      then have "f_mag (busy_percent i t) \<le> 0x42C80000"
        using round_mag_mono [of "\<bar>f_val ?s * 100\<bar>" 100] by (simp add: u f_round_parts round_mag_consts abs_mult)
      then show ?thesis by (simp add: u f_round_not_nan f_less_def f_of_int_parts round_mag_consts)
    qed
  qed
  then show "\<not> f_nan (busy_percent i t)" "\<not> f_less (f_of_int 100) (busy_percent i t)" by simp_all
qed

end
