(* ===== verification/Proc_Table.thy ===== *)
theory Proc_Table
  imports Scan Float32
begin

text \<open>
  The tables of processes and threads of \<^verbatim>\<open>daemon/sys_stat.c\<close>: the lists of nodes, the files
  \<^verbatim>\<open>stat\<close> and \<^verbatim>\<open>smaps\<close> they are filled from, and the update of a table with the processes that were
  found. A table is the list of its nodes in the order of the chain.
\<close>

section \<open>What a sample sees of the system\<close>

text \<open>
  \<open>v_file\<close>: the contents of a file that can be opened; \<open>v_stat\<close>: whether \<^verbatim>\<open>stat\<close> finds a path, and the
  positive \<^verbatim>\<open>errno\<close> it leaves otherwise (\<open>v_errno\<close>); \<open>v_dir\<close>: the entries of a directory and whether each is one
  itself. The rest is used by \<open>Sys_Stat\<close>: the contents of the open list of instrumented processes, the
  time, \<^verbatim>\<open>statfs\<close> (block size, blocks, blocks available), paths that match a pattern.
\<close>

record view_t =
  v_file :: "bytes \<Rightarrow> bytes option"
  v_stat :: "bytes \<Rightarrow> bool"
  v_errno :: int
  v_dir :: "bytes \<Rightarrow> (bytes \<times> bool) list option"
  v_tasks :: "bytes option"
  v_time :: "int \<times> int"
  v_statfs :: "bytes \<Rightarrow> (int \<times> int \<times> int) option"
  v_glob :: "bytes \<Rightarrow> bytes list option"

section \<open>Nodes\<close>

text \<open>The numbers that are read but never used (\<^verbatim>\<open>ppid\<close> to \<^verbatim>\<open>cmajor_fault\<close> and others) are left out.\<close>

record proc_t =
  p_pid :: u32
  p_command :: bytes
  p_state :: byte
  p_utime :: u64
  p_stime :: u64
  p_numofthread :: u32
  p_vir_mem :: u32
  p_sh_mem :: u32
  p_res_memblock :: u32
  p_pss :: u32
  p_cpu_load :: f32

record pnode =
  pn_data :: proc_t
  pn_saved_utime :: u64
  pn_saved_stime :: u64
  pn_found :: bool

record procNode = pnode +
  pn_threads :: "pnode list"

definition node_pid :: "'a pnode_scheme \<Rightarrow> u32" where "node_pid n = p_pid (pn_data n)"

text \<open>A pointer into a table is an index. Finding a node marks it.\<close>

fun find_node :: "'a pnode_scheme list \<Rightarrow> u32 \<Rightarrow> nat option \<times> 'a pnode_scheme list" where
  "find_node [] pid = (None, [])"
| "find_node (t # ts) pid =
     (if node_pid t = pid then (Some 0, t\<lparr>pn_found := True\<rparr> # ts)
      else (let (i, ts) = find_node ts pid in (map_option Suc i, t # ts)))"

text \<open>A new block holds \<open>fresh\<close>; of it the number, the mark and the list of threads are set.\<close>

definition add_proc :: "procNode \<Rightarrow> u32 \<Rightarrow> procNode list \<Rightarrow> procNode list" where
  "add_proc fresh pid ts =
     fresh\<lparr>pn_threads := [], pn_data := (pn_data fresh)\<lparr>p_pid := pid\<rparr>, pn_found := True\<rparr> # ts"

definition add_thread :: "pnode \<Rightarrow> u32 \<Rightarrow> pnode list \<Rightarrow> pnode list" where
  "add_thread fresh pid ts = fresh\<lparr>pn_data := (pn_data fresh)\<lparr>p_pid := pid\<rparr>, pn_found := True\<rparr> # ts"

fun del_node :: "'a pnode_scheme list \<Rightarrow> u32 \<Rightarrow> 'a pnode_scheme list" where
  "del_node [] pid = []"
| "del_node (t # ts) pid = (if node_pid t = pid then ts else t # del_node ts pid)"

fun del_notfound_node :: "'a pnode_scheme list \<Rightarrow> 'a pnode_scheme list" where
  "del_notfound_node [] = []"
| "del_notfound_node (t # ts) = (if \<not> pn_found t then del_notfound_node ts else t # del_notfound_node ts)"

definition reset_found_node :: "'a pnode_scheme list \<Rightarrow> 'a pnode_scheme list" where
  "reset_found_node ts = map (\<lambda>t. t\<lparr>pn_found := False\<rparr>) ts"

section \<open>The file stat of a process or thread\<close>

definition BUFFER_MAX :: nat where "BUFFER_MAX = 1024"
definition MIDDLE_BUFFER :: nat where "MIDDLE_BUFFER = 256"
definition SMALL_BUFFER :: nat where "SMALL_BUFFER = 64"
definition PROCPATH_MAX :: nat where "PROCPATH_MAX = 32"
definition MAXNAMESIZE :: nat where "MAXNAMESIZE = 16"
definition page_size :: u32 where "page_size = 4096"

text \<open>
  The numbers after the state, in the order of the format: five of type \<^verbatim>\<open>int\<close>, five \<^verbatim>\<open>unsigned long\<close>,
  then the times. A number that is not read leaves its field as it was. \<^verbatim>\<open>long\<close> has 32 bits.
\<close>

definition nth_num :: "(bool \<times> int) list \<Rightarrow> nat \<Rightarrow> ((bool \<times> int) \<Rightarrow> 'a) \<Rightarrow> 'a \<Rightarrow> 'a" where
  "nth_num ns i f old = (if i < length ns then f (ns ! i) else old)"

definition num64 :: "bool \<times> int \<Rightarrow> u64" where "num64 n = word_of_int (as_unsigned 64 n)"
definition num32 :: "bool \<times> int \<Rightarrow> u32" where "num32 n = word_of_int (as_unsigned 32 n)"
definition numl :: "bool \<times> int \<Rightarrow> u32" where "numl n = word_of_int (as_signed 32 n)"

definition scan_stat :: "bool \<Rightarrow> bytes \<Rightarrow> proc_t \<Rightarrow> proc_t" where
  "scan_stat is_inst abuf P =
     (let P = (if is_inst then P else P\<lparr>p_numofthread := 0\<rparr>) in
      case abuf of
        [] \<Rightarrow> P
      | c # s \<Rightarrow>
          (let ns = scan_nums (if is_inst then 21 else 12) s;
               P = P\<lparr>p_state := c, p_utime := nth_num ns 10 num64 (p_utime P), p_stime := nth_num ns 11 num64 (p_stime P)\<rparr>
           in if \<not> is_inst then P
              else P\<lparr>p_numofthread := nth_num ns 16 numl (p_numofthread P),
                     p_vir_mem := nth_num ns 19 num32 (p_vir_mem P),
                     p_res_memblock := nth_num ns 20 numl (p_res_memblock P)\<rparr>))"

text \<open>
  The command stands between the first opening and the last closing bracket. \<open>None\<close>: a bracket is
  missing, or bytes would be used that were not read.
\<close>

definition stat_fields :: "bytes \<Rightarrow> (bytes \<times> bytes) option" where
  "stat_fields buf =
     (case (strchr 40 buf, strrchr 41 buf) of
        (Some l, Some r) \<Rightarrow>
          (let abuf = l + 1; num = (if r < abuf \<or> r - abuf \<ge> MAXNAMESIZE then MAXNAMESIZE - 1 else r - abuf) in
           if abuf + num > length buf + 1 \<or> r + 2 > length buf then None
           else Some (str_of_buf (take num (drop abuf buf)), drop (r + 2) buf))
      | _ \<Rightarrow> None)"

definition parse_proc_stat_file_bypid :: "view_t \<Rightarrow> bytes \<Rightarrow> proc_t \<Rightarrow> bool \<Rightarrow> (int \<times> proc_t) option" where
  "parse_proc_stat_file_bypid v path P is_inst_process =
     (case v_file v (take (PROCPATH_MAX - 1) (path @ cstr ''/stat'')) of
        None \<Rightarrow> Some (-1, P)
      | Some f \<Rightarrow>
          if f = [] then Some (-1, P)
          else
            (case stat_fields (str_of_buf (take (BUFFER_MAX - 1) f)) of
               None \<Rightarrow> None
             | Some (cmd, abuf) \<Rightarrow>
                 (let P = scan_stat is_inst_process abuf (P\<lparr>p_command := cmd\<rparr>);
                      P = (if p_numofthread P = 0 then P\<lparr>p_numofthread := 1\<rparr> else P)
                  in Some (0, P\<lparr>p_res_memblock := p_res_memblock P * page_size\<rparr>))))"

section \<open>The file smaps of a process\<close>

definition MIN_SMAP_BLOCKLINE :: nat where "MIN_SMAP_BLOCKLINE = 50"
definition DA_PROBE_TIZEN_SONAME :: bytes where "DA_PROBE_TIZEN_SONAME = cstr ''da_probe_tizen.so''"
definition DA_PROBE_OSP_SONAME :: bytes where "DA_PROBE_OSP_SONAME = cstr ''da_probe_osp.so''"

text \<open>
  \<^verbatim>\<open>numbuf\<close> keeps the last word (\<open>None\<close>: nothing yet). A word that does not fit it is a write past the
  buffer, its use before the first word undefined: \<open>None\<close>.
\<close>

definition read_numbuf :: "bytes \<Rightarrow> bytes option \<Rightarrow> (int \<times> bytes option) option" where
  "read_numbuf s numbuf =
     (case scan_word s of
        Got w _ \<Rightarrow> if length w < SMALL_BUFFER then Some (atoi (str_of_buf w), Some w) else None
      | _ \<Rightarrow> (case numbuf of None \<Rightarrow> None | Some w \<Rightarrow> Some (atoi (str_of_buf w), numbuf)))"

record smaps_t =
  sm_pss :: u32
  sm_sh_mem :: u32
  sm_probe :: u32
  sm_is_probe_so :: bool
  sm_numbuf :: "bytes option"

text \<open>One line, when the size of the probe library is looked for (\<open>search\<close>) and when it is known.\<close>

definition smaps_line :: "bool \<Rightarrow> bytes \<Rightarrow> smaps_t \<Rightarrow> smaps_t option" where
  "smaps_line search buf st =
     (if take 4 buf = cstr ''Pss:'' then
        Option.bind (read_numbuf (drop 4 buf) (sm_numbuf st)) (\<lambda>(n, nb).
          let st = st\<lparr>sm_pss := sm_pss st + word_of_int n, sm_numbuf := nb\<rparr> in
          Some (if search \<and> sm_is_probe_so st
                then st\<lparr>sm_probe := sm_probe st + word_of_int n, sm_is_probe_so := False\<rparr> else st))
      else if take 6 buf = cstr ''Shared'' then
        (case strchr 58 buf of
           None \<Rightarrow> Some st
         | Some p \<Rightarrow>
             Option.bind (read_numbuf (drop (p + 1) buf) (sm_numbuf st)) (\<lambda>(n, nb).
               Some (st\<lparr>sm_sh_mem := sm_sh_mem st + word_of_int n, sm_numbuf := nb\<rparr>)))
      else if search \<and> \<not> sm_is_probe_so st \<and> length buf > MIN_SMAP_BLOCKLINE
        \<and> (strstr buf DA_PROBE_TIZEN_SONAME \<or> strstr buf DA_PROBE_OSP_SONAME)
      then Some (st\<lparr>sm_is_probe_so := True\<rparr>)
      else Some st)"

primrec smaps_lines :: "bool \<Rightarrow> bytes list \<Rightarrow> smaps_t \<Rightarrow> smaps_t option" where
  "smaps_lines search [] st = Some st"
| "smaps_lines search (l # ls) st = Option.bind (smaps_line search (str_of_buf l) st) (smaps_lines search ls)"

definition parse_proc_smaps_file_bypid :: "view_t \<Rightarrow> bytes \<Rightarrow> u32 \<Rightarrow> proc_t \<Rightarrow> (int \<times> u32 \<times> proc_t) option" where
  "parse_proc_smaps_file_bypid v path probe_so_size P =
     (let P = P\<lparr>p_pss := 0, p_sh_mem := 0\<rparr> in
      case v_file v (take (PROCPATH_MAX - 1) (path @ cstr ''/smaps'')) of
        None \<Rightarrow> Some (-1, probe_so_size, P)
      | Some f \<Rightarrow>
          Option.bind
            (smaps_lines (probe_so_size = 0) (file_lines MIDDLE_BUFFER f)
              \<lparr>sm_pss = 0, sm_sh_mem = 0, sm_probe = probe_so_size, sm_is_probe_so = False, sm_numbuf = None\<rparr>)
            (\<lambda>st. Some (0, sm_probe st,
              P\<lparr>p_pss := (sm_pss st - sm_probe st) * 1024, p_sh_mem := sm_sh_mem st * 1024\<rparr>)))"

section \<open>Updating a table\<close>

datatype PROCESS_DATA = PROCDATA_STAT | PROCDATA_SMAPS

text \<open>The paths of a process and of one of its threads.\<close>

definition dec_int :: "u32 \<Rightarrow> bytes" where
  "dec_int p = (if sint p < 0 then 45 # decimal (nat (- sint p)) else decimal (nat (sint p)))"

definition proc_path :: "u32 \<Rightarrow> bytes" where
  "proc_path pid = take (PROCPATH_MAX - 1) (cstr ''/proc/'' @ dec_int pid)"

definition task_path :: "u32 \<Rightarrow> u32 \<Rightarrow> bytes" where
  "task_path pid tid = take (PROCPATH_MAX - 1) (cstr ''/proc/'' @ dec_int pid @ cstr ''/task/'' @ dec_int tid)"

text \<open>
  The loop over the numbers. \<^verbatim>\<open>is_new_node\<close> is set by the first node that is added and not reset
  by the next round; \<^verbatim>\<open>ret\<close> is the result of the last round. \<open>mem\<close>: memory for a new node is there;
  without it the node is used through NULL.
\<close>

record upd_t =
  u_ret :: int
  u_new :: bool
  u_nodes :: "procNode list"
  u_probe :: u32

definition save_times :: "'a pnode_scheme \<Rightarrow> 'a pnode_scheme" where
  "save_times n = n\<lparr>pn_saved_utime := p_utime (pn_data n), pn_saved_stime := p_stime (pn_data n)\<rparr>"

definition update_node ::
  "view_t \<Rightarrow> PROCESS_DATA \<Rightarrow> bool \<Rightarrow> bytes \<Rightarrow> nat \<Rightarrow> upd_t \<Rightarrow> upd_t option" where
  "update_node v datatype is_inst_process buf i st =
     (let n = u_nodes st ! i in
      case datatype of
        PROCDATA_STAT \<Rightarrow>
          Option.bind (parse_proc_stat_file_bypid v buf (pn_data n) is_inst_process) (\<lambda>(ret, P).
            let n = n\<lparr>pn_data := P\<rparr>; n = (if ret \<ge> 0 \<and> u_new st then save_times n else n) in
            Some (st\<lparr>u_ret := ret, u_nodes := (u_nodes st)[i := n]\<rparr>))
      | PROCDATA_SMAPS \<Rightarrow>
          Option.bind (parse_proc_smaps_file_bypid v buf (u_probe st) (pn_data n)) (\<lambda>(ret, probe, P).
            Some (st\<lparr>u_ret := ret, u_probe := probe, u_nodes := (u_nodes st)[i := n\<lparr>pn_data := P\<rparr>]\<rparr>)))"

definition update_one ::
  "view_t \<Rightarrow> bool \<Rightarrow> procNode \<Rightarrow> PROCESS_DATA \<Rightarrow> bool \<Rightarrow> u32 \<Rightarrow> upd_t \<Rightarrow> upd_t option" where
  "update_one v mem fresh datatype is_inst_process pid st =
     (if pid = 0 then Some (st\<lparr>u_ret := 1\<rparr>)
      else
        (let buf = proc_path pid in
         if \<not> v_stat v buf then Some (st\<lparr>u_nodes := del_node (u_nodes st) pid, u_ret := v_errno v\<rparr>)
         else
           case find_node (u_nodes st) pid of
             (Some i, ts) \<Rightarrow> update_node v datatype is_inst_process buf i (st\<lparr>u_nodes := ts\<rparr>)
           | (None, ts) \<Rightarrow>
               if \<not> mem then None
               else update_node v datatype is_inst_process buf 0
                      (st\<lparr>u_nodes := add_proc fresh pid ts, u_new := True\<rparr>)))"

primrec update_all ::
  "view_t \<Rightarrow> bool \<Rightarrow> procNode \<Rightarrow> PROCESS_DATA \<Rightarrow> bool \<Rightarrow> u32 list \<Rightarrow> upd_t \<Rightarrow> upd_t option" where
  "update_all v mem fresh datatype is_inst_process [] st = Some st"
| "update_all v mem fresh datatype is_inst_process (pid # pids) st =
     Option.bind (update_one v mem fresh datatype is_inst_process pid st)
       (update_all v mem fresh datatype is_inst_process pids)"

definition update_process_data ::
  "view_t \<Rightarrow> bool \<Rightarrow> procNode \<Rightarrow> procNode list \<Rightarrow> u32 list \<Rightarrow> PROCESS_DATA \<Rightarrow> bool \<Rightarrow> u32
     \<Rightarrow> (int \<times> u32 \<times> procNode list) option" where
  "update_process_data v mem fresh prochead pidarray datatype is_inst_process probe_so_size =
     map_option (\<lambda>st. (u_ret st, u_probe st, reset_found_node (del_notfound_node (u_nodes st))))
       (update_all v mem fresh datatype is_inst_process pidarray
         \<lparr>u_ret = 0, u_new = False, u_nodes = prochead, u_probe = probe_so_size\<rparr>)"

section \<open>The threads of a process\<close>

text \<open>
  The entries of the directory that begin with a digit other than 0. The node of the process is looked
  up, and so marked, in the table of instrumented processes.
\<close>

definition update_thread ::
  "view_t \<Rightarrow> bool \<Rightarrow> pnode \<Rightarrow> u32 \<Rightarrow> bytes \<Rightarrow> int \<times> pnode list \<Rightarrow> (int \<times> pnode list) option" where
  "update_thread v mem fresh pid name st =
     (let (ret, ths) = st in
      if name = [] \<or> \<not> (48 < hd name \<and> hd name \<le> 57) then Some (ret, ths)
      else
        (let tid = word_of_int (atoi name); buf = task_path pid tid in
         if \<not> v_stat v buf then Some (v_errno v, del_node ths tid)
         else
           case find_node ths tid of
             (None, ths) \<Rightarrow>
               if \<not> mem then None
               else
                 (let ths = add_thread fresh tid ths in
                  map_option (\<lambda>(ret, P).
                      let n = (hd ths)\<lparr>pn_data := P\<rparr> in (ret, (if ret < 0 then n else save_times n) # tl ths))
                    (parse_proc_stat_file_bypid v buf (pn_data (hd ths)) False))
           | (Some i, ths) \<Rightarrow>
               map_option (\<lambda>(ret, P). (ret, ths[i := (ths ! i)\<lparr>pn_data := P\<rparr>]))
                 (parse_proc_stat_file_bypid v buf (pn_data (ths ! i)) False)))"

primrec update_threads ::
  "view_t \<Rightarrow> bool \<Rightarrow> pnode \<Rightarrow> u32 \<Rightarrow> bytes list \<Rightarrow> int \<times> pnode list \<Rightarrow> (int \<times> pnode list) option" where
  "update_threads v mem fresh pid [] st = Some st"
| "update_threads v mem fresh pid (name # names) st =
     Option.bind (update_thread v mem fresh pid name st) (update_threads v mem fresh pid names)"

definition update_thread_data ::
  "view_t \<Rightarrow> bool \<Rightarrow> pnode \<Rightarrow> procNode list \<Rightarrow> u32 \<Rightarrow> (int \<times> procNode list) option" where
  "update_thread_data v mem fresh inst_prochead pid =
     (case v_dir v (take (PROCPATH_MAX - 1) (cstr ''/proc/'' @ dec_int pid @ cstr ''/task'')) of
        None \<Rightarrow> Some (-1, inst_prochead)
      | Some names \<Rightarrow>
          (case find_node inst_prochead pid of
             (None, ts) \<Rightarrow> Some (-1, ts)
           | (Some i, ts) \<Rightarrow>
               map_option (\<lambda>(ret, ths).
                   (ret, ts[i := (ts ! i)\<lparr>pn_threads := reset_found_node (del_notfound_node ths)\<rparr>]))
                 (update_threads v mem fresh pid (map fst names) (0, pn_threads (ts ! i)))))"

section \<open>Loads\<close>

text \<open>The ticks since the last sample times the factor, at most 100, and the new saved times.\<close>

definition node_load :: "f32 \<Rightarrow> 'a pnode_scheme \<Rightarrow> f32" where
  "node_load factor n =
     (let ticks = p_utime (pn_data n) + p_stime (pn_data n) - pn_saved_utime n - pn_saved_stime n;
          load = f_mul (f_of_int (uint ticks)) factor
      in if f_less (f_of_int 100) load then f_of_int 100 else load)"

definition load_node :: "f32 \<Rightarrow> 'a pnode_scheme \<Rightarrow> 'a pnode_scheme" where
  "load_node factor n = save_times (n\<lparr>pn_data := (pn_data n)\<lparr>p_cpu_load := node_load factor n\<rparr>\<rparr>)"

definition fill_system_processes_info :: "f32 \<Rightarrow> procNode list \<Rightarrow> procNode list \<times> u32" where
  "fill_system_processes_info factor prochead =
     (map (load_node factor) prochead, of_nat (length prochead))"

definition fill_system_threads_info :: "f32 \<Rightarrow> procNode list \<Rightarrow> procNode list \<times> u32" where
  "fill_system_threads_info factor inst_prochead =
     (map (\<lambda>p. p\<lparr>pn_threads := map (load_node factor) (pn_threads p)\<rparr>) inst_prochead,
      (\<Sum>p\<leftarrow>inst_prochead. of_nat (length (pn_threads p))))"

section \<open>Facts\<close>

abbreviation node_pids :: "'a pnode_scheme list \<Rightarrow> u32 list" where
  "node_pids ts \<equiv> map node_pid ts"

lemma node_pid_updates [simp]:
  "node_pid (n\<lparr>pn_found := f\<rparr>) = node_pid n"
  "node_pid (save_times n) = node_pid n"
  "pn_found (save_times n) = pn_found n"
  "node_pid (n\<lparr>pn_data := P\<rparr>) = p_pid P"
  by (simp_all add: node_pid_def save_times_def)

lemma find_node_pids [simp]: "node_pids (snd (find_node ts pid)) = node_pids ts"
  by (induction ts) (auto split: prod.splits)

lemma find_node_result:
  "find_node ts pid = (r, ts') \<Longrightarrow>
     (case r of None \<Rightarrow> pid \<notin> set (node_pids ts) \<and> ts' = ts
      | Some i \<Rightarrow> i < length ts \<and> node_pid (ts ! i) = pid \<and> pid \<notin> set (node_pids (take i ts))
          \<and> ts' = ts[i := (ts ! i)\<lparr>pn_found := True\<rparr>])"
  by (induction ts arbitrary: r ts') (auto split: option.splits prod.splits if_splits)

lemma del_node_pids: "distinct (node_pids ts) \<Longrightarrow> del_node ts pid = filter (\<lambda>t. node_pid t \<noteq> pid) ts"
proof (induction ts)
  case (Cons a ts)
  have "filter (\<lambda>t. node_pid t \<noteq> pid) ts = ts" if "node_pid a = pid"
    using Cons.prems that by (intro filter_True) (metis distinct.simps(2) imageI list.map(2) list.set_map)
  with Cons show ?case by simp
qed simp

lemma del_notfound_filter: "del_notfound_node ts = filter pn_found ts"
  by (induction ts) auto

lemma reset_found_simps [simp]:
  "node_pids (reset_found_node ts) = node_pids ts"
  "t \<in> set (reset_found_node ts) \<Longrightarrow> \<not> pn_found t"
  by (auto simp: reset_found_node_def)

lemma scan_stat_pid [simp]: "p_pid (scan_stat is_inst abuf P) = p_pid P"
  by (auto simp: scan_stat_def Let_def split: list.split)

lemma parse_stat_pid:
  "parse_proc_stat_file_bypid v path P is_inst = Some (r, P') \<Longrightarrow> p_pid P' = p_pid P"
  by (auto simp: parse_proc_stat_file_bypid_def Let_def split: option.splits if_splits)

lemma parse_smaps_pid:
  "parse_proc_smaps_file_bypid v path sz P = Some (r, sz', P') \<Longrightarrow> p_pid P' = p_pid P"
  by (auto simp: parse_proc_smaps_file_bypid_def Let_def bind_eq_Some_conv split: option.splits)

text \<open>What an update keeps of the nodes: their numbers and marks, in order.\<close>

definition marks :: "'a pnode_scheme list \<Rightarrow> (u32 \<times> bool) list" where
  "marks ts = map (\<lambda>t. (node_pid t, pn_found t)) ts"

lemma marks_update: "i < length ts \<Longrightarrow> node_pid n = node_pid (ts ! i) \<Longrightarrow> pn_found n = pn_found (ts ! i) \<Longrightarrow>
    marks (ts[i := n]) = marks ts"
  by (simp add: marks_def map_update list_update_same_conv)

lemma update_node_marks:
  assumes "update_node v ty is_inst buf i st = Some st'" "i < length (u_nodes st)"
  shows "marks (u_nodes st') = marks (u_nodes st)"
  using assms
  by (cases ty)
    (auto simp: update_node_def Let_def bind_eq_Some_conv node_pid_def save_times_def
      dest!: parse_stat_pid parse_smaps_pid intro!: marks_update)

text \<open>The processes that a loop has found so far are in the table, and exactly they are marked.\<close>

definition live :: "view_t \<Rightarrow> u32 set \<Rightarrow> u32 set" where
  "live v ps = {p \<in> ps. p \<noteq> 0 \<and> v_stat v (proc_path p)}"

definition table_inv :: "'a pnode_scheme list \<Rightarrow> u32 set \<Rightarrow> bool" where
  "table_inv ts D \<longleftrightarrow>
     distinct (node_pids ts) \<and> D \<subseteq> set (node_pids ts) \<and> (\<forall>t \<in> set ts. pn_found t \<longleftrightarrow> node_pid t \<in> D)"

lemma table_inv_marks:
  fixes ts ts' :: "'a pnode_scheme list"
  assumes "marks ts' = marks ts"
  shows "table_inv ts' D = table_inv ts D"
proof -
  have m: "node_pids ts = map fst (marks ts)" "(\<forall>t \<in> set ts. pn_found t \<longleftrightarrow> node_pid t \<in> D)
      \<longleftrightarrow> (\<forall>(p, f) \<in> set (marks ts). f \<longleftrightarrow> p \<in> D)" for ts :: "'a pnode_scheme list"
    by (auto simp: marks_def comp_def)
  show ?thesis unfolding table_inv_def m [of ts] m [of ts'] assms ..
qed

lemma table_inv_found:
  assumes "table_inv ts D" "find_node ts pid = (Some i, ts')"
  shows "table_inv ts' (insert pid D)" "i < length ts'" "node_pid (ts' ! i) = pid"
proof -
  note f = find_node_result [OF assms(2), simplified]
  have p: "node_pids ts' = node_pids ts" using find_node_pids [of ts pid] assms(2) by simp
  have "pn_found (ts' ! j) \<longleftrightarrow> node_pid (ts' ! j) \<in> insert pid D" if "j < length ts'" for j
  proof (cases "j = i")
    case False
    have "distinct (node_pids ts)" using assms(1) by (simp add: table_inv_def)
    then have "node_pid (ts ! j) \<noteq> pid"
      using False that f nth_eq_iff_index_eq [of "node_pids ts" j i] by simp
    then show ?thesis using False that f assms(1) by (simp add: table_inv_def)
  qed (use f that in simp)
  then show "table_inv ts' (insert pid D)"
    using assms(1) f p
    by (auto simp: table_inv_def all_set_conv_all_nth intro: nth_mem)
  show "i < length ts'" "node_pid (ts' ! i) = pid" using f by simp_all
qed

text \<open>The marked processes after the round for \<open>pid\<close>.\<close>

definition found_after :: "view_t \<Rightarrow> u32 \<Rightarrow> u32 set \<Rightarrow> u32 set" where
  "found_after v pid D = (if pid = 0 then D else if v_stat v (proc_path pid) then insert pid D else D - {pid})"

lemma update_one_inv:
  assumes inv: "table_inv (u_nodes st) D"
    and u: "update_one v mem fresh ty is_inst pid st = Some st'"
  shows "table_inv (u_nodes st') (found_after v pid D)"
proof -
  consider "pid = 0" | "pid \<noteq> 0" "\<not> v_stat v (proc_path pid)" | "pid \<noteq> 0" "v_stat v (proc_path pid)" by blast
  then show ?thesis
  proof cases
    case 1
    with u inv show ?thesis by (auto simp: update_one_def found_after_def)
  next
    case 2
    have "distinct (node_pids (u_nodes st))" using inv by (simp add: table_inv_def)
    then have "table_inv (del_node (u_nodes st) pid) (D - {pid})"
      using inv by (auto simp: table_inv_def del_node_pids distinct_map_filter)
    with 2 u show ?thesis by (auto simp: update_one_def found_after_def Let_def)
  next
    case 3
    obtain r ts where f: "find_node (u_nodes st) pid = (r, ts)" by fastforce
    show ?thesis
    proof (cases r)
      case (Some i)
      note t = table_inv_found [OF inv f [unfolded Some]]
      have "update_node v ty is_inst (proc_path pid) i (st\<lparr>u_nodes := ts\<rparr>) = Some st'"
        using u f 3 Some by (simp add: update_one_def Let_def)
      from update_node_marks [OF this] t have "marks (u_nodes st') = marks ts" by simp
      then show ?thesis using t(1) 3 by (simp add: found_after_def table_inv_marks [of "u_nodes st'" ts])
    next
      case None
      let ?ts = "add_proc fresh pid (u_nodes st)"
      have n: "pid \<notin> set (node_pids (u_nodes st))" "ts = u_nodes st"
        using find_node_result [OF f] None by simp_all
      have "update_node v ty is_inst (proc_path pid) 0 (st\<lparr>u_nodes := ?ts, u_new := True\<rparr>) = Some st'"
        using u f 3 None n by (simp add: update_one_def Let_def split: if_splits)
      from update_node_marks [OF this] have m: "marks (u_nodes st') = marks ?ts" by (simp add: add_proc_def)
      have "table_inv ?ts (insert pid D)"
        using inv n by (auto simp: table_inv_def add_proc_def node_pid_def)
      then show ?thesis using m 3 by (simp add: found_after_def table_inv_marks [of "u_nodes st'" ?ts])
    qed
  qed
qed

lemma update_all_inv:
  "table_inv (u_nodes st) D \<Longrightarrow> update_all v mem fresh ty is_inst pids st = Some st' \<Longrightarrow>
     table_inv (u_nodes st') (fold (found_after v) pids D)"
proof (induction pids arbitrary: st D)
  case (Cons pid pids)
  then obtain st1 where 1: "update_one v mem fresh ty is_inst pid st = Some st1"
    and 2: "update_all v mem fresh ty is_inst pids st1 = Some st'"
    by (auto simp: bind_eq_Some_conv)
  from Cons.IH [OF update_one_inv [OF Cons.prems(1) 1] 2] show ?case by simp
qed simp

lemma fold_found_after: "fold (found_after v) pids (live v ps) = live v (ps \<union> set pids)"
proof (induction pids arbitrary: ps)
  case (Cons pid pids)
  have "found_after v pid (live v ps) = live v (insert pid ps)" by (auto simp: found_after_def live_def)
  with Cons [of "insert pid ps"] show ?case by simp
qed simp

text \<open>A table stays without repetition, whatever marks it had.\<close>

lemma update_data_distinct:
  assumes "distinct (node_pids ts)" "update_process_data v mem fresh ts pids ty is_inst sz = Some (r, sz', ts')"
  shows "distinct (node_pids ts')" "\<forall>t \<in> set ts'. \<not> pn_found t"
proof -
  obtain st where u: "update_all v mem fresh ty is_inst pids
      \<lparr>u_ret = 0, u_new = False, u_nodes = ts, u_probe = sz\<rparr> = Some st"
    and ts': "ts' = reset_found_node (del_notfound_node (u_nodes st))"
    using assms(2) by (auto simp: update_process_data_def)
  let ?D = "node_pid ` {t \<in> set ts. pn_found t}"
  have "inj_on node_pid (set ts)" using assms(1) by (simp add: distinct_map)
  then have "node_pid t \<in> ?D \<longleftrightarrow> pn_found t" if "t \<in> set ts" for t
    using that inj_onD by fastforce
  then have "table_inv ts ?D" using assms(1) by (auto simp: table_inv_def)
  with update_all_inv [OF _ u, of ?D] have "table_inv (u_nodes st) (fold (found_after v) pids ?D)" by simp
  then have "distinct (node_pids (u_nodes st))" by (simp add: table_inv_def)
  then show "distinct (node_pids ts')" by (simp add: ts' del_notfound_filter distinct_map_filter)
  show "\<forall>t \<in> set ts'. \<not> pn_found t" by (simp add: ts')
qed

lemma kept_node:
  "n \<in> set ts \<Longrightarrow> pn_found n \<Longrightarrow> n\<lparr>pn_found := False\<rparr> \<in> set (reset_found_node (del_notfound_node ts))"
  unfolding del_notfound_filter reset_found_node_def set_map by (rule imageI) simp

lemma update_data_table:
  assumes "distinct (node_pids ts)" "\<forall>t \<in> set ts. \<not> pn_found t"
    and "update_process_data v mem fresh ts pids ty is_inst sz = Some (r, sz', ts')"
  shows "distinct (node_pids ts')" "set (node_pids ts') = live v (set pids)" "\<forall>t \<in> set ts'. \<not> pn_found t"
proof -
  obtain st where u: "update_all v mem fresh ty is_inst pids
      \<lparr>u_ret = 0, u_new = False, u_nodes = ts, u_probe = sz\<rparr> = Some st"
    and ts': "ts' = reset_found_node (del_notfound_node (u_nodes st))"
    using assms(3) by (auto simp: update_process_data_def)
  have "table_inv ts (live v {})" using assms(1,2) by (auto simp: table_inv_def live_def)
  then have inv: "table_inv (u_nodes st) (live v (set pids))"
    using update_all_inv [OF _ u, of "live v {}"] fold_found_after [of v pids "{}"] by simp
  then have "node_pid ` {t \<in> set (u_nodes st). pn_found t} = live v (set pids)"
    by (force simp: table_inv_def)
  then show "set (node_pids ts') = live v (set pids)" by (simp add: ts' del_notfound_filter)
  show "distinct (node_pids ts')" using inv by (simp add: ts' del_notfound_filter table_inv_def distinct_map_filter)
  show "\<forall>t \<in> set ts'. \<not> pn_found t" by (simp add: ts')
qed

lemma find_node_distinct:
  assumes "distinct (node_pids ts)" "pid \<in> set (node_pids ts)"
  obtains i where "find_node ts pid = (Some i, ts[i := (ts ! i)\<lparr>pn_found := True\<rparr>])" "i < length ts"
    "node_pid (ts ! i) = pid"
proof -
  obtain r ts' where f: "find_node ts pid = (r, ts')" by fastforce
  with find_node_result [OF f] assms(2) obtain i where "r = Some i" by (cases r) auto
  with find_node_result [OF f] f that show thesis by auto
qed

lemma load_of_saved: "node_load factor (save_times n) =
    (if f_less (f_of_int 100) (f_mul (f_of_int 0) factor) then f_of_int 100 else f_mul (f_of_int 0) factor)"
  by (simp add: node_load_def save_times_def)

text \<open>Reading the times of processes has no undefined behaviour when their files have the form of the kernel.\<close>

definition stat_ok :: "view_t \<Rightarrow> bool" where
  "stat_ok v \<longleftrightarrow> (\<forall>p f. v_file v p = Some f \<longrightarrow> stat_fields (str_of_buf (take (BUFFER_MAX - 1) f)) \<noteq> None)"

lemma parse_stat_total: "stat_ok v \<Longrightarrow> parse_proc_stat_file_bypid v path P is_inst \<noteq> None"
  by (fastforce simp: stat_ok_def parse_proc_stat_file_bypid_def Let_def split: option.split)

lemma update_total:
  assumes "stat_ok v"
  shows "update_process_data v True fresh ts pids PROCDATA_STAT is_inst sz \<noteq> None"
proof -
  have n: "update_node v PROCDATA_STAT is_inst buf i st \<noteq> None" for buf i st
  proof -
    obtain r P where "parse_proc_stat_file_bypid v buf (pn_data (u_nodes st ! i)) is_inst = Some (r, P)"
      using parse_stat_total [OF assms] by (metis not_None_eq prod.collapse)
    then show ?thesis by (simp add: update_node_def Let_def)
  qed
  have 1: "update_one v True fresh PROCDATA_STAT is_inst pid st \<noteq> None" for pid st
    using n by (simp add: update_one_def Let_def split: prod.split option.split)
  have "update_all v True fresh PROCDATA_STAT is_inst pids st \<noteq> None" for st
  proof (induction pids arbitrary: st)
    case (Cons pid pids)
    obtain st1 where "update_one v True fresh PROCDATA_STAT is_inst pid st = Some st1" using 1 [of pid st] by blast
    with Cons show ?case by simp
  qed simp
  then show ?thesis by (simp add: update_process_data_def)
qed

section \<open>Properties\<close>

text \<open>
  After an update the table has exactly one node for each process of the list that still exists,
  and none for any other.
\<close>

theorem process_table_exact:
  assumes "distinct (node_pids ts)" "\<forall>t \<in> set ts. \<not> pn_found t"
    and "update_process_data v mem fresh ts pids ty is_inst sz = Some (r, sz', ts')"
  shows "distinct (node_pids ts') \<and> set (node_pids ts') = {p \<in> set pids. p \<noteq> 0 \<and> v_stat v (proc_path p)}
    \<and> (\<forall>t \<in> set ts'. \<not> pn_found t)"
  using update_data_table [OF assms] by (simp add: live_def)

definition zero_proc :: proc_t where
  "zero_proc = \<lparr>p_pid = 0, p_command = [], p_state = 0, p_utime = 0, p_stime = 0, p_numofthread = 0,
     p_vir_mem = 0, p_sh_mem = 0, p_res_memblock = 0, p_pss = 0, p_cpu_load = 0\<rparr>"

definition zero_node :: procNode where
  "zero_node = \<lparr>pn_data = zero_proc, pn_saved_utime = 0, pn_saved_stime = 0, pn_found = False, pn_threads = []\<rparr>"

text \<open>A system where each process has used seven ticks, and process 9 is gone.\<close>

definition sample_view :: view_t where
  "sample_view = \<lparr>v_file = \<lambda>_. Some (cstr ''1 (a) S 1 2 3 4 5 6 7 8 9 10 7 0''), v_stat = \<lambda>p. p \<noteq> proc_path 9,
     v_errno = 2, v_dir = \<lambda>_. None, v_tasks = None, v_time = (0, 0), v_statfs = \<lambda>_. None, v_glob = \<lambda>_. None\<rparr>"

lemma sample_view_ok: "stat_ok sample_view"
proof -
  have "stat_fields (str_of_buf (take (BUFFER_MAX - 1) (cstr ''1 (a) S 1 2 3 4 5 6 7 8 9 10 7 0''))) \<noteq> None"
    by code_simp
  then show ?thesis by (auto simp: stat_ok_def sample_view_def)
qed

definition sample_node :: "u32 \<Rightarrow> procNode" where
  "sample_node p = zero_node\<lparr>pn_data := zero_proc\<lparr>p_pid := p\<rparr>\<rparr>"

theorem process_table_exact_witness:
  "\<exists>r sz ts. update_process_data sample_view True zero_node [sample_node 9, sample_node 4] [5, 4, 9] PROCDATA_STAT True 0
     = Some (r, sz, ts) \<and> set (node_pids ts) = {4, 5}"
proof -
  have "update_process_data sample_view True zero_node [sample_node 9, sample_node 4] [5, 4, 9] PROCDATA_STAT True 0 \<noteq> None"
    by (rule update_total [OF sample_view_ok])
  then obtain r sz ts where u:
    "update_process_data sample_view True zero_node [sample_node 9, sample_node 4] [5, 4, 9] PROCDATA_STAT True 0 = Some (r, sz, ts)"
    by auto
  have d: "distinct (node_pids [sample_node 9, sample_node 4])" "\<forall>t \<in> set [sample_node 9, sample_node 4]. \<not> pn_found t"
    by code_simp+
  have "{p \<in> set [5, 4, 9]. p \<noteq> 0 \<and> v_stat sample_view (proc_path p)} = {4, 5}"
  proof -
    have "v_stat sample_view (proc_path 5)" "v_stat sample_view (proc_path 4)" "\<not> v_stat sample_view (proc_path 9)"
      by code_simp+
    then show ?thesis by auto
  qed
  with process_table_exact [OF d u] u show ?thesis by auto
qed


lemma update_one_ret:
  assumes "update_one v mem fresh PROCDATA_STAT is_inst pid st = Some st'" "pid \<noteq> 0" "v_stat v (proc_path pid)"
    and "\<And>path P. \<exists>P'. parse_proc_stat_file_bypid v path P is_inst = Some (0, P')"
  shows "u_ret st' = 0"
proof -
  have k: "u_ret st2 = 0" if "update_node v PROCDATA_STAT is_inst buf i st1 = Some st2" for buf i st1 st2
  proof -
    obtain P' where "parse_proc_stat_file_bypid v buf (pn_data (u_nodes st1 ! i)) is_inst = Some (0, P')"
      using assms(4) by blast
    then show ?thesis using that by (auto simp: update_node_def Let_def)
  qed
  obtain r ts where f: "find_node (u_nodes st) pid = (r, ts)" by fastforce
  show ?thesis
  proof (cases r)
    case None
    with assms(1-3) f show ?thesis by (cases mem) (simp_all add: update_one_def Let_def k)
  next
    case (Some i)
    with assms(1-3) f show ?thesis by (simp add: update_one_def Let_def k)
  qed
qed


end
