(* ===== verification/Sys_Cpu.thy ===== *)
theory Sys_Cpu
  imports Proc_Table
begin

text \<open>
  The load and the frequency of the processors (\<^verbatim>\<open>daemon/sys_stat.c\<close>). \<open>cpus\<close> has one entry for each
  of the \<^verbatim>\<open>num_of_cpu\<close> cores and a last one for all together.
\<close>

section \<open>State\<close>

record ticks_t =
  t_u :: u64
  t_n :: u64
  t_s :: u64
  t_i :: u64
  t_w :: u64
  t_x :: u64
  t_y :: u64
  t_z :: u64

record CPU_t =
  c_now :: ticks_t
  c_sav :: ticks_t
  c_id :: u32
  c_usage :: f32
  c_sav_index :: int
  c_cur_index :: int
  c_pfreq :: "(u32 \<times> u64) list option"
  c_freq_index :: int
  c_idle_ticks :: int
  c_total_ticks :: int

definition zero_ticks :: ticks_t where
  "zero_ticks = \<lparr>t_u = 0, t_n = 0, t_s = 0, t_i = 0, t_w = 0, t_x = 0, t_y = 0, t_z = 0\<rparr>"

text \<open>\<^verbatim>\<open>initialize_system_info\<close>: a cleared array, no sample taken.\<close>

definition cpu0 :: CPU_t where
  "cpu0 = \<lparr>c_now = zero_ticks, c_sav = zero_ticks, c_id = 0, c_usage = 0, c_sav_index = -1, c_cur_index = -1,
     c_pfreq = None, c_freq_index = -1, c_idle_ticks = 0, c_total_ticks = 0\<rparr>"

definition initialize_system_info :: "int \<Rightarrow> bool \<Rightarrow> CPU_t list option \<Rightarrow> (int \<times> nat \<times> CPU_t list option)" where
  "initialize_system_info nproc mem cpus =
     (let num_of_cpu = (if nproc < 1 then 1 else nat nproc);
          cpus = (case cpus of None \<Rightarrow> if mem then Some (replicate (num_of_cpu + 1) cpu0) else None | Some c \<Rightarrow> Some c)
      in case cpus of
           None \<Rightarrow> (-1, num_of_cpu, None)
         | Some c \<Rightarrow> (0, num_of_cpu, Some (map (\<lambda>p. p\<lparr>c_sav_index := -1, c_cur_index := -1, c_freq_index := -1\<rparr>) c)))"

section \<open>Reading the ticks\<close>

text \<open>The numbers of a line in their order; the last three are cleared before, the others keep their value.\<close>

definition read_ticks :: "(bool \<times> int) list \<Rightarrow> ticks_t \<Rightarrow> ticks_t" where
  "read_ticks ns t =
     \<lparr>t_u = nth_num ns 0 num64 (t_u t), t_n = nth_num ns 1 num64 (t_n t), t_s = nth_num ns 2 num64 (t_s t),
      t_i = nth_num ns 3 num64 (t_i t), t_w = nth_num ns 4 num64 (t_w t), t_x = nth_num ns 5 num64 0,
      t_y = nth_num ns 6 num64 0, t_z = nth_num ns 7 num64 0\<rparr>"

definition cpu_line :: "nat \<Rightarrow> bytes \<Rightarrow> (bool \<times> int) list" where
  "cpu_line k line = (case scan_lit (cstr ''cpu'') (str_of_buf line) of None \<Rightarrow> [] | Some s \<Rightarrow> scan_nums k s)"

text \<open>The line of a core also gives its number; a core counts as read with more than four numbers.\<close>

definition read_core :: "int \<Rightarrow> bytes \<Rightarrow> CPU_t \<Rightarrow> CPU_t" where
  "read_core cur_index line c =
     (let ns = cpu_line 9 line in
      c\<lparr>c_id := nth_num ns 0 num32 (c_id c), c_now := read_ticks (drop 1 ns) (c_now c),
        c_cur_index := (if length ns > 4 then cur_index else c_cur_index c)\<rparr>)"

fun read_cores :: "int \<Rightarrow> bytes list \<Rightarrow> CPU_t list \<Rightarrow> CPU_t list" where
  "read_cores cur_index (l # ls) (c # cs) = read_core cur_index l c # read_cores cur_index ls cs"
| "read_cores cur_index ls cs = cs"

text \<open>\<open>procstat\<close>: the open file \<^verbatim>\<open>/proc/stat\<close>, from its beginning.\<close>

definition update_system_cpu_data :: "bytes option \<Rightarrow> nat \<Rightarrow> int \<Rightarrow> CPU_t list \<Rightarrow> int \<times> CPU_t list" where
  "update_system_cpu_data procstat num_of_cpu cur_index cpus =
     (case procstat of
        None \<Rightarrow> (-1, cpus)
      | Some f \<Rightarrow>
          (case file_lines BUFFER_MAX f of
             [] \<Rightarrow> (-1, cpus)
           | l # ls \<Rightarrow>
               (let ns = cpu_line 8 l; c = cpus ! num_of_cpu;
                    all = c\<lparr>c_now := read_ticks ns (c_now c), c_cur_index := cur_index\<rparr>;
                    cpus = cpus[num_of_cpu := all]
                in if length ns < 4 then (-1, cpus)
                   else if num_of_cpu = 1 then
                     (0, cpus[1 := all\<lparr>c_id := 0\<rparr>,
                              0 := (cpus ! 0)\<lparr>c_id := 0, c_now := c_now all, c_cur_index := cur_index\<rparr>])
                   else if num_of_cpu > 1 then
                     (0, read_cores cur_index ls (take num_of_cpu cpus) @ drop num_of_cpu cpus)
                   else (-1, cpus))))"

section \<open>Frequency tables\<close>

definition freq_path :: "nat \<Rightarrow> bytes" where
  "freq_path i = cstr ''/sys/devices/system/cpu/cpu'' @ [of_nat (48 + i)] @ cstr ''/cpufreq/stats/time_in_state''"

definition read_freqs :: "bytes list \<Rightarrow> (u32 \<times> u64) list \<Rightarrow> (u32 \<times> u64) list" where
  "read_freqs ls fs =
     map2 (\<lambda>l (fr, tk). let ns = scan_nums 2 (str_of_buf l) in (nth_num ns 0 num32 fr, nth_num ns 1 num64 tk))
       (take (length fs) ls) (take (length ls) fs) @ drop (length ls) fs"

text \<open>A table that could not be allocated is used through NULL: \<open>None\<close>.\<close>

primrec update_freqs :: "view_t \<Rightarrow> nat \<Rightarrow> int \<Rightarrow> nat \<Rightarrow> CPU_t list \<Rightarrow> CPU_t list option" where
  "update_freqs v num_of_freq cur_index i [] = Some []"
| "update_freqs v num_of_freq cur_index i (c # cs) =
     Option.bind
       (case v_file v (freq_path i) of
          None \<Rightarrow> Some c
        | Some f \<Rightarrow>
            if num_of_freq = 0 then Some (c\<lparr>c_freq_index := cur_index\<rparr>)
            else (case (c_pfreq c, file_lines SMALL_BUFFER f) of
                    (pf, []) \<Rightarrow> Some (c\<lparr>c_freq_index := cur_index\<rparr>)
                  | (None, l # ls) \<Rightarrow> None
                  | (Some fs, l # ls) \<Rightarrow> Some (c\<lparr>c_pfreq := Some (read_freqs (l # ls) fs), c_freq_index := cur_index\<rparr>)))
       (\<lambda>c. map_option ((#) c) (update_freqs v num_of_freq cur_index (Suc i) cs))"

definition update_system_cpu_frequency ::
  "view_t \<Rightarrow> bool \<Rightarrow> nat \<Rightarrow> nat \<Rightarrow> int \<Rightarrow> CPU_t list \<Rightarrow> (nat \<times> CPU_t list) option" where
  "update_system_cpu_frequency v mem num_of_cpu num_of_freq cur_index cpus =
     (let n = (if num_of_freq = 0
               then (case v_file v (freq_path 0) of None \<Rightarrow> 0 | Some f \<Rightarrow> length (file_lines SMALL_BUFFER f))
               else num_of_freq);
          cores = (if num_of_freq = 0
                   then map (\<lambda>c. if c_pfreq c = None \<and> n \<noteq> 0 \<and> mem then c\<lparr>c_pfreq := Some (replicate n (0, 0))\<rparr> else c)
                          (take num_of_cpu cpus)
                   else take num_of_cpu cpus)
      in map_option (\<lambda>cs. (n, cs @ drop num_of_cpu cpus)) (update_freqs v n cur_index 0 cores))"

section \<open>Loads\<close>

definition MIN_TOTAL_TICK :: int where "MIN_TOTAL_TICK = 1"

text \<open>The ticks since the last sample but the idle ones, in 64 bits.\<close>

definition busy_ticks :: "CPU_t \<Rightarrow> u64" where
  "busy_ticks c =
     (t_u (c_now c) - t_u (c_sav c)) + (t_s (c_now c) - t_s (c_sav c)) + (t_n (c_now c) - t_n (c_sav c))
     + (t_w (c_now c) - t_w (c_sav c)) + (t_x (c_now c) - t_x (c_sav c)) + (t_y (c_now c) - t_y (c_sav c))
     + (t_z (c_now c) - t_z (c_sav c))"

definition save_ticks :: "CPU_t \<Rightarrow> CPU_t" where
  "save_ticks c = c\<lparr>c_sav := c_now c, c_sav_index := c_cur_index c\<rparr>"

text \<open>
  One core. When its last sample is just one period old the load is what is not idle; otherwise the
  busy ticks are taken to belong to one period. \<open>None\<close>: the number of ticks of the period does not
  fit its type.
\<close>

definition update_cpu :: "int \<Rightarrow> f32 \<Rightarrow> int \<Rightarrow> CPU_t \<Rightarrow> CPU_t option" where
  "update_cpu Hertz elapsed sample_no c =
     (if c_cur_index c \<noteq> sample_no then Some (c\<lparr>c_usage := 0\<rparr>)
      else if c_sav_index c = sample_no - 1 then
        (let d = sint (t_i (c_now c) - t_i (c_sav c)); idle = (if d < 0 then 0 else d);
             total = sint (busy_ticks c + word_of_int idle);
             usage = (if total < MIN_TOTAL_TICK then 0 else busy_percent idle total);
             usage = (if f_less usage 0 then 0 else usage)
         in Some (save_ticks (c\<lparr>c_idle_ticks := idle, c_total_ticks := total, c_usage := usage\<rparr>)))
      else
        (let idle = sint (busy_ticks c) in
         case f_trunc (- (2 ^ 63)) (2 ^ 63 - 1) (f_mul (f_of_int Hertz) elapsed) of
           None \<Rightarrow> None
         | Some t \<Rightarrow>
             (let total = (if t < 1 then 1 else t);
                  usage = f_mul (f_div (f_of_int idle) (f_of_int total)) (f_of_int 100);
                  usage = (if f_less (f_of_int 100) usage then f_of_int 100 else usage)
              in Some (save_ticks (c\<lparr>c_idle_ticks := idle, c_total_ticks := total, c_usage := usage\<rparr>)))))"

primrec update_cpus :: "int \<Rightarrow> f32 \<Rightarrow> int \<Rightarrow> CPU_t list \<Rightarrow> CPU_t list option" where
  "update_cpus Hertz elapsed sample_no [] = Some []"
| "update_cpus Hertz elapsed sample_no (c # cs) =
     Option.bind (update_cpu Hertz elapsed sample_no c) (\<lambda>c.
       map_option ((#) c) (update_cpus Hertz elapsed sample_no cs))"

definition update_cpus_info :: "int \<Rightarrow> nat \<Rightarrow> int \<Rightarrow> f32 \<Rightarrow> CPU_t list \<Rightarrow> CPU_t list option" where
  "update_cpus_info Hertz num_of_cpu sample_no elapsed cpus =
     map_option (\<lambda>cs. cs @ drop num_of_cpu cpus) (update_cpus Hertz elapsed sample_no (take num_of_cpu cpus))"

section \<open>Current frequencies\<close>

text \<open>
  \<^verbatim>\<open>atof\<close> of a word, by way of \<^verbatim>\<open>double\<close>: digits, and digits after a point. Other forms of numbers do
  not occur in the files read.
\<close>

definition round_double :: "rat \<Rightarrow> rat" where
  "round_double q =
     (let e = expo_from 430 q (- 84) - 126 in of_int (rne (q / pow2 (e - 53))) * pow2 (e - 53))"

definition atof :: "bytes \<Rightarrow> f32" where
  "atof s =
     (let (sg, ds) = scan_sign (skip_space s); (v, rest) = scan_digits 0 ds;
          fs = (case rest of [] \<Rightarrow> [] | c # cs \<Rightarrow> if c = 46 then takeWhile is_digit cs else []);
          q = of_int v + of_int (fst (scan_digits 0 fs)) / 10 ^ length fs
      in f_round (sg < 0) (of_int sg * round_double q))"

definition online_path :: "nat \<Rightarrow> bytes" where
  "online_path n = cstr ''/sys/devices/system/cpu/cpu'' @ decimal n @ cstr ''/online''"

definition cur_freq_path :: "nat \<Rightarrow> bytes" where
  "cur_freq_path n = cstr ''/sys/devices/system/cpu/cpu'' @ decimal n @ cstr ''/cpufreq/cpuinfo_cur_freq''"

text \<open>
  The loop goes on as long as there is a file for the next core, whatever the size of the array:
  \<open>None\<close> when it is left, or when a word is too long for \<^verbatim>\<open>freq_str\<close>.
\<close>

primrec freq_loop :: "view_t \<Rightarrow> nat \<Rightarrow> nat \<Rightarrow> f32 list option" where
  "freq_loop v cpu_n 0 = (if v_file v (online_path cpu_n) = None then Some [] else None)"
| "freq_loop v cpu_n (Suc room) =
     (if v_file v (online_path cpu_n) = None then Some (replicate (Suc room) 0)
      else
        Option.bind
          (case v_file v (cur_freq_path cpu_n) of
             None \<Rightarrow> Some 0
           | Some f \<Rightarrow>
               (case scan_word f of
                  Got w _ \<Rightarrow> if length w < SMALL_BUFFER then Some (atof (str_of_buf w)) else None
                | _ \<Rightarrow> Some 0))
          (\<lambda>freq. map_option ((#) freq) (freq_loop v (Suc cpu_n) room)))"

definition get_cpu_frequency :: "view_t \<Rightarrow> nat \<Rightarrow> f32 list option" where
  "get_cpu_frequency v num_of_cpu = freq_loop v 0 num_of_cpu"

section \<open>Facts\<close>

lemma sint_range: "- (2 ^ 63) \<le> sint (w :: u64)" "sint (w :: u64) < 2 ^ 63"
  using sint_greater_eq [of w] sint_less [of w] by simp_all

lemma f_less_zero_self [simp]: "\<not> f_less 0 0" "\<not> f_nan 0" "\<not> f_less (f_of_int 100) 0"
proof -
  have "f_mag 0 = 0" "\<not> f_neg 0" by (simp_all add: f_mag_def f_neg_def)
  then show "\<not> f_less 0 0" "\<not> f_nan 0" "\<not> f_less (f_of_int 100) 0"
    by (simp_all add: f_less_def f_nan_def f_of_int_parts round_mag_consts)
qed

lemma update_cpu_keeps: "update_cpu Hertz elapsed k c = Some c' \<Longrightarrow> c_now c' = c_now c \<and> c_cur_index c' = c_cur_index c"
  by (auto simp: update_cpu_def save_ticks_def Let_def split: if_splits option.splits)

lemma update_cpus_nth:
  assumes "update_cpus Hertz elapsed k cs = Some cs'" "i < length cs"
  shows "length cs' = length cs" "update_cpu Hertz elapsed k (cs ! i) = Some (cs' ! i)"
  using assms
proof (induction cs arbitrary: cs' i)
  case (Cons c cs)
  {
    case 1 then show ?case using Cons.IH(1) [of _ 0] by (cases cs) (auto simp: bind_eq_Some_conv)
  next
    case 2 then show ?case using Cons.IH(2) by (cases i) (auto simp: bind_eq_Some_conv)
  }
qed simp_all

section \<open>Properties\<close>

text \<open>
  The load of a core that was sampled in this period and in the one before is a number from 0 to 100,
  whatever the kernel's counters hold, and however the divisions round.
\<close>

theorem cpu_load_range:
  assumes "update_cpu Hertz elapsed k c = Some c'" "c_cur_index c = k" "c_sav_index c = k - 1"
  shows "\<not> f_nan (c_usage c') \<and> \<not> f_less (c_usage c') 0 \<and> \<not> f_less (f_of_int 100) (c_usage c')
    \<and> c_sav c' = c_now c"
proof -
  let ?d = "sint (t_i (c_now c) - t_i (c_sav c))"
  let ?idle = "if ?d < 0 then 0 else ?d"
  let ?total = "sint (busy_ticks c + word_of_int ?idle)"
  let ?u = "if ?total < MIN_TOTAL_TICK then 0 else busy_percent ?idle ?total"
  have c': "c' = save_ticks (c\<lparr>c_idle_ticks := ?idle, c_total_ticks := ?total, c_usage := if f_less ?u 0 then 0 else ?u\<rparr>)"
    using assms by (simp add: update_cpu_def Let_def)
  have "\<not> f_nan ?u \<and> \<not> f_less (f_of_int 100) ?u"
  proof (cases "?total < MIN_TOTAL_TICK")
    case False
    have "?idle < 2 ^ 64" "0 \<le> ?idle" "1 \<le> ?total" "?total < 2 ^ 64"
      using False sint_range(2) [of "t_i (c_now c) - t_i (c_sav c)"] sint_range(2) [of "busy_ticks c + word_of_int ?idle"]
      by (auto simp: MIN_TOTAL_TICK_def)
    from busy_percent_le [OF this(2,1,3,4)] False show ?thesis by simp
  qed simp
  then show ?thesis by (simp add: c' save_ticks_def)
qed

theorem cpu_load_range_witness:
  "\<exists>c. update_cpu 100 0 4 (cpu0\<lparr>c_cur_index := 4, c_sav_index := 3, c_now := zero_ticks\<lparr>t_u := 30, t_i := 70\<rparr>\<rparr>) = Some c
     \<and> \<not> f_nan (c_usage c) \<and> \<not> f_less (c_usage c) 0 \<and> \<not> f_less (f_of_int 100) (c_usage c)"
proof -
  let ?c = "cpu0\<lparr>c_cur_index := 4, c_sav_index := 3, c_now := zero_ticks\<lparr>t_u := 30, t_i := 70\<rparr>\<rparr>"
  obtain c where u: "update_cpu 100 0 4 ?c = Some c" by (auto simp: update_cpu_def Let_def)
  have "c_cur_index ?c = 4" "c_sav_index ?c = 4 - 1" by simp_all
  from cpu_load_range [OF u this] u show ?thesis by blast
qed

end
