(* ===== verification/Device.thy ===== *)
theory Device
  imports Proc_Table
begin

text \<open>
  Devices and features of the system: \<^verbatim>\<open>daemon/device_vconf.c\<close>, \<^verbatim>\<open>daemon/device_system_info.c\<close>,
  \<^verbatim>\<open>daemon/device_camera.c\<close>, and the status files and the network type of \<^verbatim>\<open>daemon/sys_stat.c\<close>. The
  libraries \<^verbatim>\<open>vconf\<close> and \<^verbatim>\<open>capi-system-info\<close> are parameters.
\<close>

section \<open>Settings\<close>

datatype vconf_key =
    WIFI_STATE | BT_STATUS | LOCATION_ENABLED | LOCATION_GPS_STATE | TELEPHONY_FLIGHT_MODE
  | TELEPHONY_RSSI | CALL_STATE | DNET_STATE | CAMERA_STATE | SETAPPL_SOUND_STATUS
  | SOUND_STATUS | SETAPPL_VIBRATION_STATUS

text \<open>
  \<open>vc_get\<close>: what \<^verbatim>\<open>vconf_get_int\<close> or \<^verbatim>\<open>vconf_get_bool\<close> stores, \<open>None\<close> when it fails; \<open>vc_off\<close>: the
  constant of the library for the state that is taken then; \<open>vc_feature\<close>: \<^verbatim>\<open>system_info_get_platform_bool\<close>.
\<close>

record device_t =
  vc_get :: "vconf_key \<Rightarrow> int option"
  vc_off :: "vconf_key \<Rightarrow> int"
  vc_feature :: "bytes \<Rightarrow> bool option"

definition get_or :: "device_t \<Rightarrow> vconf_key \<Rightarrow> int \<Rightarrow> int" where
  "get_or dv k off = (case vc_get dv k of None \<Rightarrow> off | Some x \<Rightarrow> x)"

definition get_wifi_status :: "device_t \<Rightarrow> int" where
  "get_wifi_status dv = get_or dv WIFI_STATE (vc_off dv WIFI_STATE)"

definition get_bt_status :: "device_t \<Rightarrow> int" where
  "get_bt_status dv = get_or dv BT_STATUS (vc_off dv BT_STATUS)"

definition get_gps_status :: "device_t \<Rightarrow> int" where
  "get_gps_status dv =
     (case vc_get dv LOCATION_ENABLED of
        None \<Rightarrow> vc_off dv LOCATION_GPS_STATE
      | Some gps \<Rightarrow> if gps \<noteq> 0 then get_or dv LOCATION_GPS_STATE (vc_off dv LOCATION_GPS_STATE) else gps)"

definition get_rssi_status :: "device_t \<Rightarrow> int" where
  "get_rssi_status dv =
     (if get_or dv TELEPHONY_FLIGHT_MODE 0 = 0 then get_or dv TELEPHONY_RSSI (vc_off dv TELEPHONY_RSSI)
      else vc_off dv TELEPHONY_RSSI)"

definition get_call_status :: "device_t \<Rightarrow> int" where
  "get_call_status dv = get_or dv CALL_STATE (vc_off dv CALL_STATE)"

definition get_dnet_status :: "device_t \<Rightarrow> int" where
  "get_dnet_status dv = get_or dv DNET_STATE (vc_off dv DNET_STATE)"

definition get_camera_status :: "device_t \<Rightarrow> int" where
  "get_camera_status dv = get_or dv CAMERA_STATE (vc_off dv CAMERA_STATE)"

definition get_sound_status :: "device_t \<Rightarrow> int" where
  "get_sound_status dv = get_or dv SETAPPL_SOUND_STATUS 0"

definition get_audio_status :: "device_t \<Rightarrow> int" where
  "get_audio_status dv = (if get_or dv SOUND_STATUS 0 \<noteq> 0 then 1 else 0)"

definition get_vibration_status :: "device_t \<Rightarrow> int" where
  "get_vibration_status dv = get_or dv SETAPPL_VIBRATION_STATUS 0"

section \<open>Features\<close>

definition is_available :: "device_t \<Rightarrow> bytes \<Rightarrow> int" where
  "is_available dv path = (case vc_feature dv path of Some True \<Rightarrow> 1 | _ \<Rightarrow> 0)"

definition telephony :: "string \<Rightarrow> bytes" where
  "telephony s = cstr (''tizen.org/feature/network.telephony.service.'' @ s)"

definition is_bluetooth_available :: "device_t \<Rightarrow> int" where
  "is_bluetooth_available dv = is_available dv (cstr ''tizen.org/feature/network.bluetooth'')"

definition is_gps_available :: "device_t \<Rightarrow> int" where
  "is_gps_available dv = is_available dv (cstr ''tizen.org/feature/location.gps'')"

definition is_wifi_available :: "device_t \<Rightarrow> int" where
  "is_wifi_available dv = is_available dv (cstr ''tizen.org/feature/network.wifi'')"

section \<open>The network type\<close>

definition NWTYPE_SIZE :: nat where "NWTYPE_SIZE = 128"

text \<open>
  The macro \<^verbatim>\<open>print_to_buf\<close> with a string of \<open>n\<close> characters, from the text so far, its length and the
  room that is left: it prints \<^verbatim>\<open>CDMA,\<close>, goes back one character, and does so again until the string would
  not fit, which ends the whole function. \<^verbatim>\<open>snprintf\<close> cuts what it prints to the room.
\<close>

definition cdma :: bytes where "cdma = cstr ''CDMA,''"

function print_to_buf :: "nat \<Rightarrow> bytes \<Rightarrow> nat \<Rightarrow> nat \<Rightarrow> bytes \<times> nat" where
  "print_to_buf n text len buflen =
     (if n \<le> buflen \<and> 4 \<le> buflen
      then print_to_buf n (take len text @ take (buflen - 1) cdma) (len + 4) (buflen - 4)
      else (text, len))"
  by pat_completeness auto
termination by (relation "measure (\<lambda>(n, text, len, buflen). buflen)") auto

declare print_to_buf.simps [simp del]

definition network_types :: "(string \<times> string) list" where
  "network_types =
     [(''cdma'', ''CDMA,''), (''edge'', ''EDGE,''), (''gprs'', ''GPRS,''), (''gsm'', ''GSM,''), (''hsdpa'', ''HSDPA,''),
      (''hspa'', ''HSPA,''), (''hsupa'', ''HSUPA,''), (''umts'', ''UMTS,''), (''lte'', ''LTE,'')]"

fun first_network :: "device_t \<Rightarrow> (string \<times> string) list \<Rightarrow> nat option" where
  "first_network dv [] = None"
| "first_network dv ((feature, str) # ts) =
     (if is_available dv (telephony feature) \<noteq> 0 then Some (length str) else first_network dv ts)"

definition get_device_network_type :: "device_t \<Rightarrow> bytes \<times> nat" where
  "get_device_network_type dv =
     (case first_network dv network_types of
        None \<Rightarrow> ([], 0)
      | Some n \<Rightarrow> print_to_buf n [] 0 NWTYPE_SIZE)"

section \<open>Status files\<close>

definition STATUS_STRING_MAX :: nat where "STATUS_STRING_MAX = 16"

text \<open>
  The bytes read are not terminated: a number that reaches their end is followed by what was on the
  stack (\<open>None\<close>). The result for a file that cannot be read is the negative \<^verbatim>\<open>errno\<close>.
\<close>

definition get_file_status_no_open :: "view_t \<Rightarrow> bool \<Rightarrow> bytes \<Rightarrow> int option" where
  "get_file_status_no_open v is_open filename =
     (if \<not> is_open then Some 0
      else
        (case v_file v filename of
           None \<Rightarrow> Some (- v_errno v)
         | Some f \<Rightarrow>
             (let buf = take STATUS_STRING_MAX f; s = str_of_buf buf in
              if s = buf \<and> (\<forall>c \<in> set (snd (scan_sign (skip_space buf))). is_digit c) then None
              else Some (atoi s))))"

text \<open>The file that was just opened is only read when its descriptor is negative.\<close>

definition get_file_status :: "view_t \<Rightarrow> bool \<Rightarrow> bytes \<Rightarrow> (int \<times> bool) option" where
  "get_file_status v is_open filename =
     (if \<not> is_open \<and> v_file v filename = None then Some (0, False)
      else
        (let is_open = True in
         if \<not> is_open then map_option (\<lambda>s. (s, is_open)) (get_file_status_no_open v is_open filename)
         else Some (0, is_open)))"

definition EMUL_BRIGHTNESSFD :: bytes where "EMUL_BRIGHTNESSFD = cstr ''/sys/class/backlight/emulator/brightness''"
definition EMUL_MAX_BRIGHTNESSFD :: bytes where
  "EMUL_MAX_BRIGHTNESSFD = cstr ''/sys/class/backlight/emulator/max_brightness''"
definition BRIGHTNESS_PARENT_DIR :: bytes where "BRIGHTNESS_PARENT_DIR = cstr ''/sys/class/backlight''"
definition VOLTAGEFD :: bytes where "VOLTAGEFD = cstr ''/sys/class/power_supply/battery/voltage_now''"

text \<open>The loop over a directory; \<open>file\<close> is what each of its entries but the two dots holds.\<close>

fun status_in_dir :: "view_t \<Rightarrow> bytes \<Rightarrow> bytes list \<Rightarrow> int \<times> bool \<Rightarrow> (int \<times> bool) option" where
  "status_in_dir v file [] st = Some st"
| "status_in_dir v file (name # names) (status, is_open) =
     (if name = cstr ''.'' \<or> name = cstr ''..'' then status_in_dir v file names (status, is_open)
      else Option.bind
             (get_file_status v is_open (BRIGHTNESS_PARENT_DIR @ cstr ''/'' @ name @ cstr ''/'' @ file))
             (status_in_dir v file names))"

text \<open>\<open>device_only\<close>: the program is built for an ARM device. \<open>cached\<close>: the number that was found before, or -1.\<close>

definition get_max_brightness :: "bool \<Rightarrow> view_t \<Rightarrow> int \<Rightarrow> int option" where
  "get_max_brightness device_only v cached =
     (if cached \<ge> 0 then Some cached
      else if device_only then
        (case v_dir v BRIGHTNESS_PARENT_DIR of
           None \<Rightarrow> Some cached
         | Some es \<Rightarrow> map_option fst (status_in_dir v (cstr ''max_brightness'') (map fst es) (cached, False)))
      else map_option fst (get_file_status v False EMUL_MAX_BRIGHTNESSFD))"

definition init_brightness_status :: "bool \<Rightarrow> view_t \<Rightarrow> bool option" where
  "init_brightness_status device_only v =
     (if device_only then
        (case v_dir v BRIGHTNESS_PARENT_DIR of
           None \<Rightarrow> Some False
         | Some es \<Rightarrow> map_option snd (status_in_dir v (cstr ''brightness'') (map fst es) (0, False)))
      else map_option snd (get_file_status v False EMUL_BRIGHTNESSFD))"

text \<open>\<open>video\<close>: the open file, or none.\<close>

definition get_video_status :: "bytes option \<Rightarrow> int option" where
  "get_video_status video =
     (case video of
        None \<Rightarrow> Some 0
      | Some f \<Rightarrow>
          (case scan_word f of
             Got w _ \<Rightarrow> if length w < 256 then Some (if take 6 w = cstr ''active'' then 1 else 0) else None
           | _ \<Rightarrow> Some 0))"

section \<open>Cameras\<close>

definition CAMCORDER_FILE :: bytes where "CAMCORDER_FILE = cstr ''/usr/etc/mmfw_camcorder.ini''"
definition CAMERA_COUNT_STR :: bytes where "CAMERA_COUNT_STR = cstr ''DeviceCount''"

definition camera_number :: "bytes \<Rightarrow> int" where
  "camera_number line =
     (case scan_lit (cstr ''='') (skip_space (drop (length CAMERA_COUNT_STR) line)) of
        None \<Rightarrow> 0
      | Some s \<Rightarrow> (case scan_num s of Got n _ \<Rightarrow> as_signed 32 n | _ \<Rightarrow> 0))"

definition get_camera_count :: "view_t \<Rightarrow> int" where
  "get_camera_count v =
     (case v_file v CAMCORDER_FILE of
        None \<Rightarrow> 0
      | Some f \<Rightarrow>
          (case find (\<lambda>l. take (length CAMERA_COUNT_STR) l = CAMERA_COUNT_STR)
                  (map str_of_buf (file_lines BUFFER_MAX f)) of
             None \<Rightarrow> 0
           | Some l \<Rightarrow> camera_number l))"

section \<open>Facts\<close>

lemma first_network_len:
  "first_network dv ts = Some n \<Longrightarrow> n \<in> (length \<circ> snd) ` set ts"
  by (induction ts rule: first_network.induct [of _ dv]) (auto split: if_splits)

lemma print_to_buf_128:
  "print_to_buf 4 [] 0 128 = (concat (replicate 31 (cstr ''CDMA'')) @ cstr ''CDM'', 128)"
  "print_to_buf 5 [] 0 128 = (concat (replicate 31 (cstr ''CDMA'')) @ cstr '','', 124)"
  "print_to_buf 6 [] 0 128 = (concat (replicate 31 (cstr ''CDMA'')) @ cstr '','', 124)"
  by code_simp+

lemma get_file_status_zero: "get_file_status v is_open f = Some (s, b) \<Longrightarrow> s = 0"
  by (auto simp: get_file_status_def Let_def split: if_splits)

lemma status_in_dir_zero:
  "status_in_dir v f names (s, b) = Some (s', b') \<Longrightarrow> s' = 0 \<or> s' = s"
proof (induction names arbitrary: s b)
  case (Cons name names)
  then show ?case
    by (auto simp: bind_eq_Some_conv dest: get_file_status_zero split: if_splits)
qed simp

section \<open>Properties\<close>

text \<open>
  The text of the network types does not name them: as soon as one of the nine is available it is
  31 times the first one's name, whichever it is, in a buffer of 128 bytes; with none it is empty.
\<close>

theorem network_type_text:
  "fst (get_device_network_type dv) \<in>
     (if first_network dv network_types = None then {[]}
      else {concat (replicate 31 (cstr ''CDMA'')) @ cstr '','', concat (replicate 31 (cstr ''CDMA'')) @ cstr ''CDM''})
   \<and> length (fst (get_device_network_type dv)) < 128"
proof (cases "first_network dv network_types")
  case None
  then show ?thesis by (simp add: get_device_network_type_def)
next
  case (Some n)
  from first_network_len [OF this] have n: "n = 4 \<or> n = 5 \<or> n = 6" by (auto simp: network_types_def)
  have l: "length (concat (replicate 31 (cstr ''CDMA''))) = 124"
    by (simp add: length_concat sum_list_replicate)
  show ?thesis
    using n l Some by (auto simp: get_device_network_type_def NWTYPE_SIZE_def print_to_buf_128)
qed

text \<open>
  The greatest brightness reported is never positive: the file that holds it is opened but not read.
\<close>

theorem max_brightness_unread:
  assumes "get_max_brightness device_only v (-1) = Some b"
  shows "b = 0 \<or> b = -1"
  using assms
  by (auto simp: get_max_brightness_def dest: get_file_status_zero status_in_dir_zero split: if_splits option.splits)

theorem max_brightness_unread_witness:
  "get_max_brightness False sample_view (-1) = Some 0"
proof -
  have "get_max_brightness False sample_view (-1) \<noteq> None \<and> get_max_brightness False sample_view (-1) \<noteq> Some (-1)"
    by (simp add: get_max_brightness_def get_file_status_def sample_view_def)
  with max_brightness_unread [of False sample_view] show ?thesis by fastforce
qed

end
