(* ===== verification/Sys_Stat.thy ===== *)
theory Sys_Stat
  imports Sys_Cpu Device
begin

text \<open>
  What a sample reads besides processes and processors (\<^verbatim>\<open>daemon/sys_stat.c\<close>): memory, drives, disks,
  network, energy and the lists of processes. The open files are read from their beginning each time.
\<close>

section \<open>Memory\<close>

definition PROCMEMINFO :: bytes where "PROCMEMINFO = cstr ''/proc/meminfo''"

text \<open>The slots that are filled, and how many lines filled one.\<close>

record mem_t =
  mem_total :: u64
  mem_free :: u64
  mem_buffer :: u64
  mem_cached :: u64
  mem_num :: nat

text \<open>A slot is written through a pointer to \<^verbatim>\<open>unsigned long\<close>: its low half.\<close>

definition low_half :: "u64 \<Rightarrow> int \<Rightarrow> u64" where
  "low_half slot v = (slot AND NOT (mask 32)) OR take_bit 32 (word_of_int v)"

definition mem_slot :: "bytes \<Rightarrow> int \<Rightarrow> mem_t \<Rightarrow> mem_t option" where
  "mem_slot name v m =
     (if name = cstr ''Buffers'' then Some (m\<lparr>mem_buffer := low_half (mem_buffer m) v, mem_num := mem_num m + 1\<rparr>)
      else if name = cstr ''Cached'' then Some (m\<lparr>mem_cached := low_half (mem_cached m) v, mem_num := mem_num m + 1\<rparr>)
      else if name = cstr ''MemFree'' then Some (m\<lparr>mem_free := low_half (mem_free m) v, mem_num := mem_num m + 1\<rparr>)
      else if name = cstr ''MemTotal'' then Some (m\<lparr>mem_total := low_half (mem_total m) v, mem_num := mem_num m + 1\<rparr>)
      else None)"

definition after_newline :: "bytes \<Rightarrow> bytes option" where
  "after_newline s = (case strchr 10 s of None \<Rightarrow> None | Some n \<Rightarrow> Some (drop (Suc n) s))"

lemma after_newline_shorter: "after_newline s = Some t \<Longrightarrow> length t < length s"
  by (auto simp: after_newline_def split: option.splits dest: strchr_Some)

function mem_lines :: "bytes \<Rightarrow> mem_t \<Rightarrow> mem_t" where
  "mem_lines head m =
     (if mem_num m \<ge> 4 then m
      else case strchr 58 head of
             None \<Rightarrow> m
           | Some k \<Rightarrow>
               (let value = drop (Suc k) head;
                    m = (case mem_slot (take k head) (fst (strtoul10 value)) m of None \<Rightarrow> m | Some m \<Rightarrow> m)
                in case after_newline value of None \<Rightarrow> m | Some rest \<Rightarrow> mem_lines rest m))"
  by pat_completeness auto
termination
  by (relation "measure (\<lambda>(head, m). length head)") (auto dest: after_newline_shorter strchr_Some)

declare mem_lines.simps [simp del]

text \<open>\<open>meminfo\<close>: the open file, or none. The result is the return value and the memory in bytes.\<close>

definition update_system_memory_data :: "bytes option \<Rightarrow> mem_t \<Rightarrow> int \<times> u64 \<times> u64 \<times> mem_t" where
  "update_system_memory_data meminfo m =
     (case meminfo of
        None \<Rightarrow> (-1, 0, 0, m)
      | Some f \<Rightarrow>
          (let m = mem_lines (str_of_buf (take (BUFFER_MAX - 1) f)) (m\<lparr>mem_num := 0\<rparr>) in
           if mem_num m = 4
           then (0, mem_total m * 1024, (mem_total m - mem_free m - mem_buffer m - mem_cached m) * 1024, m)
           else (-1, 0, 0, m)))"

function total_line :: "bytes \<Rightarrow> u32" where
  "total_line head =
     (case strchr 58 head of
        None \<Rightarrow> 0
      | Some k \<Rightarrow>
          if take k head = cstr ''MemTotal'' then word_of_int (fst (strtoul10 (drop (Suc k) head)))
          else (case after_newline (drop (Suc k) head) of None \<Rightarrow> 0 | Some rest \<Rightarrow> total_line rest))"
  by pat_completeness auto
termination
  by (relation "measure length") (auto dest: after_newline_shorter strchr_Some)

declare total_line.simps [simp del]

definition get_system_total_memory :: "bytes option \<Rightarrow> u32" where
  "get_system_total_memory meminfo =
     (case meminfo of None \<Rightarrow> 0 | Some f \<Rightarrow> total_line (str_of_buf (take (BUFFER_MAX - 1) f)) * 1024)"

section \<open>Drives\<close>

definition UMSFD :: bytes where "UMSFD = cstr ''/mnt/ums''"
definition MMCBLKFD :: bytes where "MMCBLKFD = cstr ''/dev/mmcblk1''"
definition MMCFD :: bytes where "MMCFD = cstr ''/mnt/mmc''"
definition FSINFO_TYPE_TOTAL :: nat where "FSINFO_TYPE_TOTAL = 1"
definition FSINFO_TYPE_FREE :: nat where "FSINFO_TYPE_FREE = 2"

text \<open>Sizes in megabytes, of type \<^verbatim>\<open>int\<close>.\<close>

definition to_int :: "int \<Rightarrow> int" where "to_int i = sint (word_of_int i :: u32)"

definition get_fsinfo :: "view_t \<Rightarrow> bytes \<Rightarrow> nat \<Rightarrow> int" where
  "get_fsinfo v path ty =
     (case v_statfs v path of
        None \<Rightarrow> - v_errno v
      | Some (f_bsize, f_blocks, f_bavail) \<Rightarrow>
          (let total = to_int ((f_bsize div 1024 * f_blocks) div 1024);
               free = to_int ((f_bsize div 1024 * f_bavail) div 1024)
           in if ty = FSINFO_TYPE_TOTAL then total else if ty = FSINFO_TYPE_FREE then free else -1))"

definition stat_get_storageinfo :: "view_t \<Rightarrow> nat \<Rightarrow> int" where
  "stat_get_storageinfo v ty = get_fsinfo v UMSFD ty"

definition stat_get_cardinfo :: "view_t \<Rightarrow> nat \<Rightarrow> int" where
  "stat_get_cardinfo v ty = (if v_file v MMCBLKFD = None then -1 else get_fsinfo v MMCFD ty)"

definition get_total_drive :: "view_t \<Rightarrow> int" where
  "get_total_drive v =
     (let storage = stat_get_storageinfo v FSINFO_TYPE_TOTAL; card = stat_get_cardinfo v FSINFO_TYPE_TOTAL in
      if storage < 0 \<and> card < 0 then -1 else to_int (storage + card))"

definition get_total_used_drive :: "view_t \<Rightarrow> int" where
  "get_total_used_drive v =
     (let storage = stat_get_storageinfo v FSINFO_TYPE_FREE; card = stat_get_cardinfo v FSINFO_TYPE_FREE in
      if storage < 0 \<and> card < 0 then -1 else to_int (get_total_drive v - (storage + card)))"

section \<open>Counters that grow\<close>

definition val_diff :: "'a::len word \<Rightarrow> 'a word \<Rightarrow> 'a word" where
  "val_diff v_new v_old = (if v_new < v_old then v_new else v_new - v_old)"

section \<open>Network\<close>

fun skip_tokens :: "nat \<Rightarrow> bytes \<Rightarrow> bytes" where
  "skip_tokens 0 s = s"
| "skip_tokens (Suc n) s = (case scan_word s of Got _ rest \<Rightarrow> skip_tokens n rest | _ \<Rightarrow> [])"

fun skip_lines :: "nat \<Rightarrow> bytes \<Rightarrow> bytes" where
  "skip_lines 0 s = s"
| "skip_lines (Suc n) s = skip_lines n (drop 1 (dropWhile (\<lambda>c. c \<noteq> 10) s))"

lemma scan_word_shorter: "scan_word s = Got w rest \<Longrightarrow> length rest < length s"
proof -
  assume a: "scan_word s = Got w rest"
  let ?s = "skip_space s"
  have s: "?s \<noteq> []" "rest = dropWhile (\<lambda>c. \<not> is_space c) ?s"
    using a by (auto simp: scan_word_def Let_def split: if_splits)
  have "\<not> is_space (hd ?s)" using s(1) by (simp add: skip_space_def hd_dropWhile)
  then have "length rest < length ?s"
    using s by (cases ?s) (auto simp: le_imp_less_Suc length_dropWhile_le)
  also have "length ?s \<le> length s" by (simp add: skip_space_def length_dropWhile_le)
  finally show ?thesis .
qed

lemma scan_digits_length: "length (snd (scan_digits a s)) \<le> length s"
  by (induction s arbitrary: a) (auto intro: le_SucI)

lemma scan_num_shorter: "scan_num s = Got n rest \<Longrightarrow> length rest \<le> length s"
proof -
  assume a: "scan_num s = Got n rest"
  let ?s = "skip_space s"
  have "rest = snd (scan_digits 0 (snd (scan_sign ?s)))"
    using a by (auto simp: scan_num_def Let_def split: if_splits prod.splits)
  moreover have "length (snd (scan_sign t)) \<le> length t" for t by (simp add: scan_sign_def split: list.split)
  moreover have "length ?s \<le> length s" by (simp add: skip_space_def length_dropWhile_le)
  ultimately show ?thesis using scan_digits_length order_trans by metis
qed

lemma skip_tokens_shorter: "length (skip_tokens n s) \<le> length s"
proof (induction n s rule: skip_tokens.induct)
  case (2 n s)
  then show ?case using scan_word_shorter [of s] by (fastforce split: scan.split)
qed simp

text \<open>
  The sums over the interfaces but the loopback, until a number is missing. \<open>None\<close>: a name too long
  for its buffer.
\<close>

function net_loop :: "bytes \<Rightarrow> u32 \<Rightarrow> u32 \<Rightarrow> (u32 \<times> u32) option" where
  "net_loop s recv send =
     (case scan_word s of
        Got ifname rest \<Rightarrow>
          (if length ifname \<ge> 64 then None
           else if str_of_buf ifname = cstr ''lo:'' then net_loop (skip_tokens 16 rest) recv send
           else case scan_num rest of
                  Got irecv rest1 \<Rightarrow>
                    (case scan_num (skip_tokens 7 rest1) of
                       Got isend rest2 \<Rightarrow>
                         net_loop (skip_tokens 7 rest2)
                           (recv + word_of_int (as_unsigned 64 irecv)) (send + word_of_int (as_unsigned 64 isend))
                     | _ \<Rightarrow> Some (recv, send))
                | _ \<Rightarrow> Some (recv, send))
      | _ \<Rightarrow> Some (recv, send))"
  by pat_completeness auto
termination
proof (relation "measure (\<lambda>(s, recv, send). length s)", goal_cases)
  case 1 show ?case by simp
next
  case (2 s recv send x11 x12)
  then show ?case using skip_tokens_shorter [of 16 x12] scan_word_shorter [of s] by fastforce
next
  case (3 s recv send x11 x12 x13 x14 x15 x16)
  then show ?case
    using skip_tokens_shorter [of 7 x14] skip_tokens_shorter [of 7 x16] scan_word_shorter [of s x11 x12]
      scan_num_shorter [of x12 x13 x14] scan_num_shorter [of "skip_tokens 7 x14" x15 x16] by simp
qed

declare net_loop.simps [simp del]

text \<open>\<open>network\<close>: the open file; without it the results keep what they held.\<close>

definition get_network_stat :: "bytes option \<Rightarrow> u32 \<times> u32 \<Rightarrow> (u32 \<times> u32) option" where
  "get_network_stat network old =
     (case network of None \<Rightarrow> Some old | Some f \<Rightarrow> net_loop (skip_lines 2 f) 0 0)"

text \<open>The differences, with the new values to compare with.\<close>

definition peek_network_stat_diff ::
  "bytes option \<Rightarrow> u32 \<times> u32 \<Rightarrow> u32 \<times> u32 \<Rightarrow> ((u32 \<times> u32) \<times> (u32 \<times> u32)) option" where
  "peek_network_stat_diff network init old =
     map_option (\<lambda>(recv, send). ((val_diff recv (fst old), val_diff send (snd old)), (recv, send)))
       (get_network_stat network init)"

section \<open>Disks\<close>

text \<open>
  A number that does not match leaves its variable without a value: \<open>Some None\<close>. \<open>None\<close>: the end of
  the file.
\<close>

definition scan_opt :: "bytes \<Rightarrow> (int option \<times> bytes) option" where
  "scan_opt s =
     (case scan_num s of
        Got n rest \<Rightarrow> Some (Some (as_unsigned 64 n), rest) | Mismatch rest \<Rightarrow> Some (None, rest) | Eof \<Rightarrow> None)"

definition get_partition_sector_size :: "view_t \<Rightarrow> bytes \<Rightarrow> u32" where
  "get_partition_sector_size v partition_name =
     (case v_file v (take (MAX_FILENAME - 1)
             (cstr ''/sys/block/'' @ str_of_buf partition_name @ cstr ''/queue/hw_sector_size'')) of
        None \<Rightarrow> 0
      | Some f \<Rightarrow> (case scan_num f of Got n _ \<Rightarrow> word_of_int (as_signed 32 n) | _ \<Rightarrow> 0))"

record disk_t =
  dk_reads :: u32
  dk_bytes_reads :: u32
  dk_writes :: u32
  dk_bytes_writes :: u32

definition zero_disk :: disk_t where
  "zero_disk = \<lparr>dk_reads = 0, dk_bytes_reads = 0, dk_writes = 0, dk_bytes_writes = 0\<rparr>"

text \<open>The numbers of a line after its name: first, third, fifth and seventh, up to the end of the line's words.\<close>

definition disk_numbers :: "bytes \<Rightarrow> ((int option \<times> int option \<times> int option \<times> int option) \<times> bytes) option" where
  "disk_numbers s =
     Option.bind (scan_opt s) (\<lambda>(preads, s).
     Option.bind (scan_opt (skip_tokens 1 s)) (\<lambda>(psec_read, s).
     Option.bind (scan_opt (skip_tokens 1 s)) (\<lambda>(pwrites, s).
     Option.bind (scan_opt (skip_tokens 1 s)) (\<lambda>(psec_write, s).
     Some ((preads, psec_read, pwrites, psec_write), skip_tokens 4 s)))))"

definition is_subpartition :: "bytes \<Rightarrow> bytes \<Rightarrow> bool" where
  "is_subpartition master part \<longleftrightarrow> master \<noteq> [] \<and> take (length master) part = master"

definition add_disk :: "u32 \<Rightarrow> int \<Rightarrow> int \<Rightarrow> int \<Rightarrow> int \<Rightarrow> disk_t \<Rightarrow> disk_t" where
  "add_disk sector_size preads psec_read pwrites psec_write d =
     d\<lparr>dk_reads := dk_reads d + word_of_int preads, dk_writes := dk_writes d + word_of_int pwrites,
       dk_bytes_reads := dk_bytes_reads d + word_of_int psec_read * sector_size,
       dk_bytes_writes := dk_bytes_writes d + word_of_int psec_write * sector_size\<rparr>"

text \<open>
  The sums over the disks. A name that begins with that of the last disk counted is one of its
  partitions. \<open>fuel\<close>: one for each byte is enough, each line takes some.
\<close>

fun disk_loop :: "nat \<Rightarrow> view_t \<Rightarrow> bytes \<Rightarrow> bytes \<Rightarrow> disk_t \<Rightarrow> disk_t option" where
  "disk_loop 0 v master s d = Some d"
| "disk_loop (Suc fuel) v master s d =
     (case scan_word (skip_tokens 2 s) of
        Got part rest \<Rightarrow>
          (if length part \<ge> 128 then None
           else if is_subpartition (str_of_buf master) (str_of_buf part)
           then disk_loop fuel v master (skip_tokens 11 rest) d
           else case disk_numbers rest of
                  None \<Rightarrow> Some d
                | Some ((Some r, Some rs, Some w, Some ws), rest) \<Rightarrow>
                    disk_loop fuel v part rest (add_disk (get_partition_sector_size v part) r rs w ws d)
                | Some _ \<Rightarrow> None)
      | _ \<Rightarrow> Some d)"

definition get_disk_stat :: "view_t \<Rightarrow> bytes option \<Rightarrow> disk_t option" where
  "get_disk_stat v disks =
     (case disks of None \<Rightarrow> Some zero_disk | Some f \<Rightarrow> disk_loop (length f) v [] f zero_disk)"

definition disk_diff :: "disk_t \<Rightarrow> disk_t \<Rightarrow> disk_t" where
  "disk_diff d old =
     \<lparr>dk_reads = val_diff (dk_reads d) (dk_reads old), dk_bytes_reads = val_diff (dk_bytes_reads d) (dk_bytes_reads old),
      dk_writes = val_diff (dk_writes d) (dk_writes old),
      dk_bytes_writes = val_diff (dk_bytes_writes d) (dk_bytes_writes old)\<rparr>"

definition peek_disk_stat_diff :: "view_t \<Rightarrow> bytes option \<Rightarrow> disk_t \<Rightarrow> (disk_t \<times> disk_t) option" where
  "peek_disk_stat_diff v disks old = map_option (\<lambda>d. (disk_diff d old, d)) (get_disk_stat v disks)"

section \<open>Energy\<close>

datatype supported_device = DEVICE_FLASH | DEVICE_CPU | DEVICE_LCD

definition supported_devices :: "supported_device list" where
  "supported_devices = [DEVICE_FLASH, DEVICE_CPU, DEVICE_LCD]"

definition read_int64_from_file :: "view_t \<Rightarrow> bytes \<Rightarrow> u64" where
  "read_int64_from_file v fname =
     (case v_file v fname of
        None \<Rightarrow> 0
      | Some f \<Rightarrow> (case scan_num f of Got n _ \<Rightarrow> word_of_int (as_signed 64 n) | _ \<Rightarrow> 0))"

definition swap_read_int64 :: "view_t \<Rightarrow> string \<Rightarrow> u64" where
  "swap_read_int64 v x = read_int64_from_file v (cstr (''/sys/kernel/debug/swap/energy/'' @ x))"

definition get_system_lcd_energy :: "view_t \<Rightarrow> u64" where
  "get_system_lcd_energy v =
     (case v_glob v (cstr ''/sys/kernel/debug/swap/energy/lcd/*/system'') of
        None \<Rightarrow> 0
      | Some paths \<Rightarrow> (\<Sum>p\<leftarrow>paths. read_int64_from_file v p))"

text \<open>The last values, of the system and of the applications, by device.\<close>

type_synonym energy_t = "supported_device \<Rightarrow> u64"

definition pop_sys_energy_per_device :: "view_t \<Rightarrow> supported_device \<Rightarrow> energy_t \<Rightarrow> u32 \<times> energy_t" where
  "pop_sys_energy_per_device v dev old =
     (let new = (case dev of
           DEVICE_CPU \<Rightarrow> swap_read_int64 v ''cpu_idle/system'' + swap_read_int64 v ''cpu_running/system''
         | DEVICE_FLASH \<Rightarrow> swap_read_int64 v ''flash_read/system'' + swap_read_int64 v ''flash_write/system''
         | DEVICE_LCD \<Rightarrow> get_system_lcd_energy v)
      in (ucast (val_diff new (old dev)), old(dev := new)))"

definition pop_app_energy_per_device :: "view_t \<Rightarrow> supported_device \<Rightarrow> energy_t \<Rightarrow> u32 \<times> energy_t" where
  "pop_app_energy_per_device v dev old =
     (case dev of
        DEVICE_CPU \<Rightarrow> (let new = swap_read_int64 v ''cpu_running/apps'' in
                        (ucast (val_diff new (old dev)), old(dev := new)))
      | DEVICE_FLASH \<Rightarrow>
          (let new = swap_read_int64 v ''flash_read/apps'' + swap_read_int64 v ''flash_write/apps'' in
           (ucast (val_diff new (old dev)), old(dev := new)))
      | DEVICE_LCD \<Rightarrow> (0, old))"

section \<open>Lists of processes\<close>

definition max_pid_num :: nat where "max_pid_num = 1024"

text \<open>Both arrays have room for 1024 numbers, which nothing checks: \<open>None\<close> when it is exceeded.\<close>

fun scan_pids :: "nat \<Rightarrow> bytes \<Rightarrow> u32 list" where
  "scan_pids 0 s = []"
| "scan_pids (Suc k) s = (case scan_num s of Got n rest \<Rightarrow> num32 n # scan_pids k rest | _ \<Rightarrow> [])"

definition get_inst_pid_array :: "bytes option \<Rightarrow> u32 list option" where
  "get_inst_pid_array tasks =
     (case tasks of
        None \<Rightarrow> Some []
      | Some f \<Rightarrow> (let pids = scan_pids (length f) f in if length pids \<le> max_pid_num then Some pids else None))"

definition get_other_pid_array :: "view_t \<Rightarrow> u32 list \<Rightarrow> u32 list option" where
  "get_other_pid_array v inst_pid =
     (case v_dir v (cstr ''/proc'') of
        None \<Rightarrow> Some []
      | Some es \<Rightarrow>
          (let pids = List.map_filter (\<lambda>(name, is_dir).
                 let (pid, tmp) = strtol10 name in
                 if is_dir \<and> tmp = [] \<and> word_of_int pid \<notin> set inst_pid then Some (word_of_int pid) else None) es
           in if length pids \<le> max_pid_num then Some pids else None))"

end
