(* ===== verification/Sys_Sample.thy ===== *)
theory Sys_Sample
  imports Sys_Stat
begin

text \<open>
  A sample of the system (\<^verbatim>\<open>get_system_info\<close> of \<^verbatim>\<open>daemon/sys_stat.c\<close>): the state of the sampler, its
  files, the steps of a sample in their order, and the target information.
\<close>

section \<open>The sampler's state\<close>

text \<open>
  The static variables of \<^verbatim>\<open>sys_stat.c\<close> and the descriptors of \<^verbatim>\<open>manager.fd\<close>: a descriptor is open or
  not; that of the brightness has the path it was opened with.
\<close>

record sys_t =
  y_event_num :: int
  y_Hertz :: int
  y_num_of_cpu :: nat
  y_num_of_freq :: nat
  y_cpus :: "CPU_t list"
  y_inst_prochead :: "procNode list"
  y_other_prochead :: "procNode list"
  y_probe_so_size :: u32
  y_mem_slot_array :: mem_t
  y_old_time :: "int \<times> int"
  y_disk_old :: disk_t
  y_net_old :: "u32 \<times> u32"
  y_sys_energy_old :: energy_t
  y_app_energy_old :: energy_t
  y_max_brightness :: int
  y_brightness :: "bytes option"
  y_voltage :: bool
  y_procmeminfo :: bool
  y_video :: bool
  y_procstat :: bool
  y_networkstat :: bool
  y_diskstats :: bool

text \<open>
  The files change while a sample is taken: each step has a view of its own. Memory for new nodes is
  there or not for all of them (\<open>e_mem\<close>), and for the two arrays of the sample.
\<close>

datatype sample_step =
  S_pids | S_inst_stat | S_other_stat | S_time | S_cpu | S_freq | S_smaps | S_thread nat | S_memory
  | S_cur_freq | S_drive | S_disk | S_net | S_device | S_energy

record env_t =
  e_view :: "sample_step \<Rightarrow> view_t"
  e_device :: device_t
  e_features :: u64
  e_mem :: bool
  e_mem_load :: bool
  e_mem_freq :: bool
  e_fresh :: procNode
  e_fresh_thread :: pnode

text \<open>What a stream and a descriptor read from their beginning; a stream that cannot be read is at its end.\<close>

definition stream :: "bool \<Rightarrow> view_t \<Rightarrow> bytes \<Rightarrow> bytes option" where
  "stream is_open v path = (if is_open then Some (case v_file v path of None \<Rightarrow> [] | Some f \<Rightarrow> f) else None)"

definition read_fd :: "bool \<Rightarrow> view_t \<Rightarrow> bytes \<Rightarrow> bytes option" where
  "read_fd is_open v path = (if is_open then v_file v path else None)"

definition PROCSTAT :: bytes where "PROCSTAT = cstr ''/proc/stat''"
definition PROC_NET_DEV :: bytes where "PROC_NET_DEV = cstr ''/proc/net/dev''"
definition PROC_DISKSTATS :: bytes where "PROC_DISKSTATS = cstr ''/proc/diskstats''"
definition MFCFD :: bytes where "MFCFD = cstr ''/sys/devices/platform/samsung-pd.0/power/runtime_status''"

section \<open>Opening and closing\<close>

definition brightness_path :: "bool \<Rightarrow> view_t \<Rightarrow> bytes option" where
  "brightness_path device_only v =
     find (\<lambda>p. v_file v p \<noteq> None)
       (if device_only then
          (case v_dir v BRIGHTNESS_PARENT_DIR of
             None \<Rightarrow> []
           | Some es \<Rightarrow> map (\<lambda>name. BRIGHTNESS_PARENT_DIR @ cstr ''/'' @ name @ cstr ''/'' @ cstr ''brightness'')
               (filter (\<lambda>name. name \<noteq> cstr ''.'' \<and> name \<noteq> cstr ''..'') (map fst es)))
        else [EMUL_BRIGHTNESSFD])"

lemma status_in_dir_opens:
  "map_option snd (status_in_dir v file names (s, b)) =
     Some (b \<or> (\<exists>name \<in> set names. name \<noteq> cstr ''.'' \<and> name \<noteq> cstr ''..''
       \<and> v_file v (BRIGHTNESS_PARENT_DIR @ cstr ''/'' @ name @ cstr ''/'' @ file) \<noteq> None))"
proof (induction names arbitrary: s b)
  case (Cons name names)
  show ?case
    using Cons.IH [of s b] Cons.IH [of 0 True] Cons.IH [of 0 False] by (auto simp: get_file_status_def)
qed simp

text \<open>The path that is kept is that of the descriptor \<open>init_brightness_status\<close> opens.\<close>

lemma brightness_path_opened:
  "init_brightness_status device_only v = Some (brightness_path device_only v \<noteq> None)"
  by (auto simp: init_brightness_status_def brightness_path_def status_in_dir_opens find_None_iff get_file_status_def
      split: option.split)

definition init_system_file_descriptors :: "bool \<Rightarrow> view_t \<Rightarrow> sys_t \<Rightarrow> sys_t" where
  "init_system_file_descriptors device_only v st =
     st\<lparr>y_brightness := (case y_brightness st of None \<Rightarrow> brightness_path device_only v | p \<Rightarrow> p),
        y_voltage := y_voltage st \<or> v_file v VOLTAGEFD \<noteq> None,
        y_procmeminfo := v_file v PROCMEMINFO \<noteq> None,
        y_video := v_file v MFCFD \<noteq> None,
        y_procstat := v_file v PROCSTAT \<noteq> None,
        y_networkstat := v_file v PROC_NET_DEV \<noteq> None,
        y_diskstats := v_file v PROC_DISKSTATS \<noteq> None\<rparr>"

definition close_system_file_descriptors :: "sys_t \<Rightarrow> sys_t" where
  "close_system_file_descriptors st =
     st\<lparr>y_brightness := None, y_voltage := False, y_procmeminfo := False, y_video := False,
        y_procstat := False, y_networkstat := False, y_diskstats := False\<rparr>"

section \<open>A sample\<close>

record system_info_t =
  si_cpu_frequency :: "f32 list option"
  si_cpu_load :: "f32 list option"
  si_count_of_threads :: u32
  si_system_memory_used :: u64
  si_count_of_inst_processes :: u32
  si_count_of_other_processes :: u32
  si_total_used_drive :: u32
  si_disk :: disk_t
  si_network_send_size :: u32
  si_network_receive_size :: u32
  si_wifi_status :: u32
  si_bt_status :: u32
  si_gps_status :: u32
  si_brightness_status :: u32
  si_camera_status :: u32
  si_sound_status :: u32
  si_audio_status :: u32
  si_vibration_status :: u32
  si_voltage_status :: u32
  si_rssi_status :: u32
  si_video_status :: u32
  si_call_status :: u32
  si_dnet_status :: u32
  si_energy :: u32
  si_energy_per_device :: "u32 list"
  si_app_energy_per_device :: "u32 list"

definition reset_system_info :: system_info_t where
  "reset_system_info =
     \<lparr>si_cpu_frequency = None, si_cpu_load = None, si_count_of_threads = 0, si_system_memory_used = 0,
      si_count_of_inst_processes = 0, si_count_of_other_processes = 0, si_total_used_drive = 0, si_disk = zero_disk,
      si_network_send_size = 0, si_network_receive_size = 0, si_wifi_status = 0, si_bt_status = 0,
      si_gps_status = 0, si_brightness_status = 0, si_camera_status = 0, si_sound_status = 0,
      si_audio_status = 0, si_vibration_status = 0, si_voltage_status = 0, si_rssi_status = 0,
      si_video_status = 0, si_call_status = 0, si_dnet_status = 0, si_energy = 0,
      si_energy_per_device = [0, 0, 0], si_app_energy_per_device = [0, 0, 0]\<rparr>"

text \<open>Time since the last sample in seconds, and the factor from ticks to percent.\<close>

definition get_elapsed :: "int \<times> int \<Rightarrow> int \<times> int \<Rightarrow> f32" where
  "get_elapsed now old =
     f_add (f_of_int (fst now - fst old)) (f_div (f_of_int (snd now - snd old)) (f_of_int 1000000))"

definition get_factor :: "int \<Rightarrow> nat \<Rightarrow> f32 \<Rightarrow> f32" where
  "get_factor Hertz num_of_cpu elapsed =
     f_div (f_of_int 100) (f_mul (f_mul (f_of_int Hertz) elapsed) (f_of_int (int num_of_cpu)))"

text \<open>
  The array of loads is written without a check (\<open>None\<close>); when that of the frequencies is missing the
  function returns 1, which its caller does not take for a failure.
\<close>

definition fill_system_cpu_info :: "env_t \<Rightarrow> sys_t \<Rightarrow> system_info_t \<Rightarrow> (int \<times> system_info_t) option" where
  "fill_system_cpu_info env st si =
     (if y_num_of_cpu st \<noteq> 0 \<and> \<not> e_mem_load env then None
      else
        (let si = (if y_num_of_cpu st \<noteq> 0
                   then si\<lparr>si_cpu_load := Some (map c_usage (take (y_num_of_cpu st) (y_cpus st)))\<rparr> else si) in
         if \<not> e_mem_freq env then Some (1, si)
         else map_option (\<lambda>fs. (0, si\<lparr>si_cpu_frequency := Some fs\<rparr>))
                (get_cpu_frequency (e_view env S_cur_freq) (y_num_of_cpu st))))"

text \<open>
  Outcome of a step: \<open>None\<close> when it runs into undefined behaviour; a negative result takes the jump
  to \<^verbatim>\<open>fail_exit\<close>, with what was done so far in the state.
\<close>

type_synonym 'a sres = "('a option \<times> sys_t) option"

definition unless_negative :: "(int \<times> sys_t) option \<Rightarrow> (sys_t \<Rightarrow> 'a sres) \<Rightarrow> 'a sres" where
  "unless_negative r k = Option.bind r (\<lambda>(ret, st). if ret < 0 then Some (None, st) else k st)"

definition sample_inst_procs :: "env_t \<Rightarrow> sample_step \<Rightarrow> u32 list \<Rightarrow> PROCESS_DATA \<Rightarrow> sys_t \<Rightarrow> (int \<times> sys_t) option" where
  "sample_inst_procs env s pids datatype st =
     map_option (\<lambda>(r, sz, ts). (r, st\<lparr>y_probe_so_size := sz, y_inst_prochead := ts\<rparr>))
       (update_process_data (e_view env s) (e_mem env) (e_fresh env) (y_inst_prochead st) pids datatype True
          (y_probe_so_size st))"

definition sample_other :: "env_t \<Rightarrow> u32 list \<Rightarrow> sys_t \<Rightarrow> (int \<times> sys_t) option" where
  "sample_other env pids st =
     map_option (\<lambda>(r, sz, ts). (r, st\<lparr>y_probe_so_size := sz, y_other_prochead := ts\<rparr>))
       (update_process_data (e_view env S_other_stat) (e_mem env) (e_fresh env) (y_other_prochead st) pids
          PROCDATA_STAT False (y_probe_so_size st))"

definition sample_cpu :: "env_t \<Rightarrow> sys_t \<Rightarrow> int \<times> sys_t" where
  "sample_cpu env st =
     (let (r, cs) = update_system_cpu_data (stream (y_procstat st) (e_view env S_cpu) PROCSTAT) (y_num_of_cpu st)
            (y_event_num st) (y_cpus st)
      in (r, st\<lparr>y_cpus := cs\<rparr>))"

definition sample_freq :: "env_t \<Rightarrow> sys_t \<Rightarrow> (int \<times> sys_t) option" where
  "sample_freq env st =
     map_option (\<lambda>(n, cs). (0, st\<lparr>y_num_of_freq := n, y_cpus := cs\<rparr>))
       (update_system_cpu_frequency (e_view env S_freq) (e_mem env) (y_num_of_cpu st) (y_num_of_freq st)
          (y_event_num st) (y_cpus st))"

text \<open>The threads of each process in turn, until one fails.\<close>

fun sample_threads :: "env_t \<Rightarrow> nat \<Rightarrow> u32 list \<Rightarrow> procNode list \<Rightarrow> (int \<times> procNode list) option" where
  "sample_threads env i [] ts = Some (0, ts)"
| "sample_threads env i (pid # pids) ts =
     Option.bind (update_thread_data (e_view env (S_thread i)) (e_mem env) (e_fresh_thread env) ts pid)
       (\<lambda>(r, ts). if r < 0 then Some (r, ts) else sample_threads env (Suc i) pids ts)"

definition sample_loads :: "env_t \<Rightarrow> int \<times> int \<Rightarrow> f32 \<Rightarrow> sys_t \<Rightarrow> u64 \<Rightarrow> (system_info_t \<times> u64) sres" where
  "sample_loads env now elapsed st sysmemused =
     Option.bind (update_cpus_info (y_Hertz st) (y_num_of_cpu st) (y_event_num st) elapsed (y_cpus st)) (\<lambda>cs.
       let st = st\<lparr>y_cpus := cs\<rparr>;
           factor = get_factor (y_Hertz st) (y_num_of_cpu st) elapsed;
           (inst, inst_count) = fill_system_processes_info factor (y_inst_prochead st);
           (other, other_count) = fill_system_processes_info factor (y_other_prochead st);
           (inst, threads) = fill_system_threads_info factor inst;
           st = st\<lparr>y_inst_prochead := inst, y_other_prochead := other\<rparr>;
           si = reset_system_info\<lparr>si_count_of_inst_processes := inst_count,
             si_count_of_other_processes := other_count, si_count_of_threads := threads\<rparr>
       in Option.bind (fill_system_cpu_info env st si) (\<lambda>(r, si).
            if r < 0 then Some (None, st) else Some (Some (si, sysmemused), st)))"

definition sample_memory :: "env_t \<Rightarrow> int \<times> int \<Rightarrow> f32 \<Rightarrow> sys_t \<Rightarrow> (system_info_t \<times> u64) sres" where
  "sample_memory env now elapsed st =
     (let (r, memtotal, memused, slots) =
            update_system_memory_data (read_fd (y_procmeminfo st) (e_view env S_memory) PROCMEMINFO) (y_mem_slot_array st);
          st = st\<lparr>y_mem_slot_array := slots\<rparr>
      in if r < 0 then Some (None, st) else sample_loads env now elapsed st memused)"

text \<open>
  The part for processors, processes and memory: the memory goes to a local variable, filled
  whatever is asked for. The loads use the time right after the times of the processes are read.
\<close>

definition sample_common :: "env_t \<Rightarrow> sys_t \<Rightarrow> (system_info_t \<times> u64) sres" where
  "sample_common env st =
     Option.bind (get_inst_pid_array (v_tasks (e_view env S_pids))) (\<lambda>inst_pids.
     Option.bind (get_other_pid_array (e_view env S_pids) inst_pids) (\<lambda>other_pids.
     unless_negative (sample_inst_procs env S_inst_stat inst_pids PROCDATA_STAT st) (\<lambda>st.
     unless_negative (sample_other env other_pids st) (\<lambda>st.
     let now = v_time (e_view env S_time); elapsed = get_elapsed now (y_old_time st); st = st\<lparr>y_old_time := now\<rparr> in
     unless_negative (Some (sample_cpu env st)) (\<lambda>st.
     unless_negative (sample_freq env st) (\<lambda>st.
     unless_negative (sample_inst_procs env S_smaps inst_pids PROCDATA_SMAPS st) (\<lambda>st.
     unless_negative
       (map_option (\<lambda>(r, ts). (r, st\<lparr>y_inst_prochead := ts\<rparr>)) (sample_threads env 0 inst_pids (y_inst_prochead st)))
       (sample_memory env now elapsed))))))))"

section \<open>The other features\<close>

definition sample_disk :: "env_t \<Rightarrow> system_info_t \<times> sys_t \<Rightarrow> (system_info_t \<times> sys_t) option" where
  "sample_disk env r =
     (case r of (si, st) \<Rightarrow>
        map_option (\<lambda>(diff, new).
            (si\<lparr>si_total_used_drive := word_of_int (get_total_used_drive (e_view env S_drive)), si_disk := diff\<rparr>,
             st\<lparr>y_disk_old := new\<rparr>))
          (peek_disk_stat_diff (e_view env S_disk) (stream (y_diskstats st) (e_view env S_disk) PROC_DISKSTATS)
             (y_disk_old st)))"

text \<open>The function's first result is what was received, its second what was sent.\<close>

definition sample_network :: "env_t \<Rightarrow> system_info_t \<times> sys_t \<Rightarrow> (system_info_t \<times> sys_t) option" where
  "sample_network env r =
     (case r of (si, st) \<Rightarrow>
        map_option (\<lambda>((recv, send), new).
            (si\<lparr>si_network_send_size := recv, si_network_receive_size := send\<rparr>, st\<lparr>y_net_old := new\<rparr>))
          (peek_network_stat_diff (stream (y_networkstat st) (e_view env S_net) PROC_NET_DEV)
             (si_network_send_size si, si_network_receive_size si) (y_net_old st)))"

definition get_brightness_status :: "view_t \<Rightarrow> sys_t \<Rightarrow> int option" where
  "get_brightness_status v st =
     (case y_brightness st of None \<Rightarrow> get_file_status_no_open v False EMUL_BRIGHTNESSFD
      | Some p \<Rightarrow> get_file_status_no_open v True p)"

definition get_voltage_status :: "view_t \<Rightarrow> sys_t \<Rightarrow> int option" where
  "get_voltage_status v st = get_file_status_no_open v (y_voltage st) VOLTAGEFD"

definition sample_device :: "env_t \<Rightarrow> system_info_t \<times> sys_t \<Rightarrow> (system_info_t \<times> sys_t) option" where
  "sample_device env r =
     (case r of (si, st) \<Rightarrow>
        (let v = e_view env S_device; dv = e_device env in
         Option.bind (get_brightness_status v st) (\<lambda>brightness.
         Option.bind (get_voltage_status v st) (\<lambda>voltage.
         Option.bind (get_video_status (stream (y_video st) v MFCFD)) (\<lambda>video.
         Some (si\<lparr>si_wifi_status := word_of_int (get_wifi_status dv), si_bt_status := word_of_int (get_bt_status dv),
             si_gps_status := word_of_int (get_gps_status dv), si_brightness_status := word_of_int brightness,
             si_camera_status := word_of_int (get_camera_status dv), si_sound_status := word_of_int (get_sound_status dv),
             si_audio_status := word_of_int (get_audio_status dv),
             si_vibration_status := word_of_int (get_vibration_status dv), si_voltage_status := word_of_int voltage,
             si_rssi_status := word_of_int (get_rssi_status dv), si_video_status := word_of_int video,
             si_call_status := word_of_int (get_call_status dv), si_dnet_status := word_of_int (get_dnet_status dv)\<rparr>,
           st))))))"

text \<open>The devices in their order; the applications' share of the display is the system's.\<close>

fun sample_energies ::
  "view_t \<Rightarrow> supported_device list \<Rightarrow> energy_t \<Rightarrow> energy_t \<Rightarrow> (u32 \<times> u32) list \<times> energy_t \<times> energy_t" where
  "sample_energies v [] sold app = ([], sold, app)"
| "sample_energies v (dev # devs) sold app =
     (let (energy, sold) = pop_sys_energy_per_device v dev sold;
          (app_energy, app) = (if dev = DEVICE_LCD then (energy, app) else pop_app_energy_per_device v dev app);
          (es, sold, app) = sample_energies v devs sold app
      in ((energy, app_energy) # es, sold, app))"

definition sample_energy :: "env_t \<Rightarrow> system_info_t \<times> sys_t \<Rightarrow> (system_info_t \<times> sys_t) option" where
  "sample_energy env r =
     (case r of (si, st) \<Rightarrow>
        (let (es, sold, app) = sample_energies (e_view env S_energy) supported_devices (y_sys_energy_old st) (y_app_energy_old st)
         in Some (si\<lparr>si_energy := sum_list (map fst es), si_energy_per_device := map fst es,
                    si_app_energy_per_device := map snd es\<rparr>,
                  st\<lparr>y_sys_energy_old := sold, y_app_energy_old := app\<rparr>)))"

definition when_set ::
  "feature_code \<Rightarrow> env_t \<Rightarrow> (env_t \<Rightarrow> system_info_t \<times> sys_t \<Rightarrow> (system_info_t \<times> sys_t) option)
     \<Rightarrow> system_info_t \<times> sys_t \<Rightarrow> (system_info_t \<times> sys_t) option" where
  "when_set opt env f r = (if IS_OPT_SET_IN opt (e_features env) then f env r else Some r)"

definition common_options :: "feature_code list" where
  "common_options =
     [FL_SYSTEM_CPU, FL_SYSTEM_PROCESS, FL_SYSTEM_PROCESSES_LOAD, FL_SYSTEM_THREAD_LOAD, FL_SYSTEM_MEMORY]"

text \<open>
  The whole: 0 and the sample, or -1 with the sample cleared. The number of the sample only goes up
  when it succeeds.
\<close>

definition get_system_info :: "env_t \<Rightarrow> sys_t \<Rightarrow> (int \<times> system_info_t \<times> sys_t) option" where
  "get_system_info env st =
     Option.bind
       (if \<exists>opt \<in> set common_options. IS_OPT_SET_IN opt (e_features env) then sample_common env st
        else Some (Some (reset_system_info, 0), st))
       (\<lambda>(r, st). case r of
          None \<Rightarrow> Some (-1, reset_system_info, st)
        | Some (si, sysmemused) \<Rightarrow>
            (let si = (if IS_OPT_SET_IN FL_SYSTEM_MEMORY (e_features env)
                       then si\<lparr>si_system_memory_used := sysmemused\<rparr> else si) in
             Option.bind (when_set FL_SYSTEM_DISK env sample_disk (si, st)) (\<lambda>r.
             Option.bind (when_set FL_SYSTEM_NETWORK env sample_network r) (\<lambda>r.
             Option.bind (when_set FL_SYSTEM_DEVICE env sample_device r) (\<lambda>r.
             Option.bind (when_set FL_SYSTEM_ENERGY env sample_energy r) (\<lambda>(si, st).
             Some (0, si, st\<lparr>y_event_num := y_event_num st + 1\<rparr>)))))))"

text \<open>\<open>dummy\<close>: the values of the local variables, which only matter when no file is open.\<close>

definition sys_stat_prepare :: "view_t \<Rightarrow> view_t \<Rightarrow> u32 \<times> u32 \<Rightarrow> sys_t \<Rightarrow> sys_t option" where
  "sys_stat_prepare vdisk vnet dummy st =
     Option.bind (peek_disk_stat_diff vdisk (stream (y_diskstats st) vdisk PROC_DISKSTATS) (y_disk_old st)) (\<lambda>(_, disk).
     Option.bind (peek_network_stat_diff (stream (y_networkstat st) vnet PROC_NET_DEV) dummy (y_net_old st)) (\<lambda>(_, net).
     Some (st\<lparr>y_disk_old := disk, y_net_old := net\<rparr>)))"

section \<open>Target information\<close>

text \<open>
  \<open>nproc\<close>: \<^verbatim>\<open>sysconf(_SC_NPROCESSORS_CONF)\<close>. The total memory is multiplied in 32 bits, the size of
  the storage in an \<^verbatim>\<open>int\<close>, whose overflow is that of the machine.
\<close>

definition fill_target_info ::
  "bool \<Rightarrow> view_t \<Rightarrow> device_t \<Rightarrow> int \<Rightarrow> sys_t \<Rightarrow> (target_info_t \<times> sys_t) option" where
  "fill_target_info device_only v dv nproc st =
     map_option (\<lambda>brightness.
       (\<lparr>sys_mem_size = ucast (get_system_total_memory (read_fd (y_procmeminfo st) v PROCMEMINFO)),
         storage_size = word_of_int (to_int (to_int (stat_get_storageinfo v FSINFO_TYPE_TOTAL * 1024) * 1024)),
         bluetooth_supp = word_of_int (is_bluetooth_available dv), gps_supp = word_of_int (is_gps_available dv),
         wifi_supp = word_of_int (is_wifi_available dv), camera_count = word_of_int (get_camera_count v),
         network_type = fst (get_device_network_type dv), max_brightness = word_of_int brightness,
         cpu_core_count = word_of_int nproc\<rparr>,
        st\<lparr>y_max_brightness := brightness\<rparr>))
       (get_max_brightness device_only v (y_max_brightness st))"

section \<open>The sampler's invariant\<close>

text \<open>
  The tables have one node for each number, no process that is not instrumented is marked between
  samples, and the array of processors has its last entry.
\<close>

definition sampler_ok :: "sys_t \<Rightarrow> bool" where
  "sampler_ok st \<longleftrightarrow>
     distinct (node_pids (y_inst_prochead st)) \<and> distinct (node_pids (y_other_prochead st))
     \<and> (\<forall>t \<in> set (y_other_prochead st). \<not> pn_found t)
     \<and> length (y_cpus st) = y_num_of_cpu st + 1"

lemma length_read_cores [simp]: "length (read_cores k ls cs) = length cs"
  by (induction k ls cs rule: read_cores.induct) auto

lemma length_update_system_cpu_data:
  "update_system_cpu_data f n k cs = (r, cs') \<Longrightarrow> length cs' = length cs"
  by (auto simp: update_system_cpu_data_def Let_def split: option.splits list.splits if_splits)

lemma length_update_freqs: "update_freqs v n k i cs = Some cs' \<Longrightarrow> length cs' = length cs"
  by (induction cs arbitrary: i cs') (auto simp: bind_eq_Some_conv)

lemma length_update_system_cpu_frequency:
  "update_system_cpu_frequency v mem n nf k cs = Some (nf', cs') \<Longrightarrow> length cs' = length cs"
  by (auto simp: update_system_cpu_frequency_def Let_def dest!: length_update_freqs split: if_splits)

lemma length_update_cpus_info:
  assumes "update_cpus_info Hertz n k elapsed cs = Some cs'"
  shows "length cs' = length cs"
proof -
  have "update_cpus Hertz elapsed k cs = Some cs' \<Longrightarrow> length cs' = length cs" for cs cs'
    using update_cpus_nth(1) [of Hertz elapsed k cs cs' 0] by (cases cs) auto
  with assms show ?thesis by (fastforce simp: update_cpus_info_def)
qed

lemma load_node_simps [simp]:
  "node_pid (load_node factor n) = node_pid n" "pn_found (load_node factor n) = pn_found n"
  "node_pid (p\<lparr>pn_threads := ths\<rparr>) = node_pid p" "pn_threads (load_node factor p) = pn_threads p"
  by (simp_all add: load_node_def node_pid_def save_times_def)

lemma update_thread_data_pids:
  assumes "update_thread_data v mem fresh ts pid = Some (r, ts')"
  shows "node_pids ts' = node_pids ts"
proof -
  obtain i ts1 where f: "find_node ts pid = (i, ts1)" by fastforce
  have p: "node_pids ts1 = node_pids ts" using find_node_pids [of ts pid] f by simp
  have "node_pids (ts1[j := (ts1 ! j)\<lparr>pn_threads := ths\<rparr>]) = node_pids ts1" for j ths
    by (cases "j < length ts1") (simp_all add: map_update node_pid_def list_update_same_conv list_update_beyond)
  with assms f p show ?thesis
    by (auto simp: update_thread_data_def split: option.splits)
qed

lemma sample_threads_pids: "sample_threads env i pids ts = Some (r, ts') \<Longrightarrow> node_pids ts' = node_pids ts"
  by (induction env i pids ts rule: sample_threads.induct)
    (auto simp: bind_eq_Some_conv dest: update_thread_data_pids split: if_splits)

text \<open>
  Between the steps of the common part the number of the sample, that of the cores and what the network
  part uses stay as they are.
\<close>

definition sample_key :: "sys_t \<Rightarrow> int \<times> bool \<times> u32 \<times> u32" where
  "sample_key st = (y_event_num st, y_networkstat st, y_net_old st)"

definition sampling :: "int \<times> bool \<times> u32 \<times> u32 \<Rightarrow> nat \<Rightarrow> sys_t \<Rightarrow> bool" where
  "sampling k n st \<longleftrightarrow> sampler_ok st \<and> sample_key st = k \<and> y_num_of_cpu st = n"

lemma sample_inst_ok:
  "sample_inst_procs env s pids ty st = Some (r, st') \<Longrightarrow> sampling k n st \<Longrightarrow> sampling k n st'"
  by (auto simp: sample_inst_procs_def sampling_def sample_key_def sampler_ok_def dest: update_data_distinct)

lemma sample_other_ok:
  "sample_other env pids st = Some (r, st') \<Longrightarrow> sampling k n st \<Longrightarrow> sampling k n st'"
  by (auto simp: sample_other_def sampling_def sample_key_def sampler_ok_def dest: update_data_distinct)

lemma sample_cpu_ok: "sample_cpu env st = (r, st') \<Longrightarrow> sampling k n st \<Longrightarrow> sampling k n st'"
  by (auto simp: sample_cpu_def sampling_def sample_key_def sampler_ok_def dest: length_update_system_cpu_data split: prod.splits)

lemma sample_freq_ok: "sample_freq env st = Some (r, st') \<Longrightarrow> sampling k n st \<Longrightarrow> sampling k n st'"
  by (auto simp: sample_freq_def sampling_def sample_key_def sampler_ok_def dest: length_update_system_cpu_frequency)

lemma sample_threads_ok:
  assumes "map_option (\<lambda>(r, ts). (r, st\<lparr>y_inst_prochead := ts\<rparr>)) (sample_threads env i pids (y_inst_prochead st)) = Some (ret, st')"
    and "sampling k n st"
  shows "sampling k n st'"
proof -
  obtain ts where t: "sample_threads env i pids (y_inst_prochead st) = Some (ret, ts)" "st' = st\<lparr>y_inst_prochead := ts\<rparr>"
    using assms(1) by auto
  from sample_threads_pids [OF t(1)] assms(2) show ?thesis
    by (simp add: t(2) sampling_def sample_key_def sampler_ok_def)
qed

lemma unless_negative_iff:
  "unless_negative r k = Some x \<longleftrightarrow>
     (\<exists>ret st. r = Some (ret, st) \<and> (if ret < 0 then x = (None, st) else k st = Some x))"
  by (auto simp: unless_negative_def bind_eq_Some_conv split: if_splits)

lemma sample_loads_ok:
  assumes "sample_loads env now elapsed st m = Some (r, st')" "sampling k n st"
  shows "sampling k n st'" "node_pids (y_inst_prochead st') = node_pids (y_inst_prochead st)"
    "node_pids (y_other_prochead st') = node_pids (y_other_prochead st)"
  using assms
  by (auto simp: sample_loads_def bind_eq_Some_conv Let_def sampling_def sample_key_def sampler_ok_def fill_system_processes_info_def
      fill_system_threads_info_def comp_def dest: length_update_cpus_info split: if_splits)

lemma sum_list_of_nat_word:
  "(\<Sum>x\<leftarrow>xs. of_nat (f x)) = (of_nat (\<Sum>x\<leftarrow>xs. f x) :: 'a::len word)"
  by (induction xs) simp_all

lemma unless_negative_ok:
  assumes "unless_negative r f = Some (x, st')" "\<And>ret st. r = Some (ret, st) \<Longrightarrow> sampling k n st"
    and "\<And>st. sampling k n st \<Longrightarrow> f st = Some (x, st') \<Longrightarrow> sampling k n st'"
  shows "sampling k n st'"
  using assms by (auto simp: unless_negative_iff split: if_splits)

lemma sample_memory_ok:
  assumes "sample_memory env now elapsed st = Some (r, st')" "sampling k n st"
  shows "sampling k n st'" "node_pids (y_inst_prochead st') = node_pids (y_inst_prochead st)"
    "node_pids (y_other_prochead st') = node_pids (y_other_prochead st)"
proof -
  have k: "sampling k n (st\<lparr>y_mem_slot_array := s\<rparr>)" for s
    using assms(2) by (simp add: sampling_def sample_key_def sampler_ok_def)
  show "sampling k n st'" "node_pids (y_inst_prochead st') = node_pids (y_inst_prochead st)"
    "node_pids (y_other_prochead st') = node_pids (y_other_prochead st)"
    using assms(1) k by (auto simp: sample_memory_def Let_def dest: sample_loads_ok [OF _ k] split: prod.splits if_splits)
qed

lemma sample_common_ok:
  assumes "sample_common env st = Some (x, st')" and ok: "sampling k n st"
  shows "sampling k n st'"
proof -
  obtain inst_pids other_pids where
    "unless_negative (sample_inst_procs env S_inst_stat inst_pids PROCDATA_STAT st) (\<lambda>st.
     unless_negative (sample_other env other_pids st) (\<lambda>st.
     let now = v_time (e_view env S_time); elapsed = get_elapsed now (y_old_time st); st = st\<lparr>y_old_time := now\<rparr> in
     unless_negative (Some (sample_cpu env st)) (\<lambda>st.
     unless_negative (sample_freq env st) (\<lambda>st.
     unless_negative (sample_inst_procs env S_smaps inst_pids PROCDATA_SMAPS st) (\<lambda>st.
     unless_negative
       (map_option (\<lambda>(r, ts). (r, st\<lparr>y_inst_prochead := ts\<rparr>)) (sample_threads env 0 inst_pids (y_inst_prochead st)))
       (sample_memory env now elapsed)))))) = Some (x, st')"
    using assms(1) by (auto simp: sample_common_def bind_eq_Some_conv)
  then show ?thesis
    unfolding Let_def
    apply (rule unless_negative_ok)
     apply (erule sample_inst_ok [OF _ ok])
    apply (erule unless_negative_ok)
     apply (erule (1) sample_other_ok)
    apply (erule unless_negative_ok)
     apply (rule sample_cpu_ok, erule option.inject [THEN iffD1], simp add: sampling_def sample_key_def sampler_ok_def)
    apply (erule unless_negative_ok)
     apply (erule (1) sample_freq_ok)
    apply (erule unless_negative_ok)
     apply (erule (1) sample_inst_ok)
    apply (erule unless_negative_ok)
     apply (erule (1) sample_threads_ok)
    apply (erule (1) sample_memory_ok)
    done
qed

lemma unless_negative_Some:
  "unless_negative r k = Some (Some y, st') \<longleftrightarrow>
     (\<exists>ret st. r = Some (ret, st) \<and> \<not> ret < 0 \<and> k st = Some (Some y, st'))"
  by (auto simp: unless_negative_iff)

lemma length_freq_loop: "freq_loop v i n = Some fs \<Longrightarrow> length fs = n"
  by (induction n arbitrary: i fs) (auto simp: bind_eq_Some_conv split: if_splits)

text \<open>The processes of the last reading of the tables, and their numbers in the sample.\<close>

lemma sample_loads_counts:
  assumes "sample_loads env now elapsed st m = Some (Some (si, m'), st')"
  shows "si_count_of_inst_processes si = of_nat (length (y_inst_prochead st'))"
    "si_count_of_other_processes si = of_nat (length (y_other_prochead st'))"
    "si_count_of_threads si = (\<Sum>p\<leftarrow>y_inst_prochead st'. of_nat (length (pn_threads p)))"
    "\<forall>fs. si_cpu_frequency si = Some fs \<longrightarrow> length fs = y_num_of_cpu st'"
    "\<forall>fs. si_cpu_load si = Some fs \<longrightarrow> length fs = min (y_num_of_cpu st') (length (y_cpus st'))"
proof -
  let ?f = "get_factor (y_Hertz st) (y_num_of_cpu st) elapsed"
  let ?inst = "map (\<lambda>p. p\<lparr>pn_threads := map (load_node ?f) (pn_threads p)\<rparr>) (map (load_node ?f) (y_inst_prochead st))"
  obtain cs r where f: "fill_system_cpu_info env
        (st\<lparr>y_cpus := cs, y_inst_prochead := ?inst, y_other_prochead := map (load_node ?f) (y_other_prochead st)\<rparr>)
        (reset_system_info\<lparr>si_count_of_inst_processes := of_nat (length (y_inst_prochead st)),
          si_count_of_other_processes := of_nat (length (y_other_prochead st)),
          si_count_of_threads := (\<Sum>p\<leftarrow>map (load_node ?f) (y_inst_prochead st). of_nat (length (pn_threads p)))\<rparr>) = Some (r, si)"
    and st': "st' = st\<lparr>y_cpus := cs, y_inst_prochead := ?inst, y_other_prochead := map (load_node ?f) (y_other_prochead st)\<rparr>"
    using assms
    by (auto simp: sample_loads_def bind_eq_Some_conv fill_system_processes_info_def fill_system_threads_info_def Let_def
        split: if_splits)
  show "si_count_of_inst_processes si = of_nat (length (y_inst_prochead st'))"
    "si_count_of_other_processes si = of_nat (length (y_other_prochead st'))"
    "si_count_of_threads si = (\<Sum>p\<leftarrow>y_inst_prochead st'. of_nat (length (pn_threads p)))"
    "\<forall>fs. si_cpu_load si = Some fs \<longrightarrow> length fs = min (y_num_of_cpu st') (length (y_cpus st'))"
    using f unfolding st'
    by (auto simp: fill_system_cpu_info_def Let_def comp_def reset_system_info_def split: if_splits)
  show "\<forall>fs. si_cpu_frequency si = Some fs \<longrightarrow> length fs = y_num_of_cpu st'"
    using f unfolding st'
    by (auto simp: fill_system_cpu_info_def Let_def get_cpu_frequency_def reset_system_info_def split: if_splits
        dest: length_freq_loop)
qed

lemma sample_inst_table:
  assumes "sample_inst_procs env s pids ty st = Some (r, st')" "distinct (node_pids (y_inst_prochead st))"
    "\<forall>t \<in> set (y_inst_prochead st). \<not> pn_found t"
  shows "set (node_pids (y_inst_prochead st')) = live (e_view env s) (set pids)"
  using assms by (auto simp: sample_inst_procs_def simp del: set_map dest: update_data_table(2))

lemma sample_inst_unmarked:
  assumes "sample_inst_procs env s pids ty st = Some (r, st')" "distinct (node_pids (y_inst_prochead st))"
  shows "distinct (node_pids (y_inst_prochead st'))" "\<forall>t \<in> set (y_inst_prochead st'). \<not> pn_found t"
  using assms by (auto simp: sample_inst_procs_def dest: update_data_distinct)

lemma sample_other_table:
  assumes "sample_other env pids st = Some (r, st')" "sampling k n st"
  shows "set (node_pids (y_other_prochead st')) = live (e_view env S_other_stat) (set pids)"
  using assms by (auto simp: sample_other_def sampling_def sample_key_def sampler_ok_def simp del: set_map dest: update_data_table(2))

lemma sample_frames:
  "sample_other env pids st = Some (r, st') \<Longrightarrow> y_inst_prochead st' = y_inst_prochead st"
  "sample_cpu env st = (r, st') \<Longrightarrow> y_inst_prochead st' = y_inst_prochead st \<and> y_other_prochead st' = y_other_prochead st"
  "sample_freq env st = Some (r, st') \<Longrightarrow> y_inst_prochead st' = y_inst_prochead st \<and> y_other_prochead st' = y_other_prochead st"
  "sample_inst_procs env s pids ty st = Some (r, st') \<Longrightarrow> y_other_prochead st' = y_other_prochead st"
  by (auto simp: sample_other_def sample_cpu_def sample_freq_def sample_inst_procs_def split: prod.splits)

text \<open>
  A successful common part: the tables hold the processes seen in their last reading, and the sample counts
  what they hold.
\<close>

lemma sample_common_exact:
  assumes "sample_common env st = Some (Some (si, m), st')" and ok: "sampling k n st"
  shows "\<exists>ip op. get_inst_pid_array (v_tasks (e_view env S_pids)) = Some ip
    \<and> get_other_pid_array (e_view env S_pids) ip = Some op
    \<and> set (node_pids (y_inst_prochead st')) = live (e_view env S_smaps) (set ip)
    \<and> set (node_pids (y_other_prochead st')) = live (e_view env S_other_stat) (set op)
    \<and> (\<exists>now elapsed st7 m'. sample_loads env now elapsed st7 m' = Some (Some (si, m), st'))"
proof -
  let ?now = "v_time (e_view env S_time)"
  obtain ip op r1 st1 r2 st2 elapsed r4 st4 r5 st5 r6 st6 r7 ts where
    ip: "get_inst_pid_array (v_tasks (e_view env S_pids)) = Some ip" "get_other_pid_array (e_view env S_pids) ip = Some op"
    and 1: "sample_inst_procs env S_inst_stat ip PROCDATA_STAT st = Some (r1, st1)"
    and 2: "sample_other env op st1 = Some (r2, st2)"
    and 4: "sample_cpu env (st2\<lparr>y_old_time := ?now\<rparr>) = (r4, st4)"
    and 5: "sample_freq env st4 = Some (r5, st5)"
    and 6: "sample_inst_procs env S_smaps ip PROCDATA_SMAPS st5 = Some (r6, st6)"
    and 7: "sample_threads env 0 ip (y_inst_prochead st6) = Some (r7, ts)"
    and 8: "sample_memory env ?now elapsed (st6\<lparr>y_inst_prochead := ts\<rparr>) = Some (Some (si, m), st')"
    using assms(1)
    by (auto simp: sample_common_def bind_eq_Some_conv unless_negative_Some Let_def)
  have s1: "sampling k n st1" by (rule sample_inst_ok [OF 1 ok])
  have s2: "sampling k n st2" by (rule sample_other_ok [OF 2 s1])
  have s3: "sampling k n (st2\<lparr>y_old_time := ?now\<rparr>)" using s2 by (simp add: sampling_def sample_key_def sampler_ok_def)
  have s5: "sampling k n st5" by (rule sample_freq_ok [OF 5 sample_cpu_ok [OF 4 s3]])
  have s6: "sampling k n st6" by (rule sample_inst_ok [OF 6 s5])
  have p7: "node_pids ts = node_pids (y_inst_prochead st6)" by (rule sample_threads_pids [OF 7])
  have s7: "sampling k n (st6\<lparr>y_inst_prochead := ts\<rparr>)"
    using s6 p7 by (simp add: sampling_def sample_key_def sampler_ok_def)
  note m = sample_memory_ok [OF 8 s7]
  have i5: "y_inst_prochead st5 = y_inst_prochead st1" and o6: "y_other_prochead st6 = y_other_prochead st2"
    using sample_frames(1) [OF 2] sample_frames(2) [OF 4] sample_frames(3) [OF 5] sample_frames(4) [OF 6]
    by simp_all
  have d1: "distinct (node_pids (y_inst_prochead st))" using ok by (simp add: sampling_def sample_key_def sampler_ok_def)
  have "set (node_pids (y_inst_prochead st6)) = live (e_view env S_smaps) (set ip)"
    by (rule sample_inst_table [OF 6]) (use sample_inst_unmarked [OF 1 d1] i5 in auto)
  moreover have "set (node_pids (y_other_prochead st2)) = live (e_view env S_other_stat) (set op)"
    by (rule sample_other_table [OF 2 s1])
  moreover have "\<exists>elapsed st7 m'. sample_loads env ?now elapsed st7 m' = Some (Some (si, m), st')"
    using 8 by (auto simp: sample_memory_def Let_def split: prod.splits if_splits)
  then have "\<exists>now elapsed st7 m'. sample_loads env now elapsed st7 m' = Some (Some (si, m), st')" by blast
  ultimately show ?thesis using ip m p7 o6 by (simp del: set_map)
qed

text \<open>What the other features leave alone.\<close>

definition same_common :: "system_info_t \<times> sys_t \<Rightarrow> system_info_t \<times> sys_t \<Rightarrow> bool" where
  "same_common a b \<longleftrightarrow>
     si_cpu_frequency (fst b) = si_cpu_frequency (fst a) \<and> si_cpu_load (fst b) = si_cpu_load (fst a)
     \<and> si_count_of_threads (fst b) = si_count_of_threads (fst a)
     \<and> si_count_of_inst_processes (fst b) = si_count_of_inst_processes (fst a)
     \<and> si_count_of_other_processes (fst b) = si_count_of_other_processes (fst a)
     \<and> y_inst_prochead (snd b) = y_inst_prochead (snd a) \<and> y_other_prochead (snd b) = y_other_prochead (snd a)
     \<and> y_cpus (snd b) = y_cpus (snd a) \<and> y_num_of_cpu (snd b) = y_num_of_cpu (snd a)
     \<and> y_event_num (snd b) = y_event_num (snd a)"

lemma same_common_trans: "same_common a b \<Longrightarrow> same_common b c \<Longrightarrow> same_common a c"
  by (simp add: same_common_def)

lemma when_set_same:
  "when_set FL_SYSTEM_DISK env sample_disk a = Some b \<Longrightarrow> same_common a b"
  "when_set FL_SYSTEM_NETWORK env sample_network a = Some b \<Longrightarrow> same_common a b"
  "when_set FL_SYSTEM_DEVICE env sample_device a = Some b \<Longrightarrow> same_common a b"
  "when_set FL_SYSTEM_ENERGY env sample_energy a = Some b \<Longrightarrow> same_common a b"
  by (auto simp: when_set_def same_common_def sample_disk_def sample_network_def sample_device_def sample_energy_def
      bind_eq_Some_conv Let_def split: if_splits prod.splits)

text \<open>
  A sample that succeeds, by its parts: the common one and then the features. What is in the common part stays.
\<close>

lemma get_system_info_parts:
  assumes "get_system_info env st = Some (0, si, st')"
  obtains si1 m st1 where
    "if \<exists>opt \<in> set common_options. IS_OPT_SET_IN opt (e_features env)
       then sample_common env st = Some (Some (si1, m), st1) else si1 = reset_system_info \<and> st1 = st"
    "same_common (si1, st1) (si, st'\<lparr>y_event_num := y_event_num st1\<rparr>)"
    "y_event_num st' = y_event_num st1 + 1"
    "\<exists>a b. y_networkstat (snd a) = y_networkstat st1 \<and> y_net_old (snd a) = y_net_old st1
       \<and> when_set FL_SYSTEM_NETWORK env sample_network a = Some b
       \<and> si_network_send_size si = si_network_send_size (fst b)
       \<and> si_network_receive_size si = si_network_receive_size (fst b)"
proof -
  obtain si1 m st1 si2 a b c stf where
    1: "(if \<exists>opt \<in> set common_options. IS_OPT_SET_IN opt (e_features env) then sample_common env st
        else Some (Some (reset_system_info, 0), st)) = Some (Some (si1, m), st1)"
    and si2: "si2 = (if IS_OPT_SET_IN FL_SYSTEM_MEMORY (e_features env) then si1\<lparr>si_system_memory_used := m\<rparr> else si1)"
    and s: "when_set FL_SYSTEM_DISK env sample_disk (si2, st1) = Some a"
      "when_set FL_SYSTEM_NETWORK env sample_network a = Some b"
      "when_set FL_SYSTEM_DEVICE env sample_device b = Some c"
      "when_set FL_SYSTEM_ENERGY env sample_energy c = Some (si, stf)"
    and st': "st' = stf\<lparr>y_event_num := y_event_num stf + 1\<rparr>"
    using assms unfolding get_system_info_def Let_def
    by (auto simp: bind_eq_Some_conv split: option.splits simp del: split_paired_Ex split_paired_All)
  have k: "same_common (si2, st1) (si, stf)"
    by (rule same_common_trans [OF same_common_trans [OF same_common_trans]]) (rule when_set_same s)+
  show thesis
  proof (rule that)
    show "if \<exists>opt \<in> set common_options. IS_OPT_SET_IN opt (e_features env)
       then sample_common env st = Some (Some (si1, m), st1) else si1 = reset_system_info \<and> st1 = st"
      using 1 by (auto split: if_splits)
    show "same_common (si1, st1) (si, st'\<lparr>y_event_num := y_event_num st1\<rparr>)" "y_event_num st' = y_event_num st1 + 1"
      using k by (auto simp: same_common_def si2 st')
    have "y_networkstat (snd a) = y_networkstat st1" "y_net_old (snd a) = y_net_old st1"
      using s(1) by (auto simp: when_set_def sample_disk_def split: if_splits)
    moreover have "si_network_send_size si = si_network_send_size (fst b)"
      "si_network_receive_size si = si_network_receive_size (fst b)"
      using s(3,4) by (auto simp: when_set_def sample_device_def sample_energy_def bind_eq_Some_conv Let_def
          split: if_splits prod.splits)
    ultimately show "\<exists>a b. y_networkstat (snd a) = y_networkstat st1 \<and> y_net_old (snd a) = y_net_old st1
       \<and> when_set FL_SYSTEM_NETWORK env sample_network a = Some b
       \<and> si_network_send_size si = si_network_send_size (fst b)
       \<and> si_network_receive_size si = si_network_receive_size (fst b)"
      using s(2) by blast
  qed
qed

lemma sampling_start: "sampler_ok st \<Longrightarrow> sampling (sample_key st) (y_num_of_cpu st) st"
  by (simp add: sampling_def)

lemma get_system_info_ok:
  assumes "sampler_ok st" "get_system_info env st = Some (r, si, st')"
  shows "sampler_ok st' \<and> y_num_of_cpu st' = y_num_of_cpu st
    \<and> (r = 0 \<and> y_event_num st' = y_event_num st + 1
       \<or> r = -1 \<and> y_event_num st' = y_event_num st \<and> si = reset_system_info)"
proof (cases "r = 0")
  case True
  with assms(2) have "get_system_info env st = Some (0, si, st')" by simp
  then obtain si1 m st1 where
    c: "if \<exists>opt \<in> set common_options. IS_OPT_SET_IN opt (e_features env)
       then sample_common env st = Some (Some (si1, m), st1) else si1 = reset_system_info \<and> st1 = st"
    and s: "same_common (si1, st1) (si, st'\<lparr>y_event_num := y_event_num st1\<rparr>)" "y_event_num st' = y_event_num st1 + 1"
    by (rule get_system_info_parts)
  have "sampling (sample_key st) (y_num_of_cpu st) st1"
    using c sample_common_ok [OF _ sampling_start [OF assms(1)]] sampling_start [OF assms(1)] by (auto split: if_splits)
  with s True show ?thesis by (simp add: sampling_def sample_key_def sampler_ok_def same_common_def)
next
  case False
  with assms(2) have c: "sample_common env st = Some (None, st')" "si = reset_system_info" "r = -1"
    unfolding get_system_info_def Let_def by (auto simp: bind_eq_Some_conv split: option.splits if_splits) (metis not_None_eq surj_pair)
  from sample_common_ok [OF c(1) sampling_start [OF assms(1)]] c(2,3) show ?thesis
    by (simp add: sampling_def sample_key_def)
qed

text \<open>A sample that succeeds: its tables and counts, when the common part was asked for.\<close>

lemma sample_tables:
  assumes "sampler_ok st" "get_system_info env st = Some (0, si, st')"
    and "\<exists>opt \<in> set common_options. IS_OPT_SET_IN opt (e_features env)"
  shows "\<exists>ip op. get_inst_pid_array (v_tasks (e_view env S_pids)) = Some ip
    \<and> get_other_pid_array (e_view env S_pids) ip = Some op
    \<and> set (node_pids (y_inst_prochead st')) = live (e_view env S_smaps) (set ip)
    \<and> set (node_pids (y_other_prochead st')) = live (e_view env S_other_stat) (set op)
    \<and> si_count_of_inst_processes si = of_nat (length (y_inst_prochead st'))
    \<and> si_count_of_other_processes si = of_nat (length (y_other_prochead st'))"
proof -
  obtain si1 m st1 where
    c: "sample_common env st = Some (Some (si1, m), st1)"
    and s: "same_common (si1, st1) (si, st'\<lparr>y_event_num := y_event_num st1\<rparr>)"
    using get_system_info_parts [OF assms(2)] assms(3) by metis
  note e = sample_common_exact [OF c sampling_start [OF assms(1)]]
  obtain now elapsed st7 m' where l: "sample_loads env now elapsed st7 m' = Some (Some (si1, m), st1)"
    using e by blast
  have p: "y_inst_prochead st1 = y_inst_prochead st'" "y_other_prochead st1 = y_other_prochead st'"
    "si_count_of_inst_processes si = of_nat (length (y_inst_prochead st'))"
    "si_count_of_other_processes si = of_nat (length (y_other_prochead st'))"
    using s sample_loads_counts(1,2) [OF l] by (simp_all add: same_common_def)
  show ?thesis using e p(3,4) unfolding p(1,2) by blast
qed

section \<open>Properties\<close>

text \<open>The state after \<open>initialize_system_info\<close>, the other variables being cleared, and sample after sample.\<close>

definition sys_start :: "int \<Rightarrow> int \<Rightarrow> sys_t option" where
  "sys_start nproc hertz =
     (case initialize_system_info nproc True None of
        (r, n, Some cs) \<Rightarrow>
          Some \<lparr>y_event_num = 0, y_Hertz = hertz, y_num_of_cpu = n, y_num_of_freq = 0, y_cpus = cs, y_inst_prochead = [],
            y_other_prochead = [], y_probe_so_size = 0,
            y_mem_slot_array = \<lparr>mem_total = 0, mem_free = 0, mem_buffer = 0, mem_cached = 0, mem_num = 0\<rparr>,
            y_old_time = (0, 0), y_disk_old = zero_disk, y_net_old = (0, 0), y_sys_energy_old = \<lambda>_. 0,
            y_app_energy_old = \<lambda>_. 0, y_max_brightness = -1, y_brightness = None, y_voltage = False,
            y_procmeminfo = False, y_video = False, y_procstat = False, y_networkstat = False, y_diskstats = False\<rparr>
      | (r, n, None) \<Rightarrow> None)"

primrec run_samples :: "env_t list \<Rightarrow> sys_t \<Rightarrow> (int list \<times> sys_t) option" where
  "run_samples [] st = Some ([], st)"
| "run_samples (env # envs) st =
     Option.bind (get_system_info env st) (\<lambda>(r, si, st).
       map_option (\<lambda>(rs, st). (r # rs, st)) (run_samples envs st))"

lemma run_samples_ok:
  "run_samples envs st = Some (rs, st') \<Longrightarrow> sampler_ok st \<Longrightarrow>
     sampler_ok st' \<and> set rs \<subseteq> {0, -1} \<and> y_event_num st' = y_event_num st + int (length (filter ((=) 0) rs))"
proof (induction envs arbitrary: st rs)
  case (Cons env envs)
  then obtain r si st1 rs1 where 1: "get_system_info env st = Some (r, si, st1)"
    and 2: "run_samples envs st1 = Some (rs1, st')" and rs: "rs = r # rs1"
    by (auto simp: bind_eq_Some_conv)
  from get_system_info_ok [OF Cons.prems(2) 1] Cons.IH [OF 2] show ?case by (auto simp: rs)
qed simp


text \<open>
  C23. A sample that succeeds counts exactly the instrumented processes that still existed when their memory
  was read, and the other processes that still existed when their times were: each once, however often
  it is listed, and none that is gone.
\<close>

theorem sample_counts:
  assumes "sampler_ok st" "get_system_info env st = Some (0, si, st')"
    and "\<exists>opt \<in> set common_options. IS_OPT_SET_IN opt (e_features env)"
  shows "\<exists>ip op. get_inst_pid_array (v_tasks (e_view env S_pids)) = Some ip
    \<and> get_other_pid_array (e_view env S_pids) ip = Some op
    \<and> si_count_of_inst_processes si = of_nat (card {p \<in> set ip. p \<noteq> 0 \<and> v_stat (e_view env S_smaps) (proc_path p)})
    \<and> si_count_of_other_processes si = of_nat (card {p \<in> set op. p \<noteq> 0 \<and> v_stat (e_view env S_other_stat) (proc_path p)})
    \<and> length (y_inst_prochead st') \<le> 1024 \<and> length (y_other_prochead st') \<le> 1024"
proof -
  obtain ip op where ip: "get_inst_pid_array (v_tasks (e_view env S_pids)) = Some ip"
      "get_other_pid_array (e_view env S_pids) ip = Some op"
    and t: "set (node_pids (y_inst_prochead st')) = live (e_view env S_smaps) (set ip)"
      "set (node_pids (y_other_prochead st')) = live (e_view env S_other_stat) (set op)"
    and c: "si_count_of_inst_processes si = of_nat (length (y_inst_prochead st'))"
      "si_count_of_other_processes si = of_nat (length (y_other_prochead st'))"
    using sample_tables [OF assms] by blast
  have d: "distinct (node_pids (y_inst_prochead st'))" "distinct (node_pids (y_other_prochead st'))"
    using get_system_info_ok [OF assms(1,2)] by (simp_all add: sampler_ok_def)
  have len: "length (y_inst_prochead st') = card (live (e_view env S_smaps) (set ip))"
    "length (y_other_prochead st') = card (live (e_view env S_other_stat) (set op))"
    using distinct_card [OF d(1)] distinct_card [OF d(2)] t by simp_all
  have n: "length ip \<le> 1024" "length op \<le> 1024"
    using ip by (auto simp: get_inst_pid_array_def get_other_pid_array_def max_pid_num_def Let_def
        split: option.splits if_splits)
  have "card (live v (set ps)) \<le> length ps" for v ps
    using card_mono [of "set ps" "live v (set ps)"] card_length [of ps] by (auto simp: live_def)
  with n have "card (live v (set ip)) \<le> 1024" "card (live v (set op)) \<le> 1024" for v
    by (meson le_trans)+
  then show ?thesis using ip c len by (auto simp: live_def)
qed

section \<open>A small system\<close>

text \<open>One core and one instrumented process, 4, without other threads; another process, 7, is gone.\<close>

definition small_files :: "(bytes \<times> bytes) list" where
  "small_files =
     [(PROCSTAT, cstr ''cpu 1 2 3 4 5 6 7 8''),
      (PROCMEMINFO, cstr ''MemTotal: 9'' @ [10] @ cstr ''MemFree: 3'' @ [10] @ cstr ''Buffers: 2'' @ [10] @ cstr ''Cached: 1''),
      (cstr ''/proc/4/stat'', cstr ''4 (a) S 1 2 3 4 5 6 7 8 9 10 7 0 1 1 1 1 1 1 1 1 1''),
      (cstr ''/proc/4/smaps'', cstr ''Pss: 3''),
      (PROC_NET_DEV, cstr ''h'' @ [10] @ cstr ''h'' @ [10] @ cstr ''eth0: 900 1 0 0 0 0 0 0 40 1 0 0 0 0 0 0'')]"

definition small_view :: view_t where
  "small_view = sample_view\<lparr>v_file := map_of small_files, v_stat := \<lambda>p. p = cstr ''/proc/4'',
     v_dir := \<lambda>p. if p = cstr ''/proc'' then Some [(cstr ''7'', True)] else if p = cstr ''/proc/4/task'' then Some [] else None,
     v_tasks := Some (cstr ''4'')\<rparr>"

definition small_env :: "u64 \<Rightarrow> env_t" where
  "small_env features = \<lparr>e_view = \<lambda>_. small_view, e_device = \<lparr>vc_get = \<lambda>_. None, vc_off = \<lambda>_. 0, vc_feature = \<lambda>_. None\<rparr>,
     e_features = features, e_mem = True, e_mem_load = True, e_mem_freq = True, e_fresh = zero_node,
     e_fresh_thread = pnode.truncate zero_node\<rparr>"

definition small_state :: sys_t where
  "small_state = (the (sys_start 1 100))\<lparr>y_procmeminfo := True, y_procstat := True, y_networkstat := True\<rparr>"

definition small_node :: procNode where
  "small_node = zero_node\<lparr>pn_data := zero_proc\<lparr>p_pid := 4, p_command := [97], p_state := 83, p_utime := 7, p_numofthread := 1,
     p_vir_mem := 1, p_res_memblock := 4096\<rparr>, pn_saved_utime := 7\<rparr>"

definition small_node' :: procNode where
  "small_node' = small_node\<lparr>pn_data := (pn_data small_node)\<lparr>p_pss := 3072\<rparr>\<rparr>"

definition small_core :: CPU_t where
  "small_core = cpu0\<lparr>c_now := \<lparr>t_u = 1, t_n = 2, t_s = 3, t_i = 4, t_w = 5, t_x = 6, t_y = 7, t_z = 8\<rparr>, c_cur_index := 0\<rparr>"

lemma small_step1:
  "get_inst_pid_array (v_tasks small_view) = Some [4]"
  by code_simp

lemma small_step2:
  "get_other_pid_array small_view [4] = Some [7]"
  by code_simp

lemma small_step3:
  "update_process_data small_view True zero_node [] [4] PROCDATA_STAT True 0 = Some (0, 0, [small_node])"
  by code_simp

lemma small_step4:
  "update_process_data small_view True zero_node [] [7] PROCDATA_STAT False 0 = Some (2, 0, [])"
  by code_simp

lemma small_step5:
  "update_system_cpu_data (stream True small_view PROCSTAT) 1 0 [cpu0, cpu0] = (0, [small_core, small_core])"
  by code_simp

lemma small_step6:
  "update_system_cpu_frequency small_view True 1 0 0 [small_core, small_core] = Some (0, [small_core, small_core])"
  by code_simp

lemma small_step7:
  "update_process_data small_view True zero_node [small_node] [4] PROCDATA_SMAPS True 0 = Some (0, 0, [small_node'])"
  by code_simp

lemma small_step8:
  "sample_threads (small_env 0) 0 [4] [small_node'] = Some (0, [small_node'\<lparr>pn_found := True\<rparr>])"
  by code_simp

lemma small_step9:
  "update_system_memory_data (read_fd True small_view PROCMEMINFO)
     \<lparr>mem_total = 0, mem_free = 0, mem_buffer = 0, mem_cached = 0, mem_num = 0\<rparr>
   = (0, 9216, 3072, \<lparr>mem_total = 9, mem_free = 3, mem_buffer = 2, mem_cached = 1, mem_num = 4\<rparr>)"
  by code_simp

lemma small_step10:
  "freq_loop small_view 0 1 = Some [0]"
  by code_simp

lemmas small_steps =
  small_step1 small_step2 small_step3 small_step4 small_step5 small_step6 small_step7 small_step8 small_step9 small_step10

lemma small_state_simps [simp]:
  "y_inst_prochead small_state = []" "y_other_prochead small_state = []" "y_probe_so_size small_state = 0"
  "y_procstat small_state" "y_procmeminfo small_state" "y_networkstat small_state" "y_num_of_cpu small_state = 1"
  "y_event_num small_state = 0" "y_cpus small_state = [cpu0, cpu0]" "y_num_of_freq small_state = 0"
  "y_net_old small_state = (0, 0)"
  "y_mem_slot_array small_state = \<lparr>mem_total = 0, mem_free = 0, mem_buffer = 0, mem_cached = 0, mem_num = 0\<rparr>"
  by (simp_all add: small_state_def sys_start_def initialize_system_info_def cpu0_def numeral_2_eq_2)

lemma small_env_simps [simp]:
  "e_view (small_env f) s = small_view" "e_mem (small_env f)" "e_mem_load (small_env f)" "e_mem_freq (small_env f)"
  "e_fresh (small_env f) = zero_node" "e_features (small_env f) = f"
  "e_fresh_thread (small_env f) = pnode.truncate zero_node"
  by (simp_all add: small_env_def)

lemma small_threads: "sample_threads (small_env f) i ps ts = sample_threads (small_env 0) i ps ts"
  by (induction ps arbitrary: i ts) (auto intro!: Option.bind_cong)

lemma small_node_threads [simp]: "pn_threads small_node' = []"
  by (simp add: small_node'_def small_node_def zero_node_def)

lemma small_sample: "\<exists>si m st. sample_common (small_env f) small_state = Some (Some (si, m), st)
    \<and> y_networkstat st \<and> y_net_old st = (0, 0) \<and> (\<forall>p \<in> set (y_inst_prochead st). pn_threads p = [])"
proof -
  have "\<exists>cs. update_cpus_info h 1 0 elapsed [small_core, small_core] = Some cs" for h elapsed
    by (simp add: update_cpus_info_def update_cpu_def small_core_def cpu0_def Let_def)
  then obtain cs where cs: "update_cpus_info (y_Hertz small_state) 1 0
      (get_elapsed (v_time small_view) (y_old_time small_state)) [small_core, small_core] = Some cs" by blast
  show ?thesis
    by (simp add: sample_common_def sample_inst_procs_def sample_other_def sample_cpu_def sample_freq_def sample_memory_def
        small_steps unless_negative_def small_threads [of f] sample_loads_def cs fill_system_processes_info_def
        fill_system_threads_info_def fill_system_cpu_info_def get_cpu_frequency_def Let_def
        del: One_nat_def sample_threads.simps)
qed

section \<open>More properties\<close>

text \<open>
  The two network counters change places: what a sample reports as sent is the growth of what
  \<^verbatim>\<open>/proc/net/dev\<close> counts as received, and the other way round.
\<close>

theorem network_swapped:
  assumes "sampler_ok st" "get_system_info env st = Some (0, si, st')"
    and "IS_OPT_SET_IN FL_SYSTEM_NETWORK (e_features env)" "y_networkstat st"
  shows "\<exists>recv send. get_network_stat (stream True (e_view env S_net) PROC_NET_DEV) (0, 0) = Some (recv, send)
    \<and> si_network_send_size si = val_diff recv (fst (y_net_old st))
    \<and> si_network_receive_size si = val_diff send (snd (y_net_old st))"
proof -
  obtain si1 m st1 a b where
    c: "if \<exists>opt \<in> set common_options. IS_OPT_SET_IN opt (e_features env)
       then sample_common env st = Some (Some (si1, m), st1) else si1 = reset_system_info \<and> st1 = st"
    and n: "y_networkstat (snd a) = y_networkstat st1" "y_net_old (snd a) = y_net_old st1"
      "when_set FL_SYSTEM_NETWORK env sample_network a = Some b"
      "si_network_send_size si = si_network_send_size (fst b)"
      "si_network_receive_size si = si_network_receive_size (fst b)"
    by (rule get_system_info_parts [OF assms(2)]) blast
  have "sampling (sample_key st) (y_num_of_cpu st) st1"
    using c sample_common_ok [OF _ sampling_start [OF assms(1)]] sampling_start [OF assms(1)] by (auto split: if_splits)
  then have "y_networkstat st1" "y_net_old st1 = y_net_old st"
    using assms(4) by (simp_all add: sampling_def sample_key_def)
  then show ?thesis
    using n assms(3)
    by (auto simp: when_set_def sample_network_def peek_network_stat_diff_def get_network_stat_def stream_def
        split: prod.splits)
qed

lemma small_ok: "sampler_ok small_state"
  by (simp add: sampler_ok_def)

text \<open>A sample of the small system succeeds, whatever is asked for besides devices.\<close>

lemma small_sample_succeeds:
  assumes "\<not> IS_OPT_SET_IN FL_SYSTEM_DEVICE f" "\<not> IS_OPT_SET_IN FL_SYSTEM_DISK f" "\<not> IS_OPT_SET_IN FL_SYSTEM_ENERGY f"
  shows "\<exists>si st. get_system_info (small_env f) small_state = Some (0, si, st) \<and> (\<forall>p \<in> set (y_inst_prochead st). pn_threads p = [])"
proof -
  have net: "get_network_stat (stream True small_view PROC_NET_DEV) x = Some (900, 40)" for x
  proof -
    have "net_loop (skip_lines 2 (case v_file small_view PROC_NET_DEV of None \<Rightarrow> [] | Some f \<Rightarrow> f)) 0 0 = Some (900, 40)"
      by code_simp
    then show ?thesis by (simp add: get_network_stat_def stream_def)
  qed
  obtain si m st where "sample_common (small_env f) small_state = Some (Some (si, m), st)"
      "y_networkstat st" "y_net_old st = (0, 0)" "\<forall>p \<in> set (y_inst_prochead st). pn_threads p = []"
    using small_sample by blast
  then show ?thesis
    using assms net
    by (auto simp: get_system_info_def when_set_def sample_network_def peek_network_stat_diff_def Let_def)
qed

lemma small_table:
  assumes "get_system_info (small_env f) small_state = Some (0, si, st)"
    "\<exists>opt \<in> set common_options. IS_OPT_SET_IN opt f"
  shows "set (node_pids (y_inst_prochead st)) = {4}" "y_other_prochead st = []" "length (y_inst_prochead st) = 1"
proof -
  have e: "\<exists>opt \<in> set common_options. IS_OPT_SET_IN opt (e_features (small_env f))" using assms(2) by simp
  have "v_stat small_view (proc_path 4)" "\<not> v_stat small_view (proc_path 7)" by code_simp+
  then have "live small_view (set [4]) = {4}" "live small_view (set [7]) = {}" by (auto simp: live_def)
  with sample_tables [OF small_ok assms(1) e] small_steps(1,2)
  show 1: "set (node_pids (y_inst_prochead st)) = {4}" and "y_other_prochead st = []"
    by (simp_all del: set_map)
  have "distinct (node_pids (y_inst_prochead st))"
    using get_system_info_ok [OF small_ok assms(1)] by (simp add: sampler_ok_def)
  from distinct_card [OF this] 1 show "length (y_inst_prochead st) = 1" by (simp del: set_map)
qed


theorem sample_counts_witness:
  "\<exists>si st. get_system_info (small_env 0x001000000000) small_state = Some (0, si, st)
     \<and> si_count_of_inst_processes si = 1 \<and> si_count_of_other_processes si = 0"
proof -
  obtain si st where s: "get_system_info (small_env 0x001000000000) small_state = Some (0, si, st)"
    using small_sample_succeeds [of "0x001000000000"] by (auto simp: IS_OPT_SET_IN_def)
  have o: "\<exists>opt \<in> set common_options. IS_OPT_SET_IN opt (e_features (small_env 0x001000000000))"
    by (simp add: common_options_def IS_OPT_SET_IN_def)
  have "v_stat small_view (proc_path 4)" "\<not> v_stat small_view (proc_path 7)" by code_simp+
  then have v: "{p \<in> set [4]. p \<noteq> 0 \<and> v_stat small_view (proc_path p)} = {4}"
    "{p \<in> set [7]. p \<noteq> 0 \<and> v_stat small_view (proc_path p)} = {}" by auto
  obtain ip op where k: "get_inst_pid_array (v_tasks small_view) = Some ip" "get_other_pid_array small_view ip = Some op"
    "si_count_of_inst_processes si = of_nat (card {p \<in> set ip. p \<noteq> 0 \<and> v_stat small_view (proc_path p)})"
    "si_count_of_other_processes si = of_nat (card {p \<in> set op. p \<noteq> 0 \<and> v_stat small_view (proc_path p)})"
    using sample_counts [OF small_ok s o] by auto
  have "ip = [4]" "op = [7]" using k(1,2) small_steps(1,2) by simp_all
  with k(3,4) s show ?thesis unfolding \<open>ip = [4]\<close> \<open>op = [7]\<close> v by simp
qed

theorem network_swapped_witness:
  "\<exists>si st. get_system_info (small_env 0x040000000000) small_state = Some (0, si, st)
     \<and> si_network_send_size si = 900 \<and> si_network_receive_size si = 40"
proof -
  obtain si st where s: "get_system_info (small_env 0x040000000000) small_state = Some (0, si, st)"
    using small_sample_succeeds [of "0x040000000000"] by (auto simp: IS_OPT_SET_IN_def)
  have "IS_OPT_SET_IN FL_SYSTEM_NETWORK (e_features (small_env 0x040000000000))" by (simp add: IS_OPT_SET_IN_def)
  moreover have "get_network_stat (stream True small_view PROC_NET_DEV) (0, 0) = Some (900, 40)" by code_simp
  ultimately show ?thesis using network_swapped [OF small_ok s] s by (simp add: val_diff_def)
qed

end
