(* ===== verification/Sys_Pack.thy ===== *)
theory Sys_Pack
  imports Sys_Sample Recv_Thread
begin

text \<open>
  The message of a sample (\<^verbatim>\<open>pack_system_info\<close> of \<^verbatim>\<open>daemon/sys_stat.c\<close>) and the sampling thread
  (\<^verbatim>\<open>daemon/threads.c\<close>), which sends it to the driver's buffer.
\<close>

section \<open>Sizes\<close>

text \<open>
  Sizes of the structures: the members in order, and padding up to their alignment, which is that of
  their 8-byte members.
\<close>

definition padup :: "nat \<Rightarrow> nat \<Rightarrow> nat" where
  "padup align n = (n + align - 1) div align * align"

definition sizeof_float :: nat where "sizeof_float = 4"
definition sizeof_pointer :: nat where "sizeof_pointer = 4"
definition sizeof_thread_info :: nat where "sizeof_thread_info = 4 + sizeof_float"
definition sizeof_other_process_info :: nat where "sizeof_other_process_info = 4 + sizeof_float"
definition sizeof_inst_process_info :: nat where
  "sizeof_inst_process_info = padup 8 (4 + sizeof_float + 5 * 8 + 4)"

text \<open>The number of threads comes before the memory, at the third word; 28 words come after it.\<close>

definition sizeof_system_info :: nat where
  "sizeof_system_info =
     padup 8 (padup 8 (2 * sizeof_pointer + 4) + 8 + (2 + 2 + 5 + 2 + 13 + 1 + 2 * length supported_devices) * 4)"

definition msg_data_payload_length :: "u64 \<Rightarrow> nat \<Rightarrow> system_info_t \<Rightarrow> u32" where
  "msg_data_payload_length features num_of_cpu si =
     of_nat sizeof_system_info + of_nat (2 * num_of_cpu * sizeof_float) - of_nat (sizeof_pointer + sizeof_pointer)
     + (if IS_OPT_SET_IN FL_SYSTEM_THREAD_LOAD features
        then si_count_of_threads si * of_nat sizeof_thread_info else 0)
     + (if IS_OPT_SET_IN FL_SYSTEM_PROCESS features
        then si_count_of_inst_processes si * of_nat sizeof_inst_process_info else 0)
     + (if IS_OPT_SET_IN FL_SYSTEM_PROCESSES_LOAD features
        then si_count_of_other_processes si * of_nat sizeof_other_process_info else 0)"

section \<open>Packing\<close>

text \<open>\<open>n\<close> values of an array; 0 for each when there is none. \<open>None\<close>: the array is shorter.\<close>

definition pack_floats :: "nat \<Rightarrow> f32 list option \<Rightarrow> bytes option" where
  "pack_floats n arr =
     (case arr of
        None \<Rightarrow> Some (concat (map le32 (replicate n 0)))
      | Some xs \<Rightarrow> if n \<le> length xs then Some (concat (map le32 (take n xs))) else None)"

definition pack_thread :: "pnode \<Rightarrow> bytes" where
  "pack_thread th = le32 (p_pid (pn_data th)) @ le32 (p_cpu_load (pn_data th))"

definition pack_inst_process :: "u64 \<Rightarrow> (int \<Rightarrow> int) \<Rightarrow> procNode \<Rightarrow> bytes" where
  "pack_inst_process features total_alloc p =
     (let d = pn_data p in
      le32 (p_pid d) @ le32 (p_cpu_load d) @ le64 (ucast (p_vir_mem d)) @ le64 (scast (p_res_memblock d))
      @ le64 (ucast (p_sh_mem d)) @ le64 (ucast (p_pss d)) @ le64 (word_of_int (total_alloc (sint (p_pid d))))
      @ (if IS_OPT_SET_IN FL_SYSTEM_THREAD_LOAD features
         then le32 (of_nat (length (pn_threads p))) @ concat (map pack_thread (pn_threads p))
         else le32 0))"

definition pack_other_process :: "procNode \<Rightarrow> bytes" where
  "pack_other_process p = le32 (p_pid (pn_data p)) @ le32 (p_cpu_load (pn_data p))"

text \<open>The loop over a counted chain; when the chain is shorter its end is followed: \<open>None\<close>.\<close>

fun pack_chain :: "(procNode \<Rightarrow> bytes) \<Rightarrow> nat \<Rightarrow> procNode list \<Rightarrow> bytes option" where
  "pack_chain f 0 ps = Some []"
| "pack_chain f (Suc n) [] = None"
| "pack_chain f (Suc n) (p # ps) = map_option ((@) (f p)) (pack_chain f n ps)"

definition pack_processes :: "bool \<Rightarrow> (procNode \<Rightarrow> bytes) \<Rightarrow> u32 \<Rightarrow> procNode list \<Rightarrow> bytes option" where
  "pack_processes is_set f count ps =
     (if is_set then map_option ((@) (le32 count)) (pack_chain f (unat count) ps) else Some (le32 0))"

definition pack_numbers :: "system_info_t \<Rightarrow> u32 list" where
  "pack_numbers si =
     [si_total_used_drive si, dk_reads (si_disk si), dk_bytes_reads (si_disk si), dk_writes (si_disk si),
      dk_bytes_writes (si_disk si), si_network_send_size si, si_network_receive_size si,
      si_wifi_status si, si_bt_status si, si_gps_status si, si_brightness_status si, si_camera_status si,
      si_sound_status si, si_audio_status si, si_vibration_status si, si_voltage_status si, si_rssi_status si,
      si_video_status si, si_call_status si, si_dnet_status si, si_energy si]
     @ si_energy_per_device si @ si_app_energy_per_device si"

definition pack_payload :: "u64 \<Rightarrow> (int \<Rightarrow> int) \<Rightarrow> system_info_t \<Rightarrow> sys_t \<Rightarrow> bytes option" where
  "pack_payload features total_alloc si st =
     (let n = y_num_of_cpu st in
      Option.bind (if IS_OPT_SET_IN FL_SYSTEM_CPU features
                   then Option.bind (pack_floats n (si_cpu_frequency si)) (\<lambda>a.
                        map_option ((@) a) (pack_floats n (si_cpu_load si)))
                   else Some (concat (map le32 (replicate (2 * n) 0)))) (\<lambda>cpu.
      Option.bind (pack_processes (IS_OPT_SET_IN FL_SYSTEM_PROCESS features) (pack_inst_process features total_alloc)
                     (si_count_of_inst_processes si) (y_inst_prochead st)) (\<lambda>inst.
      Option.bind (pack_processes (IS_OPT_SET_IN FL_SYSTEM_PROCESSES_LOAD features) pack_other_process
                     (si_count_of_other_processes si) (y_other_prochead st)) (\<lambda>other.
      Some (cpu @ le64 (si_system_memory_used si) @ inst @ other @ concat (map le32 (pack_numbers si)))))))"

text \<open>
  A block of the length of the header and the payload, which holds \<open>heap\<close>, is written from its start.
  \<open>None\<close>: a read or a write outside; \<open>Some None\<close>: no memory.
\<close>

definition pack_system_info ::
  "u64 \<Rightarrow> (u32 \<Rightarrow> bool) \<Rightarrow> (nat \<Rightarrow> byte) \<Rightarrow> u32 \<times> u32 \<Rightarrow> (int \<Rightarrow> int) \<Rightarrow> system_info_t \<Rightarrow> sys_t \<Rightarrow> bytes option option" where
  "pack_system_info features malloc_ok heap time total_alloc si st =
     (let len = msg_data_payload_length features (y_num_of_cpu st) si + 0x100;
          block = of_nat MSG_DATA_HDR_LEN + len
      in if \<not> malloc_ok block then Some None
         else Option.bind (pack_payload features total_alloc si st) (\<lambda>payload.
                let msg = fill_data_msg_head time (msg_val NMSG_SYSTEM) 0 len @ payload in
                if length msg \<le> unat block
                then Some (Some (msg @ map heap [length msg ..< unat block])) else None))"

section \<open>The sampling thread\<close>

datatype sample_signal = SIGALRM | SIGUSR1 | Sig_other

text \<open>
  One alarm. What the driver gets is in the trace of the daemon; the features are those of the session.
  \<open>Faults\<close>: undefined behaviour in the sample or its message.
\<close>

definition sample_alarm :: "os_t \<Rightarrow> env_t \<Rightarrow> (nat \<Rightarrow> byte) \<Rightarrow> sys_t \<times> da_t \<Rightarrow> (sys_t \<times> da_t) run" where
  "sample_alarm os env heap s =
     (case s of (st, d) \<Rightarrow>
        (let features = use_features0 (s_conf d) in
         case get_system_info (env\<lparr>e_features := features\<rparr>) st of
           None \<Rightarrow> Faults
         | Some (r, si, st) \<Rightarrow>
             if r = -1 then Ret (st, d)
             else
               (case pack_system_info features (os_malloc os) heap (os_time os (trace d))
                       (\<lambda>pid. target_get_total_alloc pid d) si st of
                  None \<Rightarrow> Faults
                | Some None \<Rightarrow> Ret (st, d)
                | Some (Some msg) \<Rightarrow> Ret (st, flush_buf (snd (write_to_buf os msg d))))))"

text \<open>The signals the thread gets, each alarm with what it then finds; it ends with \<open>SIGUSR1\<close>.\<close>

fun samplingThread ::
  "os_t \<Rightarrow> (sample_signal \<times> env_t \<times> (nat \<Rightarrow> byte)) list \<Rightarrow> sys_t \<times> da_t \<Rightarrow> (bool \<times> sys_t \<times> da_t) run" where
  "samplingThread os [] s = Ret (False, s)"
| "samplingThread os ((SIGUSR1, env, heap) # sigs) s = Ret (True, s)"
| "samplingThread os ((SIGALRM, env, heap) # sigs) s = rbind (sample_alarm os env heap s) (samplingThread os sigs)"
| "samplingThread os ((Sig_other, env, heap) # sigs) s = samplingThread os sigs s"

section \<open>Lengths\<close>

lemma sizeof_values [simp]:
  "sizeof_system_info = 152" "sizeof_inst_process_info = 56" "sizeof_thread_info = 8"
  "sizeof_other_process_info = 8" "sizeof_float = 4" "sizeof_pointer = 4" "MSG_DATA_HDR_LEN = 20"
  by (simp_all add: sizeof_system_info_def sizeof_inst_process_info_def sizeof_thread_info_def padup_def
      sizeof_other_process_info_def sizeof_float_def sizeof_pointer_def MSG_DATA_HDR_LEN_def supported_devices_def)

lemma length_concat_le32 [simp, size_simps]: "length (concat (map le32 xs)) = 4 * length xs"
  by (induction xs) simp_all

lemma pack_floats_total:
  "(\<forall>xs. arr = Some xs \<longrightarrow> n \<le> length xs) \<Longrightarrow> \<exists>b. pack_floats n arr = Some b \<and> length b = 4 * n"
  by (auto simp: pack_floats_def simp del: map_replicate split: option.split)

lemma pack_chain_full: "pack_chain f (length ps) ps = Some (concat (map f ps))"
  by (induction ps) simp_all

lemma pack_processes_all:
  "unat count = length ps \<Longrightarrow> pack_processes is_set f count ps =
     Some (if is_set then le32 count @ concat (map f ps) else le32 0)"
  by (simp add: pack_processes_def pack_chain_full)

lemma length_pack_threads [simp, size_simps]: "length (concat (map pack_thread ths)) = 8 * length ths"
  by (induction ths) (simp_all add: pack_thread_def)

lemma length_pack_inst [size_simps]:
  "length (concat (map (pack_inst_process features ta) ps)) =
     52 * length ps + (if IS_OPT_SET_IN FL_SYSTEM_THREAD_LOAD features then 8 * (\<Sum>p\<leftarrow>ps. length (pn_threads p)) else 0)"
  by (induction ps) (simp_all add: pack_inst_process_def Let_def)

lemma length_pack_other [simp, size_simps]: "length (concat (map pack_other_process ps)) = 8 * length ps"
  by (induction ps) (simp_all add: pack_other_process_def)

text \<open>Both arrays of a sample's energies have an entry for each device.\<close>

definition energies_ok :: "system_info_t \<Rightarrow> bool" where
  "energies_ok si \<longleftrightarrow> length (si_energy_per_device si) = 3 \<and> length (si_app_energy_per_device si) = 3"

lemma length_sample_energies: "sample_energies v devs sold app = (es, sold', app') \<Longrightarrow> length es = length devs"
  by (induction v devs sold app arbitrary: es sold' app' rule: sample_energies.induct) (auto split: prod.splits)

lemma when_set_energies:
  "when_set FL_SYSTEM_DISK env sample_disk a = Some b \<Longrightarrow> energies_ok (fst a) \<Longrightarrow> energies_ok (fst b)"
  "when_set FL_SYSTEM_NETWORK env sample_network a = Some b \<Longrightarrow> energies_ok (fst a) \<Longrightarrow> energies_ok (fst b)"
  "when_set FL_SYSTEM_DEVICE env sample_device a = Some b \<Longrightarrow> energies_ok (fst a) \<Longrightarrow> energies_ok (fst b)"
  "when_set FL_SYSTEM_ENERGY env sample_energy a = Some b \<Longrightarrow> energies_ok (fst a) \<Longrightarrow> energies_ok (fst b)"
  by (auto simp: when_set_def energies_ok_def sample_disk_def sample_network_def sample_device_def sample_energy_def
      supported_devices_def bind_eq_Some_conv Let_def split: if_splits prod.splits dest!: length_sample_energies)

lemma sample_loads_energies:
  "sample_loads env now elapsed st m = Some (Some (si, m'), st') \<Longrightarrow> energies_ok si"
  by (auto simp: sample_loads_def fill_system_cpu_info_def fill_system_processes_info_def fill_system_threads_info_def
      energies_ok_def reset_system_info_def bind_eq_Some_conv Let_def split: if_splits)

lemma sample_energies_ok:
  assumes "sampler_ok st" "get_system_info env st = Some (0, si, st')"
  shows "energies_ok si"
proof -
  obtain r si1 m st1 a b c where
    1: "(if \<exists>opt \<in> set common_options. IS_OPT_SET_IN opt (e_features env) then sample_common env st
        else Some (Some (reset_system_info, 0), st)) = Some (Some (si1, m), st1)"
    and s: "when_set FL_SYSTEM_DISK env sample_disk
        (if IS_OPT_SET_IN FL_SYSTEM_MEMORY (e_features env) then si1\<lparr>si_system_memory_used := m\<rparr> else si1, st1) = Some a"
      "when_set FL_SYSTEM_NETWORK env sample_network a = Some b"
      "when_set FL_SYSTEM_DEVICE env sample_device b = Some c"
      "when_set FL_SYSTEM_ENERGY env sample_energy c = Some (si, r)"
    using assms(2) unfolding get_system_info_def Let_def
    by (auto simp: bind_eq_Some_conv split: option.splits simp del: split_paired_Ex split_paired_All)
  have "energies_ok si1"
  proof (cases "\<exists>opt \<in> set common_options. IS_OPT_SET_IN opt (e_features env)")
    case True
    with 1 have "sample_common env st = Some (Some (si1, m), st1)" by (simp only: if_True)
    from sample_common_exact [OF this sampling_start [OF assms(1)]] sample_loads_energies
    show ?thesis by blast
  next
    case False
    with 1 have "si1 = reset_system_info" by (simp only: if_False option.inject prod.inject)
    then show ?thesis by (simp add: energies_ok_def reset_system_info_def)
  qed
  then have "energies_ok (if IS_OPT_SET_IN FL_SYSTEM_MEMORY (e_features env) then si1\<lparr>si_system_memory_used := m\<rparr> else si1)"
    by (simp add: energies_ok_def)
  with when_set_energies(1) [OF s(1)] when_set_energies(2) [OF s(2)] when_set_energies(3) [OF s(3)]
    when_set_energies(4) [OF s(4)]
  show ?thesis by simp
qed

text \<open>What a sample that succeeds holds for the message, besides the numbers.\<close>

lemma sample_shape:
  assumes "sampler_ok st" "get_system_info env st = Some (0, si, st')"
    and "\<exists>opt \<in> set common_options. IS_OPT_SET_IN opt (e_features env)"
  shows "si_count_of_inst_processes si = of_nat (length (y_inst_prochead st'))"
    "si_count_of_other_processes si = of_nat (length (y_other_prochead st'))"
    "si_count_of_threads si = of_nat (\<Sum>p\<leftarrow>y_inst_prochead st'. length (pn_threads p))"
    "\<exists>b. pack_floats (y_num_of_cpu st') (si_cpu_frequency si) = Some b \<and> length b = 4 * y_num_of_cpu st'"
    "\<exists>b. pack_floats (y_num_of_cpu st') (si_cpu_load si) = Some b \<and> length b = 4 * y_num_of_cpu st'"
proof -
  obtain si1 m st1 where
    c: "sample_common env st = Some (Some (si1, m), st1)"
    and s: "same_common (si1, st1) (si, st'\<lparr>y_event_num := y_event_num st1\<rparr>)"
    using get_system_info_parts [OF assms(2)] assms(3) by metis
  obtain now elapsed st7 m' where l: "sample_loads env now elapsed st7 m' = Some (Some (si1, m), st1)"
    using sample_common_exact [OF c sampling_start [OF assms(1)]] by blast
  note k = sample_loads_counts [OF l]
  show "si_count_of_inst_processes si = of_nat (length (y_inst_prochead st'))"
    "si_count_of_other_processes si = of_nat (length (y_other_prochead st'))"
    "si_count_of_threads si = of_nat (\<Sum>p\<leftarrow>y_inst_prochead st'. length (pn_threads p))"
    using k(1-3) s by (simp_all add: same_common_def sum_list_of_nat_word)
  have "length (y_cpus st1) = y_num_of_cpu st1 + 1"
    using sample_common_ok [OF c sampling_start [OF assms(1)]] by (simp add: sampling_def sampler_ok_def)
  with k(4,5) s
  show "\<exists>b. pack_floats (y_num_of_cpu st') (si_cpu_frequency si) = Some b \<and> length b = 4 * y_num_of_cpu st'"
    "\<exists>b. pack_floats (y_num_of_cpu st') (si_cpu_load si) = Some b \<and> length b = 4 * y_num_of_cpu st'"
    by (intro pack_floats_total; simp add: same_common_def)+
qed

text \<open>The length of the payload, which is also that of the block but for its header.\<close>

definition thread_count :: "sys_t \<Rightarrow> nat" where
  "thread_count st = (\<Sum>p\<leftarrow>y_inst_prochead st. length (pn_threads p))"

definition payload_room :: "u64 \<Rightarrow> sys_t \<Rightarrow> nat" where
  "payload_room features st =
     400 + 8 * y_num_of_cpu st
     + (if IS_OPT_SET_IN FL_SYSTEM_THREAD_LOAD features then 8 * thread_count st else 0)
     + (if IS_OPT_SET_IN FL_SYSTEM_PROCESS features then 56 * length (y_inst_prochead st) else 0)
     + (if IS_OPT_SET_IN FL_SYSTEM_PROCESSES_LOAD features then 8 * length (y_other_prochead st) else 0)"

lemma payload_length_room:
  assumes "IS_OPT_SET_IN FL_SYSTEM_THREAD_LOAD features \<Longrightarrow> si_count_of_threads si = of_nat (thread_count st)"
    "IS_OPT_SET_IN FL_SYSTEM_PROCESS features \<Longrightarrow> si_count_of_inst_processes si = of_nat (length (y_inst_prochead st))"
    "IS_OPT_SET_IN FL_SYSTEM_PROCESSES_LOAD features \<Longrightarrow> si_count_of_other_processes si = of_nat (length (y_other_prochead st))"
  shows "msg_data_payload_length features (y_num_of_cpu st) si + 0x100 = of_nat (payload_room features st)"
  using assms by (simp add: msg_data_payload_length_def payload_room_def algebra_simps)

text \<open>What is written of it.\<close>

lemma payload_written:
  assumes "energies_ok si"
    and "IS_OPT_SET_IN FL_SYSTEM_CPU features \<Longrightarrow>
      (\<exists>b. pack_floats (y_num_of_cpu st) (si_cpu_frequency si) = Some b \<and> length b = 4 * y_num_of_cpu st)
      \<and> (\<exists>b. pack_floats (y_num_of_cpu st) (si_cpu_load si) = Some b \<and> length b = 4 * y_num_of_cpu st)"
    and "IS_OPT_SET_IN FL_SYSTEM_PROCESS features \<Longrightarrow> unat (si_count_of_inst_processes si) = length (y_inst_prochead st)"
    and "IS_OPT_SET_IN FL_SYSTEM_PROCESSES_LOAD features \<Longrightarrow>
      unat (si_count_of_other_processes si) = length (y_other_prochead st)"
  shows "\<exists>b. pack_payload features ta si st = Some b
    \<and> length b = 124 + 8 * y_num_of_cpu st
        + (if IS_OPT_SET_IN FL_SYSTEM_PROCESS features then 52 * length (y_inst_prochead st)
             + (if IS_OPT_SET_IN FL_SYSTEM_THREAD_LOAD features then 8 * thread_count st else 0) else 0)
        + (if IS_OPT_SET_IN FL_SYSTEM_PROCESSES_LOAD features then 8 * length (y_other_prochead st) else 0)"
proof -
  let ?n = "y_num_of_cpu st"
  have c: "\<exists>b. (if IS_OPT_SET_IN FL_SYSTEM_CPU features
        then Option.bind (pack_floats ?n (si_cpu_frequency si)) (\<lambda>a. map_option ((@) a) (pack_floats ?n (si_cpu_load si)))
        else Some (concat (map le32 (replicate (2 * ?n) 0)))) = Some b \<and> length b = 8 * ?n"
    using assms(2) by (auto simp del: map_replicate)
  have i: "\<exists>b. pack_processes (IS_OPT_SET_IN FL_SYSTEM_PROCESS features) (pack_inst_process features ta)
      (si_count_of_inst_processes si) (y_inst_prochead st) = Some b
    \<and> length b = 4 + (if IS_OPT_SET_IN FL_SYSTEM_PROCESS features then 52 * length (y_inst_prochead st)
        + (if IS_OPT_SET_IN FL_SYSTEM_THREAD_LOAD features then 8 * thread_count st else 0) else 0)"
  proof (cases "IS_OPT_SET_IN FL_SYSTEM_PROCESS features")
    case True
    then show ?thesis using assms(3) by (simp add: pack_processes_all length_pack_inst thread_count_def)
  qed (simp add: pack_processes_def)
  have o: "\<exists>b. pack_processes (IS_OPT_SET_IN FL_SYSTEM_PROCESSES_LOAD features) pack_other_process
      (si_count_of_other_processes si) (y_other_prochead st) = Some b
    \<and> length b = 4 + (if IS_OPT_SET_IN FL_SYSTEM_PROCESSES_LOAD features then 8 * length (y_other_prochead st) else 0)"
  proof (cases "IS_OPT_SET_IN FL_SYSTEM_PROCESSES_LOAD features")
    case True
    then show ?thesis using assms(4) by (simp add: pack_processes_all)
  qed (simp add: pack_processes_def)
  have "length (pack_numbers si) = 27" using assms(1) by (simp add: pack_numbers_def energies_ok_def)
  with c i o show ?thesis unfolding pack_payload_def Let_def
    by (elim exE conjE) simp
qed

section \<open>Properties\<close>

text \<open>The bytes of the block behind what is packed.\<close>

definition never_written :: "u64 \<Rightarrow> sys_t \<Rightarrow> nat" where
  "never_written features st =
     276 + (if IS_OPT_SET_IN FL_SYSTEM_PROCESS features then 4 * length (y_inst_prochead st)
            else if IS_OPT_SET_IN FL_SYSTEM_THREAD_LOAD features then 8 * thread_count st else 0)"

lemma unat_payload_room:
  assumes "y_num_of_cpu st < 2 ^ 20" "thread_count st < 2 ^ 24" "length (y_inst_prochead st) < 2 ^ 20"
    "length (y_other_prochead st) < 2 ^ 20"
  shows "unat (of_nat MSG_DATA_HDR_LEN + of_nat (payload_room features st) :: u32) = 20 + payload_room features st"
proof -
  have "20 + payload_room features st < 2 ^ 32" using assms by (simp add: payload_room_def)
  then have "unat (of_nat (20 + payload_room features st) :: u32) = 20 + payload_room features st"
    by (intro unat_of_nat_small) simp
  then show ?thesis by simp
qed

text \<open>
  C24. The message of a sample is always packed inside its block, with fewer than a million processes and
  cores and sixteen million threads; but the block is longer than what is packed: at its end 276 bytes, four more
  for each instrumented process, or eight for each thread when threads are asked for without processes,
  keep what the heap held before and are sent to the host.
\<close>

theorem sample_message:
  assumes "sampler_ok st" "get_system_info env st = Some (0, si, st')"
    and "y_num_of_cpu st' < 2 ^ 20" "thread_count st' < 2 ^ 24"
    and "\<And>n. malloc_ok n"
    and small: "length (y_inst_prochead st') < 2 ^ 20" "length (y_other_prochead st') < 2 ^ 20"
  shows "\<exists>packed. pack_system_info (e_features env) malloc_ok heap time ta si st'
    = Some (Some (packed @ map heap [length packed ..< length packed + never_written (e_features env) st']))"
proof -
  let ?f = "e_features env"
  let ?common = "\<exists>opt \<in> set common_options. IS_OPT_SET_IN opt ?f"
  have o: "IS_OPT_SET_IN FL_SYSTEM_CPU ?f \<Longrightarrow> ?common" "IS_OPT_SET_IN FL_SYSTEM_PROCESS ?f \<Longrightarrow> ?common"
    "IS_OPT_SET_IN FL_SYSTEM_PROCESSES_LOAD ?f \<Longrightarrow> ?common" "IS_OPT_SET_IN FL_SYSTEM_THREAD_LOAD ?f \<Longrightarrow> ?common"
    by (auto simp: common_options_def)
  note shape = sample_shape [OF assms(1,2)]
  have len: "msg_data_payload_length ?f (y_num_of_cpu st') si + 0x100 = of_nat (payload_room ?f st')"
    by (rule payload_length_room) (use shape o in \<open>simp_all add: thread_count_def\<close>)
  have u: "unat (of_nat (length (y_inst_prochead st')) :: u32) = length (y_inst_prochead st')"
    "unat (of_nat (length (y_other_prochead st')) :: u32) = length (y_other_prochead st')"
    using small by (intro unat_of_nat_small; simp)+
  obtain b where b: "pack_payload ?f ta si st' = Some b"
    "length b = 124 + 8 * y_num_of_cpu st'
        + (if IS_OPT_SET_IN FL_SYSTEM_PROCESS ?f then 52 * length (y_inst_prochead st')
             + (if IS_OPT_SET_IN FL_SYSTEM_THREAD_LOAD ?f then 8 * thread_count st' else 0) else 0)
        + (if IS_OPT_SET_IN FL_SYSTEM_PROCESSES_LOAD ?f then 8 * length (y_other_prochead st') else 0)"
    using payload_written [OF sample_energies_ok [OF assms(1,2)], of ?f st' ta] shape o u by auto
  note room = unat_payload_room [OF assms(3,4) small, of ?f]
  let ?msg = "fill_data_msg_head time (msg_val NMSG_SYSTEM) 0 (of_nat (payload_room ?f st')) @ b"
  have "20 + payload_room ?f st' = length ?msg + never_written ?f st'"
    using b(2) by (simp add: payload_room_def never_written_def)
  with b(1) room assms(5)
  show ?thesis
    by (intro exI [of _ ?msg]) (simp add: pack_system_info_def len Let_def)
qed

theorem sample_message_witness:
  "\<exists>si st packed. get_system_info (small_env 0x005000000000) small_state = Some (0, si, st)
     \<and> pack_system_info 0x005000000000 (\<lambda>_. True) (\<lambda>_. 7) (0, 0) (\<lambda>_. 0) si st = Some (Some (packed @ replicate 280 7))"
proof -
  let ?f = "0x005000000000 :: u64"
  have n: "\<not> IS_OPT_SET_IN FL_SYSTEM_DEVICE ?f" "\<not> IS_OPT_SET_IN FL_SYSTEM_DISK ?f" "\<not> IS_OPT_SET_IN FL_SYSTEM_ENERGY ?f"
    by (simp_all add: IS_OPT_SET_IN_def)
  obtain si st where s: "get_system_info (small_env ?f) small_state = Some (0, si, st)"
    and t: "\<forall>p \<in> set (y_inst_prochead st). pn_threads p = []"
    using small_sample_succeeds [OF n] by blast
  have f: "IS_OPT_SET_IN FL_SYSTEM_PROCESS ?f" by (simp add: IS_OPT_SET_IN_def)
  then have o: "\<exists>opt \<in> set common_options. IS_OPT_SET_IN opt (e_features (small_env ?f))"
    by (simp add: common_options_def)
  have "thread_count st = 0" using t by (simp add: thread_count_def)
  moreover have "length (y_inst_prochead st) = 1" "length (y_other_prochead st) = 0"
    using small_table [OF s] o by simp_all
  moreover have "y_num_of_cpu st = 1" using get_system_info_ok [OF small_ok s] by simp
  ultimately have "\<exists>packed. pack_system_info ?f (\<lambda>_. True) (\<lambda>_. 7) (0, 0) (\<lambda>_. 0) si st
      = Some (Some (packed @ map (\<lambda>_. 7) [length packed ..< length packed + never_written ?f st]))"
    using sample_message [OF small_ok s, where malloc_ok = "\<lambda>_. True" and heap = "\<lambda>_. 7"] by simp
  moreover have "never_written ?f st = 280" using f \<open>length (y_inst_prochead st) = 1\<close> by (simp add: never_written_def)
  ultimately show ?thesis using s by (auto simp: map_replicate_const)
qed

text \<open>Messages as the driver gets them: each is written and flushed.\<close>

definition sent_samples :: "bytes list \<Rightarrow> io list" where
  "sent_samples ms = concat (map (\<lambda>m. [Write_buf m, Ioctl_flush]) ms)"

lemma sample_alarm_effect:
  assumes "sample_alarm os env heap (st, d) = Ret (st', d')" "sampler_ok st"
  shows "sampler_ok st' \<and> (\<exists>ms. length ms \<le> 1 \<and> d' = d\<lparr>trace := trace d @ sent_samples ms\<rparr>
    \<and> int (length ms) \<le> y_event_num st' - y_event_num st)"
proof -
  obtain r si st1 where g: "get_system_info (env\<lparr>e_features := use_features0 (s_conf d)\<rparr>) st = Some (r, si, st1)"
    using assms(1) by (auto simp: sample_alarm_def Let_def split: option.splits)
  note k = get_system_info_ok [OF assms(2) g]
  show ?thesis
  proof (cases "r = -1")
    case True
    with assms(1) g have "st' = st1" "d' = d" by (simp_all add: sample_alarm_def Let_def)
    with k show ?thesis by (intro conjI exI [of _ "[]"]) (auto simp: sent_samples_def)
  next
    case False
    with assms(1) g consider "st' = st1" "d' = d"
      | msg where "st' = st1" "d' = flush_buf (snd (write_to_buf os msg d))"
      by (auto simp: sample_alarm_def Let_def split: option.splits)
    then show ?thesis
    proof cases
      case 1
      with k show ?thesis by (intro conjI exI [of _ "[]"]) (auto simp: sent_samples_def)
    next
      case 2
      with k False show ?thesis
        by (intro conjI exI [of _ "[msg]"])
          (auto simp: sent_samples_def flush_buf_def write_to_buf_def sys_def emit_def Let_def)
    qed
  qed
qed

text \<open>
  What the sampling thread does between its start and its end, for any signals and anything it finds:
  it only writes and flushes messages, at most one for each alarm and each sample that succeeded, changes
  nothing else of the daemon's state, keeps the sampler's invariant, and ends only with its signal.
\<close>

theorem sampling_only_sends:
  assumes "samplingThread os sigs (st, d) = Ret (ended, st', d')" "sampler_ok st"
  shows "sampler_ok st'
    \<and> (\<exists>ms. length ms \<le> length (filter (\<lambda>s. fst s = SIGALRM) sigs) \<and> d' = d\<lparr>trace := trace d @ sent_samples ms\<rparr>
         \<and> int (length ms) \<le> y_event_num st' - y_event_num st)
    \<and> (ended \<longrightarrow> SIGUSR1 \<in> fst ` set sigs)"
  using assms
proof (induction os sigs "(st, d)" arbitrary: st d rule: samplingThread.induct)
  case (1 os)
  then show ?case by (auto simp: sent_samples_def intro!: exI [of _ "[]"])
next
  case (2 os env heap sigs)
  then show ?case by (auto simp: sent_samples_def intro!: exI [of _ "[]"])
next
  case (3 os env heap sigs)
  obtain st1 d1 where a: "sample_alarm os env heap (st, d) = Ret (st1, d1)"
    and t: "samplingThread os sigs (st1, d1) = Ret (ended, st', d')"
    using "3.prems"(1) by (auto simp: rbind_Ret_iff)
  obtain ms where m: "sampler_ok st1" "length ms \<le> 1" "d1 = d\<lparr>trace := trace d @ sent_samples ms\<rparr>"
      "int (length ms) \<le> y_event_num st1 - y_event_num st"
    using sample_alarm_effect [OF a "3.prems"(2)] by blast
  obtain ms' where m': "length ms' \<le> length (filter (\<lambda>s. fst s = SIGALRM) sigs)"
      "d' = d1\<lparr>trace := trace d1 @ sent_samples ms'\<rparr>" "int (length ms') \<le> y_event_num st' - y_event_num st1"
      "sampler_ok st'" "ended \<longrightarrow> SIGUSR1 \<in> fst ` set sigs"
    using "3.hyps" [OF t m(1)] by blast
  show ?case
    using m m' by (auto simp: sent_samples_def intro!: exI [of _ "ms @ ms'"])
next
  case (4 os env heap sigs)
  then show ?case by auto
qed


theorem sampling_only_sends_witness:
  "\<exists>st d. samplingThread (sample_os 0) [(SIGALRM, small_env 0, \<lambda>_. 0), (SIGUSR1, small_env 0, \<lambda>_. 0)] (small_state, manager0)
     = Ret (True, st, d) \<and> sampler_ok st \<and> (\<exists>ms. length ms \<le> 1 \<and> trace d = sent_samples ms)"
proof -
  let ?st = "small_state\<lparr>y_event_num := 1\<rparr>"
  have f: "use_features0 (s_conf manager0) = 0" "trace manager0 = []" by (simp_all add: manager0_def)
  have z: "\<not> IS_OPT_SET_IN opt 0" for opt by (simp add: IS_OPT_SET_IN_def)
  have g: "get_system_info (small_env 0\<lparr>e_features := 0\<rparr>) small_state = Some (0, reset_system_info, ?st)"
    by (simp add: get_system_info_def when_set_def z)
  have len: "msg_data_payload_length 0 1 reset_system_info + 0x100 = 408" by (simp add: msg_data_payload_length_def z)
  have "\<exists>b. pack_payload 0 ta reset_system_info ?st = Some b \<and> length b = 132" for ta
    using payload_written [of reset_system_info 0 ?st ta] by (auto simp: z energies_ok_def reset_system_info_def)
  then obtain b where "pack_payload 0 (\<lambda>pid. target_get_total_alloc pid manager0) reset_system_info ?st = Some b" "length b = 132"
    by blast
  then have "\<exists>msg. pack_system_info 0 (os_malloc (sample_os 0)) (\<lambda>_. 0) (os_time (sample_os 0) [])
      (\<lambda>pid. target_get_total_alloc pid manager0) reset_system_info ?st = Some (Some msg)"
    using len by (simp add: pack_system_info_def)
  then have "\<exists>st d. samplingThread (sample_os 0) [(SIGALRM, small_env 0, \<lambda>_. 0), (SIGUSR1, small_env 0, \<lambda>_. 0)] (small_state, manager0)
     = Ret (True, st, d)"
    using g f by (auto simp: sample_alarm_def)
  then obtain st d where r: "samplingThread (sample_os 0) [(SIGALRM, small_env 0, \<lambda>_. 0), (SIGUSR1, small_env 0, \<lambda>_. 0)] (small_state, manager0)
     = Ret (True, st, d)" by blast
  from sampling_only_sends [OF r small_ok] f(2) r show ?thesis by auto
qed

end
