(* ===== verification/Daemon_System.thy ===== *)
theory Daemon_System
  imports Daemon_Inv Sys_Pack
begin

text \<open>
  The daemon together with its sampling thread: the transition system of \<open>Daemon_Inv\<close> and the sampler of
  \<open>Sys_Sample\<close> and \<open>Sys_Pack\<close> over one state. They share the features of the session, the trace of calls
  and what the sampler keeps in globals, which the main loop also changes when it prepares a session
  (\<^verbatim>\<open>sys_stat_prepare\<close>) and answers a request for target information (\<^verbatim>\<open>fill_target_info\<close>).
\<close>

section \<open>Steps\<close>

text \<open>
  \<open>Main\<close>: a step of the daemon, with what the two files hold if it prepares a session and the values of the
  uninitialised counters there. \<open>Fill_info\<close>: the part of a request for target information that reads the
  system; \<open>Alarm\<close>: an alarm of the sampling thread.
\<close>

datatype system_event =
    Main daemon_event "io list \<Rightarrow> target_info_t" view_t view_t "u32 \<times> u32"
  | Fill_info bool view_t device_t int
  | Alarm env_t "nat \<Rightarrow> byte"

definition main_step ::
  "os_t \<Rightarrow> daemon_event \<Rightarrow> (io list \<Rightarrow> target_info_t) \<Rightarrow> view_t \<Rightarrow> view_t \<Rightarrow> u32 \<times> u32
     \<Rightarrow> sys_t \<times> da_t \<Rightarrow> (sys_t \<times> da_t) run" where
  "main_step os e fti vdisk vnet dummy s =
     (case s of (st, d) \<Rightarrow>
        rbind (daemon_step os fti e d) (\<lambda>d'.
          if Sys_stat_prepare \<in> set (since d d')
          then rbind (of_option (sys_stat_prepare vdisk vnet dummy st)) (\<lambda>st'. Ret (st', d'))
          else Ret (st, d')))"

definition system_step :: "os_t \<Rightarrow> system_event \<Rightarrow> sys_t \<times> da_t \<Rightarrow> (sys_t \<times> da_t) run" where
  "system_step os e s =
     (case e of
        Main e fti vdisk vnet dummy \<Rightarrow> main_step os e fti vdisk vnet dummy s
      | Fill_info device_only v dv nproc \<Rightarrow>
          rbind (of_option (fill_target_info device_only v dv nproc (fst s))) (\<lambda>(_, st). Ret (st, snd s))
      | Alarm env heap \<Rightarrow> sample_alarm os env heap s)"

text \<open>The thread gets its alarms only while it exists.\<close>

fun system_enabled :: "system_event \<Rightarrow> sys_t \<times> da_t \<Rightarrow> bool" where
  "system_enabled (Main e fti vdisk vnet dummy) (st, d) = can_happen e d"
| "system_enabled (Fill_info device_only v dv nproc) s = True"
| "system_enabled (Alarm env heap) (st, d) = m_sampling d"

fun system_inv :: "sys_t \<times> da_t \<Rightarrow> bool" where
  "system_inv (st, d) \<longleftrightarrow> sampler_ok st \<and> session_inv d"

text \<open>The daemon at the start of its loop, its system information initialised and its files opened.\<close>

definition system_start :: "int \<Rightarrow> int \<Rightarrow> bool \<Rightarrow> view_t \<Rightarrow> (sys_t \<times> da_t) option" where
  "system_start nproc hertz device_only v =
     map_option (\<lambda>st. (init_system_file_descriptors device_only v st, init_prof_session manager0)) (sys_start nproc hertz)"

section \<open>The invariant\<close>

lemma sampler_ok_cong:
  assumes "y_inst_prochead st' = y_inst_prochead st" "y_other_prochead st' = y_other_prochead st"
    "y_cpus st' = y_cpus st" "y_num_of_cpu st' = y_num_of_cpu st"
  shows "sampler_ok st' = sampler_ok st"
  by (simp add: sampler_ok_def assms)

lemma sys_stat_prepare_ok: "sys_stat_prepare vdisk vnet dummy st = Some st' \<Longrightarrow> sampler_ok st' = sampler_ok st"
  by (rule sampler_ok_cong) (auto simp: sys_stat_prepare_def bind_eq_Some_conv)

lemma fill_target_info_ok: "fill_target_info device_only v dv nproc st = Some (ti, st') \<Longrightarrow> sampler_ok st' = sampler_ok st"
  by (rule sampler_ok_cong) (auto simp: fill_target_info_def)

lemma init_files_ok: "sampler_ok (init_system_file_descriptors device_only v st) = sampler_ok st"
  by (rule sampler_ok_cong) (simp_all add: init_system_file_descriptors_def)

lemma session_inv_trace: "session_inv (d\<lparr>trace := es\<rparr>) = session_inv d"
  by (rule quiet_inv) (simp add: quiet_def)

lemma system_step_inv:
  assumes "system_inv (st, d)" "system_enabled e (st, d)" "system_step os e (st, d) = Ret (st', d')"
  shows "system_inv (st', d')"
proof (cases e)
  case (Main e fti vdisk vnet dummy)
  with assms(3) obtain "daemon_step os fti e d = Ret d'"
    and "st' = st \<or> sys_stat_prepare vdisk vnet dummy st = Some st'"
    by (auto simp: system_step_def main_step_def rbind_Ret_iff split: if_splits)
  with assms(1,2) Main daemon.step_keeps [of d e os fti d'] show ?thesis by (auto dest: sys_stat_prepare_ok)
next
  case (Fill_info device_only v dv nproc)
  with assms(1,3) show ?thesis by (auto simp: system_step_def rbind_Ret_iff dest: fill_target_info_ok)
next
  case (Alarm env heap)
  with assms(1,3) sample_alarm_effect [of os env heap st d st' d'] show ?thesis
    by (auto simp: system_step_def session_inv_trace)
qed

interpretation system: event_system "system_step os" system_enabled system_inv
proof unfold_locales
  fix s e s'
  assume "system_inv s" "system_enabled e s" "system_step os e s = Ret s'"
  then show "system_inv s'" using system_step_inv by (cases s; cases s') blast
qed

lemma sys_start_ok: "sys_start nproc hertz = Some st \<Longrightarrow> sampler_ok st"
  by (auto simp: sys_start_def initialize_system_info_def sampler_ok_def Let_def)

lemma system_start_inv: "system_start nproc hertz device_only v = Some s \<Longrightarrow> system_inv s"
  by (auto simp: system_start_def init_inv sys_start_ok init_files_ok)

section \<open>Properties\<close>

text \<open>
  C6. The main loop, the targets' threads, the replay and the sampling thread together, in any interleaving and
  with whatever the system answers: the session and the sampler keep their invariants, and an alarm
  that the sampling thread can get sends at most one sample, in a running session only, and does
  nothing else to the daemon.
\<close>

theorem system_invariant:
  assumes "system_start nproc hertz device_only v = Some s0" "reaches (system_step os) system_enabled s0 (st, d)"
  shows "session_inv d \<and> sampler_ok st
    \<and> (\<forall>env heap st' d'. system_enabled (Alarm env heap) (st, d) \<and> system_step os (Alarm env heap) (st, d) = Ret (st', d') \<longrightarrow>
         s_running d \<and> (\<exists>ms. length ms \<le> 1 \<and> d' = d\<lparr>trace := trace d @ sent_samples ms\<rparr>))"
proof -
  have i: "session_inv d" "sampler_ok st"
    using system.reaches_keeps [OF assms(2) system_start_inv [OF assms(1)]] by simp_all
  moreover have "s_running d" if "m_sampling d" using that i(1) by (simp add: session_inv_def)
  moreover have "\<exists>ms. length ms \<le> 1 \<and> d' = d\<lparr>trace := trace d @ sent_samples ms\<rparr>"
    if "sample_alarm os env heap (st, d) = Ret (st', d')" for env heap st' d'
    using sample_alarm_effect [OF that i(2)] by blast
  ultimately show ?thesis by (auto simp: system_step_def)
qed

text \<open>A host connects, then the target information is asked for.\<close>

theorem system_invariant_witness:
  "\<exists>s0 st d. system_start 1 100 True small_view = Some s0
     \<and> reaches (system_step (sample_os 3)) system_enabled s0 (st, d)
     \<and> m_control_socket d = 3 \<and> session_inv d \<and> sampler_ok st"
proof -
  let ?ini = "init_prof_session manager0" and ?d = "host_connect_cb (sample_os 3) (init_prof_session manager0)"
  obtain st0 where "sys_start 1 100 = Some st0" by (simp add: sys_start_def initialize_system_info_def)
  then obtain st where s: "system_start 1 100 True small_view = Some (st, ?ini)" by (simp add: system_start_def)
  let ?e = "Main (Callback Host_connect) (\<lambda>_. sample_target_info) small_view small_view (0, 0)"
  have tr: "Sys_stat_prepare \<notin> set (since ?ini ?d)"
    by (simp add: host_connect_cb_def hostServerHandler_def init_prof_session_def manager0_def sys_def since_def emit_def)
  have "system_step (sample_os 3) ?e (st, ?ini) = Ret (st, ?d)"
    using tr by (simp add: system_step_def main_step_def daemon_step_def run_callback_def)
  then have r: "reaches (system_step (sample_os 3)) system_enabled (st, ?ini) (st, ?d)"
    by (intro reaches.step [OF reaches.start]) simp_all
  moreover have "m_control_socket ?d = 3"
    by (simp add: host_connect_cb_def hostServerHandler_def init_prof_session_def manager0_def sys_def)
  ultimately show ?thesis using s system_invariant [OF s r] by blast
qed

end
