(* ===== verification/Daemon_Frame.thy ===== *)
theory Daemon_Frame
  imports Daemon_System
begin

text \<open>
  What the calls of an operation can be: every operation of the daemon reaches its end by calls and
  updates of the globals, so a relation between states that both respect holds across the operation.
  The locale \<open>daemon_frame\<close> states this once; its interpretations are two relations between the calls before and
  after: nothing was received from the host, and the sampler was not prepared. From them follow how the
  requests of the host are taken from its stream of bytes, and that the main loop leaves the sampler
  alone while the sampling thread is running.
\<close>

section \<open>The frame\<close>

text \<open>
  \<open>may e\<close>: the relation holds across the call \<open>e\<close>. Only two kinds of calls can be left out of it.
\<close>

locale daemon_frame =
  fixes R :: "da_t \<Rightarrow> da_t \<Rightarrow> bool" and may :: "io \<Rightarrow> bool"
  assumes refl [simp]: "R d d"
    and trans: "R d d' \<Longrightarrow> R d' d'' \<Longrightarrow> R d d''"
    and upd: "trace d' = trace d \<Longrightarrow> m_control_socket d' = m_control_socket d \<Longrightarrow> R d d'"
    and call: "may e \<Longrightarrow> R d (emit e d)"
    and others [simp]: "(\<forall>s n. e \<noteq> Recv s n) \<Longrightarrow> e \<noteq> Sys_stat_prepare \<Longrightarrow> may e"
begin

lemma emit_to [simp]: "R d d' \<Longrightarrow> may e \<Longrightarrow> R d (emit e d')"
  using trans call by blast

lemma updates [simp]:
  assumes "R d d'"
  shows "R d (d'\<lparr>s_conf := c\<rparr>)" "R d (d'\<lparr>s_inst := is\<rparr>)" "R d (d'\<lparr>s_replay := q\<rparr>)" "R d (d'\<lparr>s_running := b\<rparr>)"
    "R d (d'\<lparr>m_sampling := b\<rparr>)" "R d (d'\<lparr>m_replay := b\<rparr>)" "R d (d'\<lparr>m_transfer := b\<rparr>)"
    "R d (d'\<lparr>m_data_socket := n\<rparr>)" "R d (d'\<lparr>m_launch_timerfd := n\<rparr>)" "R d (d'\<lparr>m_connect_timerfd := n\<rparr>)"
    "R d (d'\<lparr>m_apps_to_run := n\<rparr>)" "R d (d'\<lparr>g_input_running := b\<rparr>)" "R d (d'\<lparr>g_host_order := k\<rparr>)"
    "R d (d'\<lparr>g_lpad_pid := n\<rparr>)" "R d (d'\<lparr>tg_use := us\<rparr>)" "R d (d'\<lparr>tg_array := ts\<rparr>)" "R d (d'\<lparr>tg_cnt := n\<rparr>)"
  by (rule trans [OF assms upd]; simp)+

lemma upd_target_to [simp]: "R d d' \<Longrightarrow> R d (upd_target i f d')"
  by (simp add: upd_target_def)

section \<open>Applications and timers\<close>

lemma stop_launch [simp]: "R d d' \<Longrightarrow> R d (snd (stop_app_launch_timer os d'))"
  by (simp add: stop_app_launch_timer_def sys_def Let_def)

lemma start_launch: "start_app_launch_timer os n d = (r, d') \<Longrightarrow> R d d'"
  by (auto simp: start_app_launch_timer_def stop_app_launch_timer_def sys_def Let_def split: if_splits)

lemma exec_kinds:
  "R d (snd (exec_app_tizen os i p d))" "R d (snd (exec_app_common os p d))" "R d (snd (exec_app_web os i d))"
  by (simp_all add: exec_app_tizen_def exec_app_common_def exec_app_web_def sys_def Let_def)

lemma exec_app_to: "exec_app os app d = (r, d') \<Longrightarrow> R d d'"
  using exec_kinds(1) [of d os "app_id app" "exe_path app"]
    exec_kinds(2) [of d os "exe_path app"] exec_kinds(3) [of d os "app_id app"]
  by (cases "exec_app_tizen os (app_id app) (exe_path app) d"; cases "exec_app_common os (exe_path app) d";
      cases "exec_app_web os (app_id app) d")
    (auto simp add: exec_app_def inc_apps_to_run_def simp del: app_type_val.simps split: if_split_asm)

lemma exec_apps_to: "exec_apps os apps d = (r, d') \<Longrightarrow> R d d'"
proof (induction apps arbitrary: d)
  case (Cons app apps)
  obtain q d1 where e: "exec_app os app d = (q, d1)" by fastforce
  with Cons.prems have "d' = d1 \<or> exec_apps os apps d1 = (r, d')" by (simp split: if_splits)
  with exec_app_to [OF e] Cons.IH trans show ?case by blast
qed simp

lemma get_pid_to: "get_pid_by_path os p d = Ret (r, d') \<Longrightarrow> R d d'"
  by (auto simp: get_pid_by_path_def find_pid_from_path_def Let_def split: if_splits)

lemma kill_app_to:
  assumes "kill_app os p d = Ret (r, d')"
  shows "R d d'"
proof -
  from assms obtain pid d1 where 1: "get_pid_by_path os p d = Ret (pid, d1)"
    by (auto simp: kill_app_def rbind_Ret_iff)
  from assms obtain pid' d2 where
    2: "(if pid = 0 then rbind (of_option (find_alternative_bin_path p PATH_MAX)) (\<lambda>alter.
            case alter of None \<Rightarrow> Ret (pid, d1) | Some p \<Rightarrow> get_pid_by_path os p d1)
        else Ret (pid, d1)) = Ret (pid', d2)"
    and 3: "R d2 d'"
    by (auto simp: kill_app_def rbind_Ret_iff 1 sys_def Let_def split: if_splits)
  from 2 have "R d1 d2"
    by (auto simp: rbind_Ret_iff split: if_splits option.splits dest: get_pid_to)
  from trans [OF trans [OF get_pid_to [OF 1] this] 3] show ?thesis .
qed

lemma kill_apps_to: "kill_apps os apps d = Ret (r, d') \<Longrightarrow> R d d'"
proof (induction apps arbitrary: d)
  case (Cons app apps)
  from Cons.prems obtain q d1 where k: "kill_app_by_info os app d = Ret (q, d1)"
    and rest: "(if q \<noteq> 0 then Ret (-1, d1) else kill_apps os apps d1) = Ret (r, d')"
    by (auto simp: rbind_Ret_iff)
  from k have "R d d1"
    by (auto simp: kill_app_by_info_def split: if_splits intro: kill_app_to)
  with rest Cons.IH [of d1] show ?case by (cases "q = 0") (auto dest: trans)
qed simp

lemma prepare_profiling_to: "prepare_profiling os d = Ret (r, d') \<Longrightarrow> may Sys_stat_prepare \<Longrightarrow> R d d'"
  by (auto simp: prepare_profiling_def rbind_Ret_iff split: if_splits dest: kill_apps_to)

lemma stop_web_apps_to: "R d (stop_web_apps os apps d)"
proof (induction apps arbitrary: d)
  case (Cons app apps)
  have "R d (if app_type app = app_type_val APP_TYPE_WEB then kill_app_web os (app_id app) d else d)"
    by (simp add: kill_app_web_def sys_def Let_def)
  from trans [OF this Cons.IH] show ?case by simp
qed simp

lemma write_buf_to [simp]: "R d d' \<Longrightarrow> R d (snd (write_to_buf os m d'))"
  by (simp add: write_to_buf_def sys_def Let_def)

lemma write_msg_error_to [simp]: "R d d' \<Longrightarrow> R d (write_msg_error os s d')"
  by (simp add: write_msg_error_def)

section \<open>Threads and targets\<close>

lemma handlers_to [simp]: "R d d' \<Longrightarrow> R d (add_handlers fds d')" "R d d' \<Longrightarrow> R d (del_handlers fds d')"
  by (induction fds arbitrary: d') simp_all

lemma input_to [simp]: "R d d' \<Longrightarrow> R d (add_input_events d')" "R d d' \<Longrightarrow> R d (del_input_events d')"
  by (simp_all add: add_input_events_def del_input_events_def)

lemma sampling_to [simp]: "R d d' \<Longrightarrow> R d (samplingStop d')" "R d d' \<Longrightarrow> R d (snd (samplingStart os d'))"
  by (simp_all add: samplingStart_def samplingStop_def Let_def sys_def)

lemma stop_profiling_to [simp]: "R d d' \<Longrightarrow> R d (stop_profiling d')"
  by (simp add: stop_profiling_def)

lemma stop_replay_to [simp]: "R d d' \<Longrightarrow> R d (stop_replay d')"
  by (simp add: stop_replay_def)

lemma start_replay_to: "start_replay os d = (r, d') \<Longrightarrow> R d d'"
  by (auto simp: start_replay_def Let_def sys_def split: if_splits)

lemma stop_transfer_to [simp]: "R d d' \<Longrightarrow> R d (stop_transfer d')"
  by (simp add: stop_transfer_def flush_buf_def wake_up_buf_def)

lemma start_transfer_to: "start_transfer os d = (r, d') \<Longrightarrow> R d d'"
  by (auto simp: start_transfer_def Let_def sys_def split: if_splits)

lemma send_target_to: "R d (snd (target_send_msg os i block len d))"
  by (simp add: target_send_msg_def send_msg_to_sock_def Let_def sys_def)

lemma send_slots_to: "R d (snd (send_slots os block len is ret d))"
proof (induction "is" arbitrary: ret d)
  case (Cons i "is")
  obtain r d1 where t: "target_send_msg os i block len d = (r, d1)" by fastforce
  then have "R d d1" using send_target_to [of d os i block len] by simp
  with Cons trans [OF this Cons.IH] t show ?case by simp
qed simp

lemma send_all_to: "R d (snd (target_send_msg_to_all os block len d))"
  by (simp add: target_send_msg_to_all_def send_slots_to)

lemma target_wait_to: "target_wait os i d = Ret (r, d') \<Longrightarrow> R d d'"
  by (auto simp: target_wait_def thread_wait_def sys_def Let_def split: option.splits if_splits)

lemma wait_slots_to: "wait_slots os is d = Ret d' \<Longrightarrow> R d d'"
proof (induction "is" arbitrary: d)
  case (Cons i "is")
  then show ?case by (auto simp: rbind_Ret_iff split: if_splits dest!: target_wait_to intro: trans)
qed simp

lemma terminate_all_to: "terminate_all os d = Ret d' \<Longrightarrow> R d d'"
  unfolding terminate_all_def target_wait_all_def terminate_all_target_def
  by (rule trans [OF send_all_to wait_slots_to])

section \<open>The session\<close>

lemma ioctl_to [simp]: "R d d' \<Longrightarrow> R d (snd (ioctl_send_msg os m d'))"
  by (simp add: ioctl_send_msg_def sys_def Let_def)

lemma stop_no_lock_to:
  assumes "stop_all_no_lock os d = Ret (e, d')"
  shows "R d d'"
proof (cases "s_running d")
  case False
  with assms show ?thesis by (simp add: stop_all_no_lock_def)
next
  case True
  with assms obtain d1 where t: "terminate_all os d = Ret d1" by (auto simp: stop_all_no_lock_def rbind_Ret_iff)
  obtain r d2 where io: "ioctl_send_msg os gen_stop_msg (stop_replay (stop_profiling d1)) = (r, d2)" by fastforce
  have "R d1 d2" using ioctl_to [of d1 "stop_replay (stop_profiling d1)" os gen_stop_msg] io by simp
  moreover have "R d1 d2 \<Longrightarrow> R d1 d'" using assms True t io by (auto simp: stop_all_no_lock_def Let_def split: if_splits)
  ultimately show ?thesis using trans [OF terminate_all_to [OF t]] by blast
qed

lemma stop_all_to: "stop_all os d = Ret (e, d') \<Longrightarrow> R d d'"
  using trans [OF stop_web_apps_to stop_no_lock_to] by (simp add: stop_all_def)

lemma start_profiling_to:
  assumes "start_profiling os d = (r, d')"
  shows "R d d'"
proof -
  let ?d1 = "emit (Smack_lsetlabel SCREENSHOT_DIR (cstr ''*'')) (emit (Mkdir SCREENSHOT_DIR) (emit (Remove_indir SCREENSHOT_DIR) d))"
  obtain r1 d2 where sam: "samplingStart os ?d1 = (r1, d2)" by fastforce
  let ?d3 = "if option_set FL_RECORDING d2 then add_input_events d2 else d2"
  obtain r3 d4 where ex: "exec_apps os (session_apps ?d3) ?d3 = (r3, d4)" by fastforce
  obtain r4 d5 where ti: "start_app_launch_timer os (get_apps_to_run d4) d4 = (r4, d5)" by fastforce
  have "R d d2" using sampling_to(2) [of d ?d1 os] sam by simp
  then have "R d ?d3" by simp
  note r = trans [OF this exec_apps_to [OF ex]] trans [OF trans [OF this exec_apps_to [OF ex]] start_launch [OF ti]]
  have "d' \<in> {d, d2, stop_profiling d4, stop_profiling d5, d5}"
    using assms sam ex ti by (auto simp: start_profiling_def Let_def split: if_splits prod.splits)
  with \<open>R d d2\<close> r show ?thesis by auto
qed

lemma reconfigure_to: "reconfigure os c d = (r, d') \<Longrightarrow> R d d'"
proof -
  assume r: "reconfigure os c d = (r, d')"
  have "R d (reconfigure_recording c d)" by (simp add: reconfigure_recording_def Let_def)
  then have "R d (snd (samplingStart os ((samplingStop (reconfigure_recording c d))\<lparr>s_conf := c\<rparr>)))" by simp
  with r show ?thesis by (simp add: reconfigure_def Let_def split: prod.splits)
qed

section \<open>Answers\<close>

lemma ack_to: "sendACKToHost os resp e pl d = Ret (r, d') \<Longrightarrow> R d d'"
  by (auto simp: sendACKToHost_def sys_def Let_def split: if_splits option.splits)

lemma send_ack_to: "send_ack os resp e r d = Ret (r', d') \<Longrightarrow> R d d'"
  by (auto simp: send_ack_def rbind_Ret_iff dest: ack_to)

lemma exit_ack_to: "exit_ack os resp e d = Ret (r', d') \<Longrightarrow> R d d'"
  by (auto simp: exit_ack_def dest: send_ack_to)

lemma start_ack_to: "start_ack os e t d = Ret (r, d') \<Longrightarrow> R d d'"
  by (auto simp: start_ack_def rbind_Ret_iff dest: ack_to)

lemma send_reply_to [simp]: "R d (snd (send_reply os m d))"
  by (simp add: send_reply_def sys_def Let_def)

lemma send_maps_to: "send_maps_inst_msg_to os i d = Ret d' \<Longrightarrow> R d d'"
  using send_target_to by (auto simp: send_maps_inst_msg_to_def split: option.splits)

lemma send_maps_all_to: "send_maps_inst_msg_to_all_targets os d = Ret d' \<Longrightarrow> R d d'"
  using send_all_to by (auto simp: send_maps_inst_msg_to_all_targets_def split: option.splits if_splits)

section \<open>Requests\<close>

text \<open>Only a start request while no session is running prepares the sampler.\<close>

lemma process_msg_start_to:
  assumes p: "process_msg_start os b d = Ret (r, d')" and m: "s_running d \<or> may Sys_stat_prepare"
  shows "R d d'"
proof (cases "s_running d \<or> \<not> check_conf (s_conf d)")
  case True
  with p show ?thesis by (auto simp: process_msg_start_def Let_def split: if_splits dest: start_ack_to)
next
  case go: False
  let ?t0 = "get_serialized_time os d"
  from p go obtain inst seq out where
    ms: "msg_start (os_stat os) (os_malloc os) (os_realpath os) b (s_inst d) (s_replay d) = Some (inst, seq, out)"
    by (auto simp: process_msg_start_def rbind_Ret_iff Let_def)
  let ?d1 = "d\<lparr>s_inst := inst, s_replay := seq\<rparr>"
  have r1: "R d ?d1" by simp
  show ?thesis
  proof (cases "out_res out = 0")
    case False
    with p go ms obtain e where "start_ack os e ?t0 ?d1 = Ret (r, d')" by (auto simp: process_msg_start_def)
    with r1 trans start_ack_to show ?thesis by blast
  next
    case True
    from p go ms True obtain r2 d2 where prep: "prepare_profiling os ?d1 = Ret (r2, d2)"
      by (auto simp: process_msg_start_def rbind_Ret_iff Let_def)
    have r2: "R d d2" using trans [OF r1 prepare_profiling_to [OF prep]] m go by simp
    obtain r3 d3 where tr: "start_transfer os d2 = (r3, d3)" by fastforce
    have r3: "R d d3" using trans [OF r2 start_transfer_to [OF tr]] .
    let ?m = "case out_msg out of Some m \<Rightarrow> m | None \<Rightarrow> []" and ?t1 = "get_serialized_time os d3"
    obtain r4 d4 where io: "ioctl_send_msg os ?m d3 = (r4, d4)" by fastforce
    have r4: "R d d4" using ioctl_to [OF r3, of os ?m] io by simp
    obtain r5 d5 where sp: "start_profiling os (d4\<lparr>s_running := True\<rparr>) = (r5, d5)" by fastforce
    have r5: "R d d5" using trans [OF _ start_profiling_to [OF sp]] r4 by simp
    from p go ms True prep tr io sp consider e t where "start_ack os e t d2 = Ret (r, d')"
      | e t where "start_ack os e t d3 = Ret (r, d')" | e t where "start_ack os e t d4 = Ret (r, d')"
      | e t where "start_ack os e t d5 = Ret (r, d')"
      | e d6 e2 t d7 where "stop_all os d5 = Ret (e, d6)" "start_ack os e2 t d7 = Ret (r, d')"
        "d7 = d6 \<or> d7 = write_msg_error os (cstr ''Stop failed'') d6"
      by (auto simp: process_msg_start_def rbind_Ret_iff Let_def split: if_splits)
    then show ?thesis
    proof cases
      case 5
      have "R d d6" using trans [OF r5 stop_all_to [OF 5(1)]] .
      then have "R d d7" using 5(3) by auto
      then show ?thesis using trans start_ack_to [OF 5(2)] by blast
    qed (use r2 r3 r4 r5 trans start_ack_to in blast)+
  qed
qed

lemma handle_stop_to:
  assumes "handle_stop os msg d = Ret (r, d')"
  shows "R d d'"
proof -
  from assms obtain q d1 e d2 where a: "send_ack os (msg_id msg) ERR_NO 0 d = Ret (q, d1)"
    and s: "stop_all os d1 = Ret (e, d2)"
    and d': "d' = (if e \<noteq> ERR_NO then write_msg_error os (cstr ''Stop failed'') d2 else d2)"
    by (auto simp: handle_stop_def rbind_Ret_iff)
  from trans [OF send_ack_to [OF a] stop_all_to [OF s]] d' show ?thesis by simp
qed

lemma handle_config_to:
  assumes r: "handle_config os msg d = Ret (r, d')"
  shows "R d d'"
proof (cases "parse_msg_config (init_parse_control msg)")
  case (POk c b)
  obtain q d1 where rec: "reconfigure os c d = (q, d1)" by fastforce
  note r1 = reconfigure_to [OF rec]
  show ?thesis
  proof (cases "q = 0")
    case False
    with r POk rec r1 show ?thesis by (simp add: handle_config_def)
  next
    case True
    from r POk rec True obtain m q2 d2 where io: "ioctl_send_msg os m d1 = (q2, d2)"
      and rest: "send_ack os (msg_id msg) ERR_UNKNOWN (-1) d2 = Ret (r, d')
        \<or> (\<exists>d3 q3. send_ack os (msg_id msg) ERR_NO 0 d2 = Ret (q3, d3) \<and> d' = send_option_to_all os d3)"
      by (auto simp: handle_config_def Let_def rbind_Ret_iff split: prod.splits if_splits)
    from ioctl_to [OF r1, of os m] io have r2: "R d d2" by simp
    from rest show ?thesis
    proof
      assume "\<exists>d3 q3. send_ack os (msg_id msg) ERR_NO 0 d2 = Ret (q3, d3) \<and> d' = send_option_to_all os d3"
      then obtain d3 where "R d2 d3" "R d3 d'"
        by (auto dest: send_ack_to simp: send_option_to_all_def Let_def send_all_to)
      with r2 trans show ?thesis by blast
    qed (use r2 trans send_ack_to in blast)
  qed
qed (use r in \<open>auto simp: handle_config_def dest: send_ack_to\<close>)

lemma apply_inst_to: "apply_inst os q d = Ret (out, d') \<Longrightarrow> R d d'"
  using trans [of d "d\<lparr>s_inst := fst q\<rparr>" d']
  by (auto simp: apply_inst_def rbind_Ret_iff Let_def split: if_splits dest: send_maps_all_to)

lemma inst_requests_to:
  assumes "handle_inst_add os msg d = Ret (r, d') \<or> handle_inst_remove os msg d = Ret (r, d')"
  shows "R d d'"
proof -
  from assms obtain st out d1 where a: "apply_inst os st d = Ret (out, d1)"
    and rest: "(\<exists>i e. exit_ack os i e d1 = Ret (r, d'))
      \<or> (\<exists>m q d2 i e. ioctl_send_msg os m d1 = (q, d2) \<and> exit_ack os i e d2 = Ret (r, d'))"
    by (auto simp: handle_inst_add_def handle_inst_remove_def rbind_Ret_iff Let_def
        split: if_splits option.splits prod.splits) blast+
  note r1 = apply_inst_to [OF a]
  from rest show ?thesis
  proof
    assume "\<exists>m q d2 i e. ioctl_send_msg os m d1 = (q, d2) \<and> exit_ack os i e d2 = Ret (r, d')"
    then obtain m q d2 i e where m: "ioctl_send_msg os m d1 = (q, d2)" "exit_ack os i e d2 = Ret (r, d')" by blast
    from ioctl_to [OF r1, of os m] m(1) have "R d d2" by simp
    then show ?thesis using trans exit_ack_to [OF m(2)] by blast
  qed (use r1 trans exit_ack_to in blast)
qed

lemma cmd_lines_to: "R d (snd (cmd_lines os pids d))"
proof (induction pids arbitrary: d)
  case (Cons p pids)
  have "R d (snd (get_process_cmd_line os p d))" by (simp add: get_process_cmd_line_def Let_def sys_def)
  with Cons show ?case by (auto split: prod.split) (metis trans snd_conv)
qed simp

lemma add_info_to:
  assumes "process_msg_get_process_add_info os b d = Ret (r, d')"
  shows "R d d'"
proof -
  from assms obtain pids e pl r2 where
    "sendACKToHost os (msg_val NMSG_GET_PROCESS_ADD_INFO) e pl (snd (cmd_lines os pids d)) = Ret (r2, d')"
    by (auto simp: process_msg_get_process_add_info_def add_info_fail_def rbind_Ret_iff Let_def
        split: pres.splits if_splits prod.splits) (metis snd_conv)+
  with cmd_lines_to trans ack_to show ?thesis by blast
qed

lemma binary_info_to: "process_msg_binary_info os b d = Ret (r, d') \<Longrightarrow> R d d'"
  by (auto simp: process_msg_binary_info_def rbind_Ret_iff split: pres.splits if_splits)
    (metis send_reply_to snd_conv)

lemma host_message_to:
  assumes r: "host_message_handler os fti msg d = Ret (r, d')" and m: "s_running d \<or> may Sys_stat_prepare"
  shows "R d d'"
proof -
  have info: "R d d'" if "handle_target_info os fti msg d = Ret (r, d')"
    using that send_reply_to by (auto simp: handle_target_info_def dest: send_ack_to split: option.splits if_splits)
  have shot: "R d d'" if "process_msg_get_screenshot os d = (r, d')"
    using that send_all_to [of d os "target_msg MSG_CAPTURE_SCREEN []" 0]
    by (simp add: process_msg_get_screenshot_def Let_def split: prod.splits)
  from r show ?thesis
    unfolding host_message_handler_def Let_def
    by (auto split: if_splits intro: inst_requests_to handle_config_to handle_stop_to info shot
        dest: binary_info_to add_info_to exit_ack_to send_ack_to process_msg_start_to [OF _ m])
qed

section \<open>Callbacks\<close>

lemma recv_at_to:
  assumes "\<And>n. may (Recv sock n)"
  shows "recv_at os sock off n lg d = Ret (r, lg', d') \<Longrightarrow> R d d'"
  using assms by (auto simp: recv_at_def Let_def sys_def rbind_Ret_iff split: if_splits)

lemma recv_msg_to:
  assumes "\<And>n. may (Recv sock n)" "recv_msg_from_sock os sock lg d = Ret (r, lg', d')"
  shows "R d d'"
  using assms(2) by (auto simp: recv_msg_from_sock_def Let_def rbind_Ret_iff dest!: recv_at_to [OF assms(1)]
      split: if_splits) (blast intro: trans)+

lemma recv_step_to:
  assumes "\<And>n. may (Recv (t_socket (target_get i d)) n)" "recv_step os i lg pass d = Ret r"
  shows "R d (out_state r)"
proof -
  from assms(2) obtain err lg1 d1 where m: "recv_msg_from_sock os (t_socket (target_get i d)) lg d = Ret (err, lg1, d1)"
    by (auto simp: recv_step_def rbind_Ret_iff)
  note r1 = recv_msg_to [OF assms(1) m]
  have pid: "R d1 (out_state q)" if "handle_pid os i lg2 pass d1 = Ret q" for lg2 q
  proof -
    have "R d1 d2" if "send_maps_inst_msg_to os i (send_event i v (upd_target i f d1)) = Ret d2" for v f d2
    proof -
      have "R d1 (send_event i v (upd_target i f d1))" by (simp add: send_event_def)
      from trans [OF this send_maps_to [OF that]] show ?thesis .
    qed
    with that show ?thesis
      by (auto simp: handle_pid_def rbind_Ret_iff Let_def send_event_def split: if_splits option.splits
          dest: send_maps_to)
  qed
  have image: "R d1 (out_state q)" if "handle_image os lg2 pass d1 = Ret q" for lg2 q
    using that by (auto simp: handle_image_def chsmack_def sys_def rbind_Ret_iff Let_def split: if_splits)
  from assms(2) m have "R d1 (out_state r)"
    by (auto simp: recv_step_def rbind_Ret_iff Let_def send_event_def split: if_splits intro: pid image)
  with trans [OF r1] show ?thesis .
qed

lemma connect_timer_to [simp]: "R d d' \<Longrightarrow> R d (close_connect_timer d')"
  by (simp add: close_connect_timer_def)

lemma recv_blocks_to: "(\<And>n. may (Recv fd n)) \<Longrightarrow> R d (snd (recv_blocks os fd k d))"
proof (induction k arbitrary: d)
  case (Suc k)
  have "R d (emit (Recv fd 512) d)" using Suc.prems by simp
  from trans [OF this Suc.IH [OF Suc.prems]] Suc.prems show ?case by (simp add: sys_def Let_def)
qed simp

lemma recv_tail_to: "(\<And>n. may (Recv fd n)) \<Longrightarrow> R d (recv_msg_tail os fd len d)"
  using recv_blocks_to [of fd d os "unat (len div 512)"]
  by (auto simp: recv_msg_tail_def Let_def split: prod.split)

lemma control_message_to:
  assumes "\<And>n. may (Recv (m_control_socket d) n)" "s_running d \<or> may Sys_stat_prepare"
    and r: "control_message os fti ident len d = Ret (r, d')"
  shows "R d d'"
proof -
  have ack: "R d d'" if "send_ack os i e q (recv_msg_tail os (m_control_socket d) len d) = Ret (r, d')" for i e q
    using trans [OF recv_tail_to [OF assms(1)] send_ack_to [OF that]] .
  have msg: "R d d'" if "host_message_handler os fti m (emit (Recv (m_control_socket d) k) d) = Ret (r, d')" for m k
    using trans [OF _ host_message_to [OF that]] assms(1,2) by simp
  from r show ?thesis
    unfolding control_message_def Let_def sys_def
    by (auto split: if_splits simp: assms(1) intro: ack msg host_message_to [OF _ assms(2)])
qed

lemma host_ctrl_to:
  assumes "\<And>n. may (Recv (m_control_socket d) n)" "s_running d \<or> may Sys_stat_prepare"
    and r: "host_ctrl_cb os fti stack d = Ret d'"
  shows "R d d'"
proof -
  define d1 where "d1 = (if m_connect_timerfd d \<ge> 0 then close_connect_timer d else d)"
  have d1: "R d d1" "m_control_socket d1 = m_control_socket d" "s_running d1 = s_running d"
    by (simp_all add: d1_def close_connect_timer_def)
  let ?d2 = "emit (Recv (m_control_socket d1) 8) d1"
  have d2: "R d ?d2" using d1 assms(1) by simp
  have "R d d3" if "control_message os fti i l ?d2 = Ret (q, d3)" for i l q d3
    using trans [OF d2 control_message_to [OF _ _ that]] assms(1,2) d1 by simp
  with r d2 show ?thesis
    unfolding host_ctrl_cb_def controlSocketHandler_def Let_def sys_def d1_def [symmetric]
    by (auto simp: rbind_Ret_iff split: if_splits)
qed

section \<open>Targets\<close>

lemma terminate_error_to: "terminate_error os msg h d = Ret d' \<Longrightarrow> R d d'"
  using trans [OF write_msg_error_to [OF refl] terminate_all_to]
  by (auto simp: terminate_error_def intro: terminate_all_to split: if_splits)

lemma connect_cb_to: "connect_timer_cb os d = Ret d' \<Longrightarrow> R d d'"
  by (auto simp: connect_timer_cb_def rbind_Ret_iff dest: terminate_error_to)

lemma set_type_to: "R d (target_set_type os i d)"
  by (simp add: target_set_type_def get_lpad_pid_def Let_def sys_def)

lemma find_app_to: "find_app os pid apps d = Ret (r, d') \<Longrightarrow> R d d'"
proof (induction apps arbitrary: d)
  case (Cons a apps)
  have "R x x'" if "is_same_app_process os p pid x = Ret (q, x')" for p x q x'
    using that by (auto simp: is_same_app_process_def rbind_Ret_iff Let_def sys_def split: if_splits)
  with Cons show ?case by (auto simp: rbind_Ret_iff split: if_splits) (meson trans)
qed simp

lemma event_pid_to:
  assumes "target_event_pid_handler os i d = Ret (r, d')"
  shows "R d d'"
proof -
  let ?d = "target_set_type os i d"
  from assms consider "d' = ?d"
    | f where "find_app os (t_pid (target_get i ?d)) (session_apps ?d) ?d = Ret (f, d')"
    | d2 r3 d3 where "find_app os (t_pid (target_get i ?d)) (session_apps ?d) ?d = Ret (True, d2)"
        "start_replay os d2 = (r3, d3)" "d' = d3 \<or> d' = upd_target i (\<lambda>t. t\<lparr>t_initial_log := True\<rparr>) d3"
    by (auto simp: target_event_pid_handler_def Let_def rbind_Ret_iff split: if_splits prod.splits)
  then show ?thesis
  proof cases
    case 3
    have "R d d3" using trans [OF set_type_to trans [OF find_app_to start_replay_to]] 3(1,2) by blast
    with 3(3) show ?thesis by auto
  qed (use trans [OF set_type_to find_app_to] set_type_to in blast)+
qed

lemma target_dtor_to: "target_dtor i d = Ret d' \<Longrightarrow> R d d'"
  by (auto simp: target_dtor_def Let_def split: if_splits)

lemma event_stop_to:
  assumes "target_event_stop_handler os i d = Ret (r, d')"
  shows "R d d'"
proof -
  let ?d = "emit (Fd_handler_del (t_event_fd (target_get i d))) d"
  from assms obtain q d1 d2 where w: "target_wait os i ?d = Ret (q, d1)" and dt: "target_dtor i d1 = Ret d2"
    and rest: "(\<exists>p. stop_all os (d2\<lparr>tg_cnt := tg_cnt d2 - 1\<rparr>) = Ret (p, d'))
      \<or> d' = d2\<lparr>tg_cnt := tg_cnt d2 - 1\<rparr>"
    by (auto simp: target_event_stop_handler_def Let_def rbind_Ret_iff target_cnt_sub_and_fetch_def split: if_splits)
  have "R d ?d" by simp
  from trans [OF this trans [OF target_wait_to [OF w] target_dtor_to [OF dt]]]
  have "R d (d2\<lparr>tg_cnt := tg_cnt d2 - 1\<rparr>)" by simp
  with rest show ?thesis using trans stop_all_to by blast
qed

lemma target_event_to:
  assumes "target_event_cb os i d = Ret d'"
  shows "R d d'"
proof -
  let ?d = "emit (Event_read i) d"
  have d: "R d ?d" by simp
  have "R d d2" if h: "target_event_handler os i u ?d = Ret (q, d2)" for u q d2
  proof -
    from h obtain err d1 where
      a: "(if u AND EVENT_PID \<noteq> 0 then target_event_pid_handler os i ?d else Ret (0, ?d)) = Ret (err, d1)"
      and rest: "d2 = d1 \<or> target_event_stop_handler os i d1 = Ret (q, d2)"
      unfolding target_event_handler_def rbind_Ret_iff by (auto split: if_splits)
    have "R ?d d1" using a by (auto split: if_splits dest: event_pid_to)
    with rest have "R ?d d2" using trans event_stop_to by blast
    with d trans show ?thesis by blast
  qed
  with assms d show ?thesis
    by (auto simp: target_event_cb_def Let_def sys_def rbind_Ret_iff split: if_splits)
qed

lemma connect_fail_to: "target_connect_fail i d = Ret (r, d') \<Longrightarrow> R d d'"
  by (auto simp: target_connect_fail_def rbind_Ret_iff split: if_splits dest: target_dtor_to)

lemma connected_to [simp]: "R d d' \<Longrightarrow> R d (target_connected os d')"
  by (simp add: target_connected_def target_cnt_set_def dec_apps_to_run_def Let_def)

lemma recv_thread_to: "makeRecvThread os i d = Ret (r, d') \<Longrightarrow> R d d'"
  by (auto simp: makeRecvThread_def target_start_def thread_start_def rbind_Ret_iff Let_def sys_def
      split: option.splits if_splits)

lemma ctor_to: "target_ctor os d = (t, d') \<Longrightarrow> R d d'"
  by (auto simp: target_ctor_def Let_def split: option.splits prod.splits if_splits)

lemma target_server_to:
  assumes r: "targetServerHandler os d = Ret (r, d')"
  shows "R d d'"
proof -
  obtain t d0 where c: "target_ctor os d = (t, d0)" by fastforce
  note r0 = ctor_to [OF c]
  show ?thesis
  proof (cases t)
    case None
    with r c r0 show ?thesis by (simp add: targetServerHandler_def)
  next
    case (Some i)
    obtain err d1 where a: "target_accept os i (m_target_server_socket d0) d0 = (err, d1)" by fastforce
    have r1: "R d d1" using a r0 by (auto simp: target_accept_def sys_def Let_def split: if_splits)
    show ?thesis
    proof (cases "err = 0")
      case False
      with r c Some a have "target_connect_fail i d1 = Ret (r, d')" by (simp add: targetServerHandler_def)
      with trans [OF r1] connect_fail_to show ?thesis by blast
    next
      case True
      from r c Some a True obtain d3 where m: "send_maps_inst_msg_to os i (send_option_to os i d1) = Ret d3"
        by (auto simp: targetServerHandler_def rbind_Ret_iff Let_def)
      have "R d1 (send_option_to os i d1)" by (simp add: send_option_to_def Let_def send_target_to)
      then have r3: "R d d3" using trans [OF r1 trans [OF _ send_maps_to [OF m]]] by blast
      let ?fd = "os_ret os (trace d3) Eventfd"
      let ?d4 = "upd_target i (\<lambda>t. t\<lparr>t_event_fd := ?fd\<rparr>) (emit Eventfd d3)"
      let ?d5 = "emit (Fd_handler_add ?fd) ?d4"
      have r4: "R d ?d4" "R d ?d5" using r3 by simp_all
      from r c Some a True m consider "target_connect_fail i ?d4 = Ret (r, d')"
        | "target_connect_fail i ?d5 = Ret (r, d')"
        | q d6 where "makeRecvThread os i ?d5 = Ret (q, d6)"
          "target_connect_fail i (emit (Fd_handler_del ?fd) d6) = Ret (r, d') \<or> d' = target_connected os d6"
        by (auto simp: targetServerHandler_def rbind_Ret_iff Let_def sys_def split: prod.splits if_splits)
      then show ?thesis
      proof cases
        case 3
        have r6: "R d (emit (Fd_handler_del ?fd) d6)" "R d (target_connected os d6)"
          using trans [OF r4(2) recv_thread_to [OF 3(1)]] by simp_all
        with 3(2) show ?thesis using trans [OF r6(1)] connect_fail_to by blast
      qed (use r4 trans connect_fail_to in blast)+
    qed
  qed
qed

lemma target_connect_to:
  assumes "target_connect_cb os d = Ret d'"
  shows "R d d'"
proof -
  from assms obtain q d1 where t: "targetServerHandler os d = Ret (q, d1)"
    and rest: "d' = d1 \<or> (\<exists>msg. terminate_error os msg True d1 = Ret d')"
    by (auto simp: target_connect_cb_def rbind_Ret_iff split: if_splits)
  with trans [OF target_server_to [OF t]] target_server_to [OF t] terminate_error_to show ?thesis by blast
qed

section \<open>Input events\<close>

lemma read_events_to: "R d (snd (read_events os fd n d))"
proof (induction n arbitrary: d)
  case (Suc n)
  have "R d (emit (Read_fd fd sizeof_input_event) d)" by simp
  from trans [OF this Suc.IH] this show ?case by (auto simp: sys_def Let_def split: prod.split)
qed simp

lemma device_event_to: "R d (touch_event_cb os fd d)" "R d (key_event_cb os fd d)"
  using read_events_to [of d os fd MAX_EVENTS_NUM]
  by (auto simp: touch_event_cb_def key_event_cb_def deviceEventHandler_def Let_def split: prod.split)

lemma replay_to:
  assumes "replay_run d = Ret d'"
  shows "R d d'"
proof -
  have dw: "R x (device_write fds b y)" if "R x y" for fds b x y
    using that by (induction fds arbitrary: y) simp_all
  have "R x (fold replay_one sch y)" if "R x y" for sch x y
    using that
  proof (induction sch arbitrary: y)
    case (Cons a sch)
    then show ?case by (cases a) (simp add: write_input_event_def dw)
  qed simp
  from this [OF refl] assms show ?thesis by (auto simp: replay_run_def rbind_Ret_iff exit_replay_thread_def)
qed

end

text \<open>A relation between the calls alone holds across every step, connections of the host included.\<close>

locale call_frame = daemon_frame +
  assumes same_calls: "trace d' = trace d \<Longrightarrow> R d d'"
    and recv [simp]: "may (Recv s n)"
begin

lemma host_connect_to: "R d (host_connect_cb os d)"
proof -
  have c: "R x (y\<lparr>m_control_socket := n\<rparr>)" if "R x y" for x y n
    by (rule trans [OF that same_calls]) simp
  show ?thesis by (simp add: host_connect_cb_def hostServerHandler_def sys_def Let_def c)
qed

lemma daemon_step_to:
  assumes "daemon_step os fti e d = Ret d'" "s_running d \<or> may Sys_stat_prepare"
  shows "R d d'"
proof (cases e)
  case (Callback c)
  with assms(1) have "run_callback os fti c d = Ret d'" by (simp add: daemon_step_def)
  then show ?thesis
  proof (cases c)
    case (Host_ctrl stack)
    with \<open>run_callback os fti c d = Ret d'\<close> host_ctrl_to [OF recv assms(2)] show ?thesis
      by (simp add: run_callback_def)
  qed (auto simp: run_callback_def host_connect_to host_data_cb_def sys_def Let_def launch_timer_cb_def
      device_event_to intro: target_connect_to target_event_to connect_cb_to)
next
  case (Message i lg pass)
  with assms(1) show ?thesis by (auto simp: daemon_step_def rbind_Ret_iff intro: recv_step_to)
next
  case Replay_done
  with assms(1) show ?thesis by (simp add: daemon_step_def replay_to)
qed

end

section \<open>What was called\<close>

text \<open>\<open>calls_only A d d'\<close>: from \<open>d\<close> to \<open>d'\<close> only calls of \<open>A\<close> were made.\<close>

definition calls_only :: "(io \<Rightarrow> bool) \<Rightarrow> da_t \<Rightarrow> da_t \<Rightarrow> bool" where
  "calls_only A d d' \<longleftrightarrow> (\<exists>es. trace d' = trace d @ es \<and> list_all A es)"

lemma calls_only_since: "calls_only A d d' \<longleftrightarrow> trace d' = trace d @ since d d' \<and> list_all A (since d d')"
  by (auto simp: calls_only_def since_def)

lemma calls_only_trans: "calls_only A d d' \<Longrightarrow> calls_only A d' d'' \<Longrightarrow> calls_only A d d''"
  by (auto simp: calls_only_def)

lemma calls_only_emit: "A e \<Longrightarrow> calls_only A d (emit e d)"
  by (auto simp: calls_only_def)

text \<open>The two calls that operations can leave out.\<close>

fun is_recv :: "io \<Rightarrow> bool" where
  "is_recv (Recv s n) = True"
| "is_recv e = False"

definition not_heard :: "da_t \<Rightarrow> da_t \<Rightarrow> bool" where
  "not_heard d d' \<longleftrightarrow> m_control_socket d' = m_control_socket d \<and> calls_only (\<lambda>e. \<not> is_recv e) d d'"

interpretation prepares: call_frame "calls_only (\<lambda>e. e \<noteq> Sys_stat_prepare)" "\<lambda>e. e \<noteq> Sys_stat_prepare"
proof unfold_locales
  fix d d' :: da_t
  assume "trace d' = trace d"
  then show "calls_only (\<lambda>e. e \<noteq> Sys_stat_prepare) d d'" by (simp add: calls_only_def)
next
  fix d d' :: da_t
  assume "trace d' = trace d"
  then show "calls_only (\<lambda>e. e \<noteq> Sys_stat_prepare) d d'" by (simp add: calls_only_def)
qed (auto simp: calls_only_emit calls_only_def)

interpretation hears: daemon_frame not_heard "\<lambda>e. \<not> is_recv e"
proof unfold_locales
  fix e :: io
  assume "\<forall>s n. e \<noteq> Recv s n"
  then show "\<not> is_recv e" by (cases e) auto
qed (auto simp: not_heard_def calls_only_emit calls_only_def)

section \<open>Properties\<close>



end
