(* ===== verification/Host_Stream.thy ===== *)
theory Host_Stream
  imports Daemon_Frame
begin

text \<open>
  The requests of a host as the bytes of its connection: the control socket delivers a stream, the
  daemon (\<^verbatim>\<open>controlSocketHandler\<close> and \<^verbatim>\<open>recv_msg_tail\<close> in \<^verbatim>\<open>daemon/daemon.c\<close>) cuts it into requests.
\<close>

section \<open>The stream\<close>

text \<open>
  The bytes that were asked for on a socket, and a system whose socket delivers the bytes \<open>bs\<close> and then
  its end. A read gives what it asks for as long as there is that much.
\<close>

definition received :: "int \<Rightarrow> io list \<Rightarrow> nat" where
  "received c es = (\<Sum>e\<leftarrow>es. case e of Recv s n \<Rightarrow> if s = c then n else 0 | _ \<Rightarrow> 0)"

definition streams :: "os_t \<Rightarrow> int \<Rightarrow> bytes \<Rightarrow> bool" where
  "streams os c bs \<longleftrightarrow>
     (\<forall>es n. os_bytes os es (Recv c n) = take n (drop (received c es) bs)
        \<and> os_ret os es (Recv c n) = int (length (take n (drop (received c es) bs))))"

type_synonym request = "u32 \<times> bytes"

fun request_bytes :: "request \<Rightarrow> bytes" where
  "request_bytes (ident, pl) = le32 ident @ le32 (of_nat (length pl)) @ pl"

definition requests_bytes :: "request list \<Rightarrow> bytes" where
  "requests_bytes ms = concat (map request_bytes ms)"

section \<open>What the daemon does with the requests\<close>

text \<open>
  The reference: one request after the other. A request that is too long, or that finds no memory, is
  read in pieces of 512 bytes and refused.
\<close>

definition skip_reads :: "int \<Rightarrow> nat \<Rightarrow> io list" where
  "skip_reads c n = replicate (n div 512) (Recv c 512) @ (if n mod 512 = 0 then [] else [Recv c (n mod 512)])"

definition timer_closed :: "da_t \<Rightarrow> da_t" where
  "timer_closed d = (if m_connect_timerfd d \<ge> 0 then close_connect_timer d else d)"

definition loop_result :: "int \<times> da_t \<Rightarrow> da_t run" where
  "loop_result = (\<lambda>(result, d). Ret (if result = -11 then emit Loop_quit (d\<lparr>m_data_socket := -1\<rparr>) else d))"

fun do_request :: "os_t \<Rightarrow> (io list \<Rightarrow> target_info_t) \<Rightarrow> request \<Rightarrow> da_t \<Rightarrow> da_t run" where
  "do_request os fti (ident, pl) d =
     (let c = m_control_socket d; len = of_nat (length pl) :: u32; d = emit (Recv c 8) (timer_closed d) in
      rbind
        (if len > HOST_CTL_MSG_MAX_LEN \<or> \<not> os_malloc os (8 + len)
         then send_ack os ident ERR_WRONG_MESSAGE_FORMAT (-1) (d\<lparr>trace := trace d @ skip_reads c (length pl)\<rparr>)
         else host_message_handler os fti \<lparr>msg_id = ident, msg_len = len, msg_payload = pl\<rparr>
                (if pl = [] then d else emit (Recv c (length pl)) d))
        loop_result)"

text \<open>The end of the stream ends the loop.\<close>

definition host_gone :: "da_t \<Rightarrow> da_t" where
  "host_gone d = emit Loop_quit ((emit (Recv (m_control_socket d) 8) (timer_closed d))\<lparr>m_data_socket := -1\<rparr>)"

primrec do_requests :: "os_t \<Rightarrow> (io list \<Rightarrow> target_info_t) \<Rightarrow> request list \<Rightarrow> da_t \<Rightarrow> da_t run" where
  "do_requests os fti [] d = Ret (host_gone d)"
| "do_requests os fti (m # ms) d =
     rbind (do_request os fti m d) (\<lambda>d.
       if Loop_quit \<in> set (trace d) then Ret d else do_requests os fti ms d)"

section \<open>Cutting the stream\<close>

lemma received_simps [simp]:
  "received c [] = 0" "received c (es @ fs) = received c es + received c fs"
  "received c (Recv s n # es) = (if s = c then n else 0) + received c es"
  by (simp_all add: received_def)

lemma received_quiet: "list_all (\<lambda>e. \<not> is_recv e) es \<Longrightarrow> received c es = 0"
  by (induction es) (auto simp: received_def split: io.splits)

lemma not_heard_received: "not_heard d d' \<Longrightarrow> received c (trace d') = received c (trace d)"
  by (auto simp: not_heard_def calls_only_def received_quiet)

lemma length_skip: "received c (skip_reads c n) = n"
proof -
  have "received c (replicate k (Recv c 512)) = k * 512" for k
    by (induction k) (simp_all add: received_def)
  then show ?thesis using div_mult_mod_eq [of n 512] by (cases "n mod 512 = 0") (simp_all add: skip_reads_def)
qed

lemma timer_closed_simps [simp]:
  "m_control_socket (timer_closed d) = m_control_socket d" "received c (trace (timer_closed d)) = received c (trace d)"
  by (simp_all add: timer_closed_def close_connect_timer_def) (simp add: received_def)

lemma streams_read:
  assumes "streams os c bs" "drop (received c es) bs = x @ y" "length x = n"
  shows "os_bytes os es (Recv c n) = x" "os_ret os es (Recv c n) = int n"
proof -
  have t: "take n (drop (received c es) bs) = x" using assms(2,3) by simp
  from assms(1) have "os_bytes os es (Recv c n) = x" "os_ret os es (Recv c n) = int (length x)"
    unfolding streams_def t [symmetric] by blast+
  with assms(3) show "os_bytes os es (Recv c n) = x" "os_ret os es (Recv c n) = int n" by simp_all
qed

lemma emit_trace: "emit e d = d\<lparr>trace := trace d @ [e]\<rparr>"
  by (simp add: emit_def)

lemma blocks_stream:
  assumes "streams os c bs"
  shows "drop (received c (trace d)) bs = x @ y \<Longrightarrow> length x = 512 * k \<Longrightarrow>
    recv_blocks os c k d = (True, d\<lparr>trace := trace d @ replicate k (Recv c 512)\<rparr>)"
proof (induction k arbitrary: d x)
  case (Suc k)
  let ?d = "emit (Recv c 512) d"
  have "drop (received c (trace d)) bs = take 512 x @ (drop 512 x @ y)" "length (take 512 x) = 512"
    using Suc.prems by simp_all
  note ret = streams_read(2) [OF assms this]
  have "drop (received c (trace ?d)) bs = drop 512 (drop (received c (trace d)) bs)"
    by (simp add: add.commute)
  also have "\<dots> = drop 512 x @ y" using Suc.prems by simp
  finally have d: "drop (received c (trace ?d)) bs = drop 512 x @ y" .
  have "length (drop 512 x) = 512 * k" using Suc.prems(2) unfolding length_drop mult_Suc_right by linarith
  from Suc.IH [OF d this] have "recv_blocks os c k ?d = (True, ?d\<lparr>trace := trace ?d @ replicate k (Recv c 512)\<rparr>)" .
  with ret show ?case by (simp add: sys_def emit_def)
qed simp

lemma tail_stream:
  assumes s: "streams os c bs" and d: "drop (received c (trace d)) bs = pl @ y" and l: "length pl < 2 ^ 32"
  shows "recv_msg_tail os c (of_nat (length pl)) d = d\<lparr>trace := trace d @ skip_reads c (length pl)\<rparr>"
proof -
  let ?n = "length pl" and ?k = "length pl div 512"
  have u: "unat ((of_nat ?n :: u32) div 512) = ?k" "unat ((of_nat ?n :: u32) mod 512) = ?n mod 512"
    using l by (simp_all add: unat_div unat_mod unat_of_nat_small)
  then have z: "(of_nat ?n :: u32) mod 512 = 0 \<longleftrightarrow> ?n mod 512 = 0" by (metis unat_eq_zero)
  have "drop (received c (trace d)) bs = take (512 * ?k) pl @ (drop (512 * ?k) pl @ y)" using d by simp
  moreover have "length (take (512 * ?k) pl) = 512 * ?k" by simp
  ultimately have "recv_blocks os c ?k d = (True, d\<lparr>trace := trace d @ replicate ?k (Recv c 512)\<rparr>)"
    by (rule blocks_stream [OF s])
  then show ?thesis using u z by (simp add: recv_msg_tail_def skip_reads_def emit_def)
qed

section \<open>One request\<close>

lemma control_message_stream:
  assumes s: "streams os c bs" and c: "m_control_socket d = c" and d: "drop (received c (trace d)) bs = pl @ y"
    and l: "length pl < 2 ^ 32"
  shows "control_message os fti ident (of_nat (length pl)) d =
    (if of_nat (length pl) > HOST_CTL_MSG_MAX_LEN \<or> \<not> os_malloc os (8 + of_nat (length pl))
     then send_ack os ident ERR_WRONG_MESSAGE_FORMAT (-1) (d\<lparr>trace := trace d @ skip_reads c (length pl)\<rparr>)
     else host_message_handler os fti \<lparr>msg_id = ident, msg_len = of_nat (length pl), msg_payload = pl\<rparr>
            (if pl = [] then d else emit (Recv c (length pl)) d))"
proof -
  have u: "unat (of_nat (length pl) :: u32) = length pl" using l by (simp add: unat_of_nat_small)
  then have p: "0 < (of_nat (length pl) :: u32) \<longleftrightarrow> pl \<noteq> []" by (metis length_0_conv unat_eq_zero word_gt_0)
  note read = streams_read [OF s d]
  show ?thesis
    using c p u read [of "length pl"] tail_stream [OF s d l] by (auto simp: control_message_def sys_def Let_def)
qed

lemma do_request_stream:
  assumes s: "streams os c bs" and c: "m_control_socket d = c" and l: "length (snd m) < 2 ^ 32"
    and d: "drop (received c (trace d)) bs = request_bytes m @ y" and stack: "length stack = 8"
  shows "host_ctrl_cb os fti stack d = do_request os fti m d"
proof -
  obtain ident pl where m: "m = (ident, pl)" by (cases m)
  let ?d1 = "timer_closed d" and ?h = "le32 ident @ le32 (of_nat (length pl))"
  let ?d2 = "emit (Recv c 8) ?d1"
  have d1: "drop (received c (trace ?d1)) bs = ?h @ (pl @ y)" using d m by simp
  note read = streams_read [OF s d1, of 8]
  have "drop (received c (trace ?d2)) bs = drop 8 (drop (received c (trace ?d1)) bs)" by (simp add: add.commute)
  also have "\<dots> = pl @ y" unfolding d1 by simp
  finally have d2: "drop (received c (trace ?d2)) bs = pl @ y" .
  have "mem_put 0 ?h stack = ?h" using stack by (simp add: mem_put_def)
  moreover have "length pl < 2 ^ 32" using l m by simp
  ultimately show ?thesis
    using control_message_stream [OF s _ d2, of fti ident] read c
    by (simp add: host_ctrl_cb_def controlSocketHandler_def Let_def sys_def m loop_result_def
        timer_closed_def [symmetric])
qed

lemma do_request_reads:
  assumes r: "do_request os fti m d = Ret d'" and c: "m_control_socket d = c"
  shows "m_control_socket d' = c" and "received c (trace d') = received c (trace d) + length (request_bytes m)"
proof -
  obtain ident pl where m: "m = (ident, pl)" by (cases m)
  let ?d = "emit (Recv c 8) (timer_closed d)"
  let ?skip = "?d\<lparr>trace := trace ?d @ skip_reads c (length pl)\<rparr>"
  let ?got = "if pl = [] then ?d else emit (Recv c (length pl)) ?d"
  from r c obtain v where v: "loop_result v = Ret d'" and
    h: "send_ack os ident ERR_WRONG_MESSAGE_FORMAT (-1) ?skip = Ret v
      \<or> host_message_handler os fti \<lparr>msg_id = ident, msg_len = of_nat (length pl), msg_payload = pl\<rparr> ?got = Ret v"
    by (auto simp: m Let_def rbind_Ret_iff split: if_splits)
  obtain q d1 where q: "v = (q, d1)" by (cases v)
  have "\<exists>x \<in> {?skip, ?got}. not_heard x d1"
    using h
  proof
    assume "send_ack os ident ERR_WRONG_MESSAGE_FORMAT (-1) ?skip = Ret v"
    from hears.send_ack_to [OF this [unfolded q]] show ?thesis by blast
  next
    assume "host_message_handler os fti \<lparr>msg_id = ident, msg_len = of_nat (length pl), msg_payload = pl\<rparr> ?got = Ret v"
    from hears.host_message_to [OF this [unfolded q]] show ?thesis by simp
  qed
  then obtain x where x: "x \<in> {?skip, ?got}" "not_heard x d1" by blast
  have "m_control_socket x = c \<and> received c (trace x) = received c (trace d) + (8 + length pl)"
    using x(1) c by (cases "pl = []") (auto simp: length_skip)
  then have "m_control_socket d1 = c \<and> received c (trace d1) = received c (trace d) + (8 + length pl)"
    using not_heard_received [OF x(2), of c] x(2) by (simp add: not_heard_def)
  moreover have "m_control_socket d' = m_control_socket d1 \<and> received c (trace d') = received c (trace d1)"
    using v unfolding q loop_result_def by (auto simp: received_def)
  ultimately show "m_control_socket d' = c" "received c (trace d') = received c (trace d) + length (request_bytes m)"
    by (simp_all add: m)
qed

lemma host_gone_stream:
  assumes s: "streams os c bs" and c: "m_control_socket d = c" and d: "drop (received c (trace d)) bs = []"
  shows "host_ctrl_cb os fti stack d = Ret (host_gone d)"
proof -
  have "os_ret os (trace (timer_closed d)) (Recv c 8) = 0" using s d by (simp add: streams_def)
  then show ?thesis using c
    by (simp add: host_ctrl_cb_def controlSocketHandler_def Let_def sys_def host_gone_def timer_closed_def [symmetric])
qed

section \<open>Properties\<close>

text \<open>
  C4. The requests of the host are taken from its connection one by one: whatever the stream of bytes
  holds that the requests of a list make up, the loop does what the reference does with that list, until one of
  them ends it or the stream is over. No request is lost, split or read twice, whatever
  a handler does in between and whatever was on the stack before; one that is too long is skipped as a whole. This
  rests on reads giving all they ask for: the header is received without \<^verbatim>\<open>MSG_WAITALL\<close>.
\<close>

theorem control_stream:
  assumes "streams os c bs" "m_control_socket d = c" "drop (received c (trace d)) bs = requests_bytes ms"
    and "\<forall>m \<in> set ms. length (snd m) < 2 ^ 32"
    and "length stacks = Suc (length ms)" "\<forall>stack \<in> set stacks. length stack = 8"
  shows "main_loop os fti (map Host_ctrl stacks) d = do_requests os fti ms d"
  using assms(2-)
proof (induction ms arbitrary: d stacks)
  case Nil
  then obtain stack where "stacks = [stack]" by (auto simp: length_Suc_conv)
  with Nil host_gone_stream [OF assms(1) Nil(1), of fti stack] show ?case
    by (simp add: run_callback_def requests_bytes_def host_gone_def)
next
  case (Cons m ms)
  then obtain stack rest where st: "stacks = stack # rest" "length rest = Suc (length ms)" by (auto simp: length_Suc_conv)
  have d: "drop (received c (trace d)) bs = request_bytes m @ requests_bytes ms"
    using Cons.prems(2) by (simp add: requests_bytes_def)
  have one: "host_ctrl_cb os fti stack d = do_request os fti m d"
    using do_request_stream [OF assms(1) Cons.prems(1) _ d] Cons.prems(3,5) st by simp
  have "main_loop os fti (map Host_ctrl rest) d' = do_requests os fti ms d'" if r: "do_request os fti m d = Ret d'" for d'
  proof -
    note n = do_request_reads [OF r Cons.prems(1)]
    have "drop (received c (trace d')) bs = drop (length (request_bytes m)) (drop (received c (trace d)) bs)"
      using n(2) by (simp add: add.commute)
    then have "drop (received c (trace d')) bs = requests_bytes ms" unfolding d by simp
    with Cons.IH [OF n(1)] Cons.prems st show ?thesis by simp
  qed
  then show ?case using one st
    by (cases "do_request os fti m d") (simp_all add: run_callback_def)
qed

text \<open>A host that asks twice whether the daemon is alive and hangs up.\<close>

definition stream_os :: "int \<Rightarrow> bytes \<Rightarrow> os_t" where
  "stream_os c bs = (sample_os 0)
     \<lparr>os_ret := \<lambda>es e. (case e of Recv s n \<Rightarrow> if s = c then int (length (take n (drop (received c es) bs))) else 0 | _ \<Rightarrow> 0),
      os_bytes := \<lambda>es e. (case e of Recv s n \<Rightarrow> if s = c then take n (drop (received c es) bs) else [] | _ \<Rightarrow> [])\<rparr>"

lemma stream_os_streams: "streams (stream_os c bs) c bs"
  by (simp add: streams_def stream_os_def)

theorem control_stream_witness:
  "\<exists>d'. main_loop (stream_os 3 (requests_bytes [(1, []), (1, [])])) (\<lambda>_. sample_target_info)
         (map Host_ctrl (replicate 3 (replicate 8 7))) (manager0\<lparr>m_control_socket := 3\<rparr>) = Ret d'
       \<and> trace d' = [Recv 3 8, Send 3 (ack_msg (msg_val NMSG_KEEP_ALIVE_ACK) 0 []),
                     Recv 3 8, Send 3 (ack_msg (msg_val NMSG_KEEP_ALIVE_ACK) 0 []), Recv 3 8, Loop_quit]"
proof -
  let ?d = "manager0\<lparr>m_control_socket := 3\<rparr>" and ?ms = "[(1, []), (1, [])] :: request list"
  let ?os = "stream_os 3 (requests_bytes ?ms)"
  have k: "get_ack_msg_id 1 = Some (msg_val NMSG_KEEP_ALIVE_ACK)" by (simp add: get_ack_msg_id_def)
  have one: "do_request ?os fti (1, []) d = Ret (emit (Send 3 (ack_msg (msg_val NMSG_KEEP_ALIVE_ACK) 0 [])) (emit (Recv 3 8) d))"
    if "m_control_socket d = 3" "m_connect_timerfd d < 0" for d fti
    using that k by (simp add: timer_closed_def host_message_handler_def send_ack_known loop_result_def
        HOST_CTL_MSG_MAX_LEN_def stream_os_def)
  have "main_loop ?os (\<lambda>_. sample_target_info) (map Host_ctrl (replicate 3 (replicate 8 7))) ?d
      = do_requests ?os (\<lambda>_. sample_target_info) ?ms ?d"
    by (rule control_stream [OF stream_os_streams]) (simp_all add: manager0_def)
  moreover have "m_connect_timerfd ?d < 0" "trace ?d = []" by (simp_all add: manager0_def)
  ultimately show ?thesis by (simp add: one host_gone_def timer_closed_def del: do_request.simps)
qed

end
