(* ===== verification/Meminfo_Race.thy ===== *)
theory Meminfo_Race
  imports Sys_Stat
begin

text \<open>
  Two threads on one open file. The main loop (\<^verbatim>\<open>get_system_total_memory\<close>, for a request for target information) and
  the sampling thread (\<^verbatim>\<open>update_system_memory_data\<close>, \<^verbatim>\<open>daemon/sys_stat.c\<close>) read \<^verbatim>\<open>/proc/meminfo\<close> through the
  same descriptor, \<^verbatim>\<open>manager.fd.procmeminfo\<close>: each sets the offset to the start and reads from it. They share the
  offset, and no mutex guards the two calls. \<open>Daemon_System\<close> has each of the functions as one step; here
  the calls interleave.
\<close>

section \<open>The two readers\<close>

text \<open>What a reader has done: nothing, \<^verbatim>\<open>lseek\<close>, \<^verbatim>\<open>read\<close> with the bytes it got.\<close>

datatype reader = Starts | Sought | Got bytes

record meminfo_t =
  mi_off :: nat
  mi_main :: reader
  mi_sampler :: reader

definition read_here :: "bytes \<Rightarrow> meminfo_t \<Rightarrow> bytes" where
  "read_here f s = take BUFFER_MAX (drop (mi_off s) f)"

inductive meminfo_step :: "bytes \<Rightarrow> meminfo_t \<Rightarrow> meminfo_t \<Rightarrow> bool" for f where
  main_lseek: "mi_main s = Starts \<Longrightarrow> meminfo_step f s (s\<lparr>mi_off := 0, mi_main := Sought\<rparr>)"
| main_read: "mi_main s = Sought \<Longrightarrow>
    meminfo_step f s (s\<lparr>mi_off := mi_off s + length (read_here f s), mi_main := Got (read_here f s)\<rparr>)"
| sampler_lseek: "mi_sampler s = Starts \<Longrightarrow> meminfo_step f s (s\<lparr>mi_off := 0, mi_sampler := Sought\<rparr>)"
| sampler_read: "mi_sampler s = Sought \<Longrightarrow>
    meminfo_step f s (s\<lparr>mi_off := mi_off s + length (read_here f s), mi_sampler := Got (read_here f s)\<rparr>)"

text \<open>Both are about to read, whatever the offset is; both have read.\<close>

definition both_start :: "nat \<Rightarrow> meminfo_t" where
  "both_start n = \<lparr>mi_off = n, mi_main = Starts, mi_sampler = Starts\<rparr>"

definition both_got :: "bytes \<Rightarrow> nat \<Rightarrow> bytes \<Rightarrow> bytes \<Rightarrow> bool" where
  "both_got f n x y \<longleftrightarrow>
     (\<exists>s. (meminfo_step f)\<^sup>*\<^sup>* (both_start n) s \<and> mi_main s = Got x \<and> mi_sampler s = Got y)"

section \<open>What they can read\<close>

inductive_cases meminfo_stepE: "meminfo_step f s s'"

text \<open>
  A file that fits in one read: after a \<^verbatim>\<open>lseek\<close> the offset is at the start until the next read, which takes
  it to the end.
\<close>

definition meminfo_inv :: "bytes \<Rightarrow> meminfo_t \<Rightarrow> bool" where
  "meminfo_inv f s \<longleftrightarrow>
     (case (mi_main s, mi_sampler s) of
        (Starts, Starts) \<Rightarrow> True
      | (Starts, Sought) \<Rightarrow> mi_off s = 0
      | (Sought, Starts) \<Rightarrow> mi_off s = 0
      | (Sought, Sought) \<Rightarrow> mi_off s = 0
      | (Starts, Got y) \<Rightarrow> y = f
      | (Got x, Starts) \<Rightarrow> x = f
      | (Sought, Got y) \<Rightarrow> y = f \<and> mi_off s \<in> {0, length f}
      | (Got x, Sought) \<Rightarrow> x = f \<and> mi_off s \<in> {0, length f}
      | (Got x, Got y) \<Rightarrow> (x = f \<or> x = []) \<and> (y = f \<or> y = []) \<and> (x = f \<or> y = f))"

lemma meminfo_inv_step:
  assumes "length f \<le> BUFFER_MAX" "meminfo_step f s s'" "meminfo_inv f s"
  shows "meminfo_inv f s'"
  using assms(2,1,3)
  by (elim meminfo_stepE) (auto simp: meminfo_inv_def read_here_def split: reader.splits)

lemma meminfo_inv_reached:
  assumes "length f \<le> BUFFER_MAX" "(meminfo_step f)\<^sup>*\<^sup>* (both_start n) s"
  shows "meminfo_inv f s"
  using assms(2) by (induction rule: rtranclp_induct)
    (simp_all add: meminfo_inv_step [OF assms(1)], simp add: meminfo_inv_def both_start_def)

text \<open>The steps on states that are written out.\<close>

abbreviation mi :: "nat \<Rightarrow> reader \<Rightarrow> reader \<Rightarrow> meminfo_t" where
  "mi n m y \<equiv> \<lparr>mi_off = n, mi_main = m, mi_sampler = y\<rparr>"

lemma mi_steps:
  "meminfo_step f (mi n Starts y) (mi 0 Sought y)"
  "meminfo_step f (mi n x Starts) (mi 0 x Sought)"
  "b = take BUFFER_MAX (drop n f) \<Longrightarrow> k = n + length b \<Longrightarrow> meminfo_step f (mi n Sought y) (mi k (Got b) y)"
  "b = take BUFFER_MAX (drop n f) \<Longrightarrow> k = n + length b \<Longrightarrow> meminfo_step f (mi n x Sought) (mi k x (Got b))"
  using main_lseek [of "mi n Starts y" f] sampler_lseek [of "mi n x Starts" f]
    main_read [of "mi n Sought y" f] sampler_read [of "mi n x Sought" f]
  by (simp_all add: read_here_def)

lemma both_gotI: "(meminfo_step f)\<^sup>*\<^sup>* (mi n Starts Starts) (mi k (Got x) (Got y)) \<Longrightarrow> both_got f n x y"
  unfolding both_got_def both_start_def by (intro exI [of _ "mi k (Got x) (Got y)"]) simp

lemmas one_step = converse_rtranclp_into_rtranclp [of "meminfo_step f" for f]

lemma all_orders:
  assumes "length f \<le> BUFFER_MAX"
  shows "both_got f n f f" "both_got f n [] f" "both_got f n f []"
proof -
  note len = assms
  show "both_got f n f f"
    by (rule both_gotI [where k = "length f"], rule one_step [OF mi_steps(1)], rule one_step [OF mi_steps(3)], rule refl, rule refl,
        rule one_step [OF mi_steps(2)], rule one_step [OF mi_steps(4)], rule refl, rule refl)
      (use len in \<open>simp add: rtranclp.rtrancl_refl\<close>)
  show "both_got f n [] f"
    by (rule both_gotI [where k = "length f"], rule one_step [OF mi_steps(1)], rule one_step [OF mi_steps(2)],
        rule one_step [OF mi_steps(4)], rule refl, rule refl, rule one_step [OF mi_steps(3)], rule refl, rule refl)
      (use len in \<open>simp add: rtranclp.rtrancl_refl\<close>)
  show "both_got f n f []"
    by (rule both_gotI [where k = "length f"], rule one_step [OF mi_steps(1)], rule one_step [OF mi_steps(2)],
        rule one_step [OF mi_steps(3)], rule refl, rule refl, rule one_step [OF mi_steps(4)], rule refl, rule refl)
      (use len in \<open>simp add: rtranclp.rtrancl_refl\<close>)
qed

lemma both_got_cases:
  assumes "length f \<le> BUFFER_MAX" "both_got f n x y"
  shows "(x, y) \<in> {(f, f), ([], f), (f, [])}"
proof -
  from assms(2) obtain s where s: "(meminfo_step f)\<^sup>*\<^sup>* (both_start n) s" "mi_main s = Got x" "mi_sampler s = Got y"
    by (auto simp: both_got_def)
  from meminfo_inv_reached [OF assms(1) s(1)] s(2,3) show ?thesis by (auto simp: meminfo_inv_def)
qed

lemma empty_meminfo: "get_system_total_memory (Some []) = 0" "fst (update_system_memory_data (Some []) m) = -1"
proof -
  have z: "str_of_buf [] = []" by (simp add: str_of_buf_def)
  have "strchr 58 [] = None" by (cases "strchr 58 []") (auto dest: strchr_Some)
  then show "get_system_total_memory (Some []) = 0" "fst (update_system_memory_data (Some []) m) = -1"
    by (simp_all add: get_system_total_memory_def update_system_memory_data_def z total_line.simps mem_lines.simps)
qed

section \<open>Properties\<close>

text \<open>
  C21. A request for target information while the sampling thread is running, when \<^verbatim>\<open>/proc/meminfo\<close> fits in
  one read: exactly three things can happen. Both threads read the file; or only the sampling thread does, and the host is told
  that the system has no memory; or only the main loop does, and the sample fails.
\<close>

theorem meminfo_race:
  assumes "length f \<le> BUFFER_MAX"
  shows "{(get_system_total_memory (Some x), fst (update_system_memory_data (Some y) m)) |x y. both_got f n x y}
    = {(get_system_total_memory (Some f), fst (update_system_memory_data (Some f) m)),
       (0, fst (update_system_memory_data (Some f) m)), (get_system_total_memory (Some f), -1)}"
proof -
  have "{(x, y). both_got f n x y} = {(f, f), ([], f), (f, [])}"
    using both_got_cases [OF assms] all_orders [OF assms] by blast
  then have "(\<lambda>(x, y). (get_system_total_memory (Some x), fst (update_system_memory_data (Some y) m))) ` {(x, y). both_got f n x y}
    = {(get_system_total_memory (Some f), fst (update_system_memory_data (Some f) m)),
       (0, fst (update_system_memory_data (Some f) m)), (get_system_total_memory (Some f), -1)}"
    by (simp add: empty_meminfo)
  moreover have "{(get_system_total_memory (Some x), fst (update_system_memory_data (Some y) m)) |x y. both_got f n x y}
    = (\<lambda>(x, y). (get_system_total_memory (Some x), fst (update_system_memory_data (Some y) m))) ` {(x, y). both_got f n x y}"
    by (auto simp: image_iff)
  ultimately show ?thesis by simp
qed

definition sample_meminfo :: bytes where
  "sample_meminfo = cstr ''MemTotal: 9 kB'' @ [10] @ cstr ''MemFree: 1 kB'' @ [10] @ cstr ''Buffers: 1 kB'' @ [10] @ cstr ''Cached: 1 kB'' @ [10]"

lemma sample_meminfo_read:
  "get_system_total_memory (Some sample_meminfo) = 9216"
  "fst (update_system_memory_data (Some sample_meminfo)
     \<lparr>mem_total = 0, mem_free = 0, mem_buffer = 0, mem_cached = 0, mem_num = 0\<rparr>) = 0"
  by code_simp+

theorem meminfo_race_witness:
  "{(get_system_total_memory (Some x),
     fst (update_system_memory_data (Some y) \<lparr>mem_total = 0, mem_free = 0, mem_buffer = 0, mem_cached = 0, mem_num = 0\<rparr>))
      |x y. both_got sample_meminfo 0 x y} = {(9216, 0), (0, 0), (9216, -1)}"
proof -
  have "length sample_meminfo \<le> BUFFER_MAX" by code_simp
  from meminfo_race [OF this] show ?thesis by (simp only: sample_meminfo_read)
qed

end
