(* ===== verification/Replay_Sync.thy ===== *)
theory Replay_Sync
  imports Threads
begin

text \<open>
  The replay thread and the thread that stops it, instruction by instruction (\<^verbatim>\<open>stop_replay\<close>,
  \<^verbatim>\<open>replay_thread\<close> and \<^verbatim>\<open>exit_replay_thread\<close> in \<^verbatim>\<open>daemon/threads.c\<close>). In \<open>Threads\<close> a stop is one
  step; here the two threads interleave around \<^verbatim>\<open>replay_thread_mutex\<close>. \<^verbatim>\<open>usleep\<close> and \<^verbatim>\<open>write\<close> are the
  points where a cancelled thread ends; \<^verbatim>\<open>pthread_mutex_lock\<close> is not one. The stopping thread may also be
  started when no replay runs.
\<close>

section \<open>The two threads\<close>

text \<open>What each thread does next. \<open>T_loop n\<close>: the replay thread has \<open>n\<close> events left.\<close>

datatype stop_pc = S_lock | S_test | S_cancel | S_join | S_clear | S_unlock | S_done
datatype replay_pc = T_loop nat | T_lock | T_clear | T_unlock | T_end

datatype owner_t = Stopper | Replayer

record sync_t =
  sy_mutex :: "owner_t option"
  sy_thread :: bool
  sy_cancelled :: bool
  sy_stop :: stop_pc
  sy_replay :: replay_pc

text \<open>\<open>sy_thread\<close>: \<^verbatim>\<open>manager.replay_thread\<close> is not -1.\<close>

inductive sync_step :: "sync_t \<Rightarrow> sync_t \<Rightarrow> bool" where
  stop_lock: "sy_stop s = S_lock \<Longrightarrow> sy_mutex s = None \<Longrightarrow>
    sync_step s (s\<lparr>sy_mutex := Some Stopper, sy_stop := S_test\<rparr>)"
| stop_not_running: "sy_stop s = S_test \<Longrightarrow> \<not> sy_thread s \<Longrightarrow> sync_step s (s\<lparr>sy_stop := S_unlock\<rparr>)"
| stop_running: "sy_stop s = S_test \<Longrightarrow> sy_thread s \<Longrightarrow> sync_step s (s\<lparr>sy_stop := S_cancel\<rparr>)"
| stop_cancel: "sy_stop s = S_cancel \<Longrightarrow> sync_step s (s\<lparr>sy_cancelled := True, sy_stop := S_join\<rparr>)"
| stop_join: "sy_stop s = S_join \<Longrightarrow> sy_replay s = T_end \<Longrightarrow> sync_step s (s\<lparr>sy_stop := S_clear\<rparr>)"
| stop_clear: "sy_stop s = S_clear \<Longrightarrow> sync_step s (s\<lparr>sy_thread := False, sy_stop := S_unlock\<rparr>)"
| stop_unlock: "sy_stop s = S_unlock \<Longrightarrow> sync_step s (s\<lparr>sy_mutex := None, sy_stop := S_done\<rparr>)"
| replay_event: "sy_replay s = T_loop (Suc n) \<Longrightarrow> \<not> sy_cancelled s \<Longrightarrow>
    sync_step s (s\<lparr>sy_replay := T_loop n\<rparr>)"
| replay_cancelled: "sy_replay s = T_loop (Suc n) \<Longrightarrow> sy_cancelled s \<Longrightarrow>
    sync_step s (s\<lparr>sy_replay := T_end\<rparr>)"
| replay_finished: "sy_replay s = T_loop 0 \<Longrightarrow> sync_step s (s\<lparr>sy_replay := T_lock\<rparr>)"
| replay_lock: "sy_replay s = T_lock \<Longrightarrow> sy_mutex s = None \<Longrightarrow>
    sync_step s (s\<lparr>sy_mutex := Some Replayer, sy_replay := T_clear\<rparr>)"
| replay_clear: "sy_replay s = T_clear \<Longrightarrow> sync_step s (s\<lparr>sy_thread := False, sy_replay := T_unlock\<rparr>)"
| replay_unlock: "sy_replay s = T_unlock \<Longrightarrow> sync_step s (s\<lparr>sy_mutex := None, sy_replay := T_end\<rparr>)"

code_pred (modes: i \<Rightarrow> o \<Rightarrow> bool as succ, i \<Rightarrow> i \<Rightarrow> bool) sync_step .

text \<open>A running replay of \<open>n\<close> events, and a request to stop it.\<close>

definition replay_running :: "nat \<Rightarrow> sync_t" where
  "replay_running n =
     \<lparr>sy_mutex = None, sy_thread = True, sy_cancelled = False, sy_stop = S_lock, sy_replay = T_loop n\<rparr>"

definition finished :: "sync_t \<Rightarrow> bool" where
  "finished s \<longleftrightarrow> sy_stop s = S_done \<and> sy_replay s = T_end"

definition deadlocked :: "sync_t \<Rightarrow> bool" where
  "deadlocked s \<longleftrightarrow> sy_stop s = S_join \<and> sy_replay s = T_lock \<and> sy_mutex s = Some Stopper"

section \<open>What can happen\<close>

inductive_cases stepE: "sync_step s s'"

text \<open>
  Who holds the mutex is between its lock and its unlock, and the end of a stop leaves no identifier.
\<close>

definition in_stop :: "stop_pc \<Rightarrow> bool" where
  "in_stop p \<longleftrightarrow> p \<in> {S_test, S_cancel, S_join, S_clear, S_unlock}"

definition in_exit :: "replay_pc \<Rightarrow> bool" where
  "in_exit p \<longleftrightarrow> p = T_clear \<or> p = T_unlock"

definition sync_inv :: "sync_t \<Rightarrow> bool" where
  "sync_inv s \<longleftrightarrow>
     (sy_mutex s = Some Stopper \<longleftrightarrow> in_stop (sy_stop s))
     \<and> (sy_mutex s = Some Replayer \<longleftrightarrow> in_exit (sy_replay s))
     \<and> (sy_stop s \<in> {S_unlock, S_done} \<longrightarrow> \<not> sy_thread s)"

lemma sync_inv_start: "sync_inv (replay_running n)"
  by (simp add: sync_inv_def replay_running_def in_stop_def in_exit_def)

lemma sync_inv_step: "sync_step s s' \<Longrightarrow> sync_inv s \<Longrightarrow> sync_inv s'"
  by (erule stepE) (auto simp: sync_inv_def in_stop_def in_exit_def)

lemma sync_inv_reachable: "sync_step\<^sup>*\<^sup>* (replay_running n) s \<Longrightarrow> sync_inv s"
  by (induction rule: rtranclp_induct) (auto intro: sync_inv_start sync_inv_step)

lemma mutex_free:
  assumes "sync_inv s"
  shows "sy_mutex s = None \<longleftrightarrow> \<not> in_stop (sy_stop s) \<and> \<not> in_exit (sy_replay s)"
proof (cases "sy_mutex s")
  case (Some a)
  then show ?thesis using assms by (cases a) (auto simp: sync_inv_def)
qed (use assms in \<open>auto simp: sync_inv_def\<close>)

definition can_step :: "sync_t \<Rightarrow> bool" where
  "can_step s \<longleftrightarrow>
     sy_stop s = S_lock \<and> sy_mutex s = None \<or> sy_stop s \<in> {S_test, S_cancel, S_clear, S_unlock}
     \<or> sy_stop s = S_join \<and> sy_replay s = T_end \<or> sy_replay s \<in> range T_loop
     \<or> sy_replay s = T_lock \<and> sy_mutex s = None \<or> in_exit (sy_replay s)"

lemma can_step_iff: "(\<exists>s'. sync_step s s') \<longleftrightarrow> can_step s"
proof
  assume "\<exists>s'. sync_step s s'"
  then show "can_step s" by (elim exE stepE) (auto simp: can_step_def in_exit_def)
next
  have "\<exists>s'. sync_step s s'" if "sy_stop s = S_test" using that by (cases "sy_thread s") (blast intro: sync_step.intros)+
  moreover have "\<exists>s'. sync_step s s'" if "sy_replay s = T_loop n" for n
    using that by (cases n; cases "sy_cancelled s") (blast intro: sync_step.intros)+
  moreover assume "can_step s"
  ultimately show "\<exists>s'. sync_step s s'"
    unfolding can_step_def in_exit_def by (elim disjE conjE insertE emptyE rangeE) (blast intro: sync_step.intros)+
qed

lemma stuck_iff:
  assumes "sync_inv s"
  shows "(\<nexists>s'. sync_step s s') \<longleftrightarrow> finished s \<or> deadlocked s"
proof -
  have held: "sy_mutex s = Some Stopper \<longleftrightarrow> in_stop (sy_stop s)"
    using assms by (simp add: sync_inv_def)
  show ?thesis
    unfolding can_step_iff
    by (cases "sy_stop s"; cases "sy_replay s")
      (use held mutex_free [OF assms] in
        \<open>simp_all add: can_step_def finished_def deadlocked_def in_stop_def in_exit_def image_iff\<close>)
qed

text \<open>How many steps are left at most.\<close>

primrec stop_weight :: "stop_pc \<Rightarrow> nat" where
  "stop_weight S_lock = 6" | "stop_weight S_test = 5" | "stop_weight S_cancel = 4"
| "stop_weight S_join = 3" | "stop_weight S_clear = 2" | "stop_weight S_unlock = 1"
| "stop_weight S_done = 0"

primrec replay_weight :: "replay_pc \<Rightarrow> nat" where
  "replay_weight (T_loop n) = n + 4" | "replay_weight T_lock = 3" | "replay_weight T_clear = 2"
| "replay_weight T_unlock = 1" | "replay_weight T_end = 0"

definition steps_left :: "sync_t \<Rightarrow> nat" where
  "steps_left s = stop_weight (sy_stop s) + replay_weight (sy_replay s)"

lemma step_decreases: "sync_step s s' \<Longrightarrow> steps_left s' < steps_left s"
  by (erule stepE) (simp_all add: steps_left_def)

lemma run_length: "(sync_step ^^ k) s s' \<Longrightarrow> k + steps_left s' \<le> steps_left s"
proof (induction k arbitrary: s')
  case (Suc k)
  then obtain t where "(sync_step ^^ k) s t" "sync_step t s'" by auto
  with Suc.IH [of t] step_decreases [of t s'] show ?case by simp
qed simp

lemma reaches_stuck: "\<exists>s'. sync_step\<^sup>*\<^sup>* s s' \<and> (\<nexists>t. sync_step s' t)"
proof (induction "steps_left s" arbitrary: s rule: less_induct)
  case less
  show ?case
  proof (cases "\<exists>t. sync_step s t")
    case True
    then obtain t where t: "sync_step s t" by blast
    from less [OF step_decreases [OF t]] obtain s' where "sync_step\<^sup>*\<^sup>* t s'" "\<nexists>u. sync_step s' u" by blast
    with t show ?thesis by (meson converse_rtranclp_into_rtranclp)
  qed auto
qed

lemma replay_events: "sync_step\<^sup>*\<^sup>* (replay_running n) (replay_running 0)"
proof (induction n)
  case (Suc n)
  have "sync_step (replay_running (Suc n)) ((replay_running (Suc n))\<lparr>sy_replay := T_loop n\<rparr>)"
    by (rule replay_event) (simp_all add: replay_running_def)
  moreover have "(replay_running (Suc n))\<lparr>sy_replay := T_loop n\<rparr> = replay_running n"
    by (simp add: replay_running_def)
  ultimately show ?case using Suc.IH by (simp add: converse_rtranclp_into_rtranclp)
qed simp

section \<open>Properties\<close>

text \<open>
  C16. Stopping a replay and its end on its own can block each other for ever: the stop waits for the
  thread while it holds the mutex that the thread needs to finish. This can happen with any number of
  events.
\<close>

theorem stop_replay_deadlock:
  "\<exists>s. sync_step\<^sup>*\<^sup>* (replay_running n) s \<and> deadlocked s \<and> (\<nexists>s'. sync_step s s')"
proof -
  let ?s0 = "replay_running 0"
  let ?s1 = "?s0\<lparr>sy_replay := T_lock\<rparr>"
  let ?s2 = "?s1\<lparr>sy_mutex := Some Stopper, sy_stop := S_test\<rparr>"
  let ?s3 = "?s2\<lparr>sy_stop := S_cancel\<rparr>"
  let ?s4 = "?s3\<lparr>sy_cancelled := True, sy_stop := S_join\<rparr>"
  note s0 = replay_running_def [of 0]
  have "sync_step ?s0 ?s1" by (rule replay_finished) (simp add: s0)
  moreover have "sync_step ?s1 ?s2" by (rule stop_lock) (simp_all add: s0)
  moreover have "sync_step ?s2 ?s3" by (rule stop_running) (simp_all add: s0)
  moreover have "sync_step ?s3 ?s4" by (rule stop_cancel) simp
  ultimately have r: "sync_step\<^sup>*\<^sup>* (replay_running n) ?s4"
    using replay_events [of n] by (meson rtranclp.rtrancl_into_rtrancl)
  moreover have "deadlocked ?s4" by (simp add: deadlocked_def)
  ultimately show ?thesis using stuck_iff [OF sync_inv_reachable [OF r]] by blast
qed

text \<open>
  C15. Every interleaving of the stop with a replay of \<open>n\<close> events ends after at most \<open>n + 10\<close> steps,
  either in the deadlock or with both threads done, the mutex free and the identifier cleared.
\<close>

theorem stop_replay_ends:
  assumes "(sync_step ^^ k) (replay_running n) s"
  shows "k \<le> n + 10 \<and> (\<exists>s'. sync_step\<^sup>*\<^sup>* s s' \<and>
    (deadlocked s' \<or> finished s' \<and> sy_mutex s' = None \<and> \<not> sy_thread s'))"
proof -
  have "k \<le> n + 10"
    using run_length [OF assms] by (simp add: steps_left_def replay_running_def)
  moreover obtain s' where s': "sync_step\<^sup>*\<^sup>* s s'" "\<nexists>t. sync_step s' t" using reaches_stuck by blast
  have "sync_step\<^sup>*\<^sup>* (replay_running n) s" using assms by (rule relpowp_imp_rtranclp)
  then have inv: "sync_inv s'" using s'(1) sync_inv_reachable by (meson rtranclp_trans)
  then have "finished s' \<or> deadlocked s'" using stuck_iff s'(2) by blast
  moreover have "sy_mutex s' = None \<and> \<not> sy_thread s'" if "finished s'"
    using inv that mutex_free [OF inv] by (auto simp: sync_inv_def finished_def in_stop_def in_exit_def)
  ultimately show ?thesis using s'(1) by blast
qed

theorem stop_replay_ends_witness:
  "\<exists>s'. sync_step\<^sup>*\<^sup>* (replay_running 3) s' \<and> (deadlocked s' \<or> finished s')"
proof -
  have "(sync_step ^^ 0) (replay_running 3) (replay_running 3)" by simp
  from stop_replay_ends [OF this] show ?thesis by blast
qed

end
