(* ===== verification/Transfer_Body.thy ===== *)
theory Transfer_Body
  imports Prelude
begin

text \<open>
  The body of the transfer thread (\<^verbatim>\<open>daemon/transfer_thread.c\<close>): it moves bytes from the driver's buffer
  through a pipe to the host's data socket. The results of the calls are a parameter.
\<close>

section \<open>State\<close>

definition TRANSFER_BUF_SIZE :: nat where "TRANSFER_BUF_SIZE = 4096"

text \<open>
  The bytes the driver still has (\<open>tr_source\<close>), those in the pipe, and those the host has got.
\<close>

record transfer_t =
  tr_source :: bytes
  tr_pipe :: bytes
  tr_sent :: bytes

text \<open>
  What \<^verbatim>\<open>splice\<close> gives: a number of bytes, -1 with \<^verbatim>\<open>EAGAIN\<close>, or -1. It never moves more than it is
  asked to, nor more than there is.
\<close>

datatype splice_result = Moved nat | Again | Failed

definition moved :: "nat \<Rightarrow> nat \<Rightarrow> bytes \<Rightarrow> nat" where
  "moved asked n from = min n (min asked (length from))"

section \<open>The loop\<close>

text \<open>The two calls of a round; the second moves at most what the first one did.\<close>

definition splice_in :: "nat \<Rightarrow> transfer_t \<Rightarrow> nat \<times> transfer_t" where
  "splice_in n tr =
     (let nrd = moved TRANSFER_BUF_SIZE n (tr_source tr) in
      (nrd, tr\<lparr>tr_source := drop nrd (tr_source tr), tr_pipe := tr_pipe tr @ take nrd (tr_source tr)\<rparr>))"

definition splice_out :: "nat \<Rightarrow> nat \<Rightarrow> transfer_t \<Rightarrow> transfer_t" where
  "splice_out nrd k tr =
     (let nwr = moved nrd k (tr_pipe tr) in
      tr\<lparr>tr_pipe := drop nwr (tr_pipe tr), tr_sent := tr_sent tr @ take nwr (tr_pipe tr)\<rparr>)"

text \<open>
  Each round has the result of the read and that of the write. The first component of the result tells
  why the loop ended: no more data (\<open>Some True\<close>) or a failure (\<open>Some False\<close>); \<open>None\<close>: it still runs.
\<close>

fun transfer_loop :: "(splice_result \<times> splice_result) list \<Rightarrow> transfer_t \<Rightarrow> bool option \<times> transfer_t" where
  "transfer_loop [] tr = (None, tr)"
| "transfer_loop ((Again, w) # rs) tr = (Some True, tr)"
| "transfer_loop ((Failed, w) # rs) tr = (Some False, tr)"
| "transfer_loop ((Moved n, w) # rs) tr =
     (let (nrd, tr) = splice_in n tr in
      case w of Moved k \<Rightarrow> transfer_loop rs (splice_out nrd k tr) | _ \<Rightarrow> (Some False, tr))"

text \<open>
  The thread: without a pipe it does nothing; when the loop ends the pipe is closed, and what it holds is
  gone. The second component are the bytes that are lost.
\<close>

definition transfer_thread ::
  "bool \<Rightarrow> (splice_result \<times> splice_result) list \<Rightarrow> bytes \<Rightarrow> bool option \<times> bytes \<times> transfer_t" where
  "transfer_thread pipe_ok rs source =
     (let tr = \<lparr>tr_source = source, tr_pipe = [], tr_sent = []\<rparr> in
      if \<not> pipe_ok then (Some False, [], tr)
      else
        (case transfer_loop rs tr of
           (None, tr) \<Rightarrow> (None, [], tr)
         | (Some e, tr) \<Rightarrow> (Some e, tr_pipe tr, tr\<lparr>tr_pipe := []\<rparr>)))"

section \<open>Facts\<close>

text \<open>Whatever happens, the bytes stay in their order.\<close>

definition whole :: "transfer_t \<Rightarrow> bytes" where
  "whole tr = tr_sent tr @ tr_pipe tr @ tr_source tr"

lemma whole_splice [simp]: "whole (snd (splice_in n tr)) = whole tr" "whole (splice_out nrd k tr) = whole tr"
proof -
  have "take i xs @ drop i xs @ ys = xs @ ys" for i and xs ys :: bytes
    by (metis append.assoc append_take_drop_id)
  then show "whole (snd (splice_in n tr)) = whole tr" "whole (splice_out nrd k tr) = whole tr"
    by (simp_all add: whole_def splice_in_def splice_out_def Let_def)
qed

lemma transfer_loop_whole: "whole (snd (transfer_loop rs tr)) = whole tr"
proof (induction rs tr rule: transfer_loop.induct)
  case (4 n w rs tr)
  obtain nrd tr1 where 1: "splice_in n tr = (nrd, tr1)" by fastforce
  then have "whole tr1 = whole tr" using whole_splice(1) [of n tr] by simp
  with 4 1 show ?case by (cases w) simp_all
qed simp_all

text \<open>The writes take all that was read.\<close>

definition full_writes :: "(splice_result \<times> splice_result) list \<Rightarrow> bool" where
  "full_writes rs \<longleftrightarrow> (\<forall>(r, w) \<in> set rs. \<forall>n. r = Moved n \<longrightarrow> (\<exists>k. w = Moved k \<and> n \<le> k))"

lemma transfer_loop_full:
  "full_writes rs \<Longrightarrow> tr_pipe tr = [] \<Longrightarrow> tr_pipe (snd (transfer_loop rs tr)) = []"
proof (induction rs tr rule: transfer_loop.induct)
  case (4 n w rs tr)
  then obtain k where w: "w = Moved k" "n \<le> k" by (auto simp: full_writes_def)
  obtain nrd tr1 where 1: "splice_in n tr = (nrd, tr1)" by fastforce
  then have "tr_pipe (splice_out nrd k tr1) = []"
    using w(2) "4.prems"(2) by (auto simp: splice_in_def splice_out_def moved_def Let_def)
  moreover have "full_writes rs" using "4.prems"(1) by (simp add: full_writes_def)
  ultimately show ?case using "4.IH" [OF 1 [symmetric]] 1 w(1) by simp
qed simp_all

section \<open>Properties\<close>

text \<open>
  C26. The host gets what the driver produced, in its order and without gaps, however the calls turn out: what
  was sent, what is still in the pipe, what was lost at the end and what the driver still has are the
  driver's bytes. Nothing is lost when every write takes all that was read; otherwise the end of the
  thread throws away the rest of the pipe.
\<close>

theorem transfer_in_order:
  assumes "transfer_thread pipe_ok rs source = (e, lost, tr)"
  shows "tr_sent tr @ tr_pipe tr @ lost @ tr_source tr = source
    \<and> (full_writes rs \<longrightarrow> lost = [] \<and> tr_pipe tr = [])"
proof -
  let ?tr = "\<lparr>tr_source = source, tr_pipe = [], tr_sent = []\<rparr>"
  have "whole (snd (transfer_loop rs ?tr)) = source"
    by (simp add: transfer_loop_whole) (simp add: whole_def)
  moreover have "full_writes rs \<Longrightarrow> tr_pipe (snd (transfer_loop rs ?tr)) = []"
    by (rule transfer_loop_full) simp_all
  ultimately show ?thesis
    using assms
    by (cases "transfer_loop rs ?tr"; cases pipe_ok)
      (auto simp: transfer_thread_def whole_def Let_def split: option.splits)
qed

theorem transfer_in_order_witness:
  "transfer_thread True [(Moved 3, Moved 2), (Moved 2, Moved 2), (Again, Again)] [1, 2, 3, 4, 5, 6]
     = (Some True, [5], \<lparr>tr_source = [6], tr_pipe = [], tr_sent = [1, 2, 3, 4]\<rparr>)
   \<and> [1, 2, 3, 4] @ [] @ [5] @ [6] = ([1, 2, 3, 4, 5, 6] :: bytes)"
proof -
  have t: "transfer_thread True [(Moved 3, Moved 2), (Moved 2, Moved 2), (Again, Again)] [1, 2, 3, 4, 5, 6]
     = (Some True, [5], \<lparr>tr_source = [6], tr_pipe = [], tr_sent = [1, 2, 3, 4]\<rparr>)"
    by code_simp
  with transfer_in_order [OF t] show ?thesis by simp
qed

end
