(* ===== verification/Dll_Heap.thy ===== *)
theory Dll_Heap
  imports Inst_Lists
begin

text \<open>
  The pointer operations behind the chains of \<open>Inst_Lists\<close> (\<^verbatim>\<open>daemon/da_inst.c\<close>): doubly linked elements
  in a heap. An address is a number, 0 is NULL; a heap gives the element at an address, or nothing when
  there is none (or it has been freed), and then using it is \<open>None\<close>.
\<close>

section \<open>Elements in a heap\<close>

text \<open>The pointers at the start of \<^verbatim>\<open>data_list_t\<close> and \<^verbatim>\<open>probe_list_t\<close>, and the rest of the element.\<close>

record 'v cell =
  cl_next :: nat
  cl_prev :: nat
  cl_val :: 'v

type_synonym 'v heap = "nat \<rightharpoonup> 'v cell"

definition set_next :: "nat \<Rightarrow> nat \<Rightarrow> 'v heap \<Rightarrow> 'v heap option" where
  "set_next a n h = map_option (\<lambda>c. h(a \<mapsto> c\<lparr>cl_next := n\<rparr>)) (h a)"

definition set_prev :: "nat \<Rightarrow> nat \<Rightarrow> 'v heap \<Rightarrow> 'v heap option" where
  "set_prev a p h = map_option (\<lambda>c. h(a \<mapsto> c\<lparr>cl_prev := p\<rparr>)) (h a)"

section \<open>The operations\<close>

text \<open>\<^verbatim>\<open>data_list_append\<close>; the list is given by its head, and so is the result.\<close>

definition data_list_append_ptr :: "'v heap \<Rightarrow> nat \<Rightarrow> nat \<Rightarrow> ('v heap \<times> nat) option" where
  "data_list_append_ptr h to from =
     (if to = 0 then Some (h, from)
      else Option.bind (set_next from to h) (\<lambda>h. map_option (\<lambda>h. (h, from)) (set_prev to from h)))"

text \<open>What the removal of an element does to its neighbours and the head.\<close>

definition bypass :: "'v heap \<Rightarrow> nat \<Rightarrow> nat \<Rightarrow> nat \<Rightarrow> ('v heap \<times> nat) option" where
  "bypass h list prev next =
     Option.bind (if prev \<noteq> 0 then map_option (\<lambda>h. (h, list)) (set_next prev next h) else Some (h, next)) (\<lambda>(h, list).
     if next \<noteq> 0 then map_option (\<lambda>h. (h, list)) (set_prev next prev h) else Some (h, list))"

text \<open>\<^verbatim>\<open>data_list_unlink_data\<close>: the heap, the head, and the element after the one taken out.\<close>

definition data_list_unlink_ptr :: "'v heap \<Rightarrow> nat \<Rightarrow> nat \<Rightarrow> ('v heap \<times> nat \<times> nat) option" where
  "data_list_unlink_ptr h list element =
     Option.bind (h element) (\<lambda>e.
     Option.bind (bypass h list (cl_prev e) (cl_next e)) (\<lambda>(h, list).
     Option.bind (set_prev element 0 h) (\<lambda>h.
     Option.bind (set_next element 0 h) (\<lambda>h.
     Some (h, list, cl_next e)))))"

text \<open>\<^verbatim>\<open>data_list_rm_data\<close>: the same, and the element is freed.\<close>

definition data_list_rm_ptr :: "'v heap \<Rightarrow> nat \<Rightarrow> nat \<Rightarrow> ('v heap \<times> nat \<times> nat) option" where
  "data_list_rm_ptr h list element =
     map_option (\<lambda>(h, list, next). (h(element := None), list, next)) (data_list_unlink_ptr h list element)"

text \<open>\<^verbatim>\<open>probe_list_rm_element\<close> without its counters.\<close>

definition probe_list_rm_ptr :: "'v heap \<Rightarrow> nat \<Rightarrow> nat \<Rightarrow> ('v heap \<times> nat \<times> nat) option" where
  "probe_list_rm_ptr h list element =
     Option.bind (h element) (\<lambda>e.
     map_option (\<lambda>(h, list). (h(element := None), list, cl_next e)) (bypass h list (cl_prev e) (cl_next e)))"

text \<open>
  \<^verbatim>\<open>data_list_append_probes_hash\<close>: the walk to the last element of \<open>from\<close> (\<open>fuel\<close>: the number of elements
  is enough), and the two chains joined.
\<close>

fun last_ptr :: "nat \<Rightarrow> 'v heap \<Rightarrow> nat \<Rightarrow> nat \<Rightarrow> nat option" where
  "last_ptr fuel h l p =
     (if p = 0 then Some l
      else case fuel of 0 \<Rightarrow> None
      | Suc fuel \<Rightarrow> Option.bind (h p) (\<lambda>c. last_ptr fuel h p (cl_next c)))"

declare last_ptr.simps [simp del]

definition append_probes_ptr :: "nat \<Rightarrow> 'v heap \<Rightarrow> nat \<Rightarrow> nat \<Rightarrow> ('v heap \<times> nat) option" where
  "append_probes_ptr fuel h to from =
     Option.bind (last_ptr fuel h from from) (\<lambda>l.
     Option.bind (set_next l to h) (\<lambda>h.
     map_option (\<lambda>h. (h, from)) (set_prev to l h)))"

section \<open>Chains\<close>

text \<open>
  \<open>seg h p x as q y\<close>: from \<open>x\<close> the elements \<open>as\<close> are linked both ways; before the first stands \<open>p\<close>, the last
  is \<open>q\<close> (\<open>p\<close> when there is none), and after it comes \<open>y\<close>.
\<close>

primrec seg :: "'v heap \<Rightarrow> nat \<Rightarrow> nat \<Rightarrow> nat list \<Rightarrow> nat \<Rightarrow> nat \<Rightarrow> bool" where
  "seg h p x [] q y \<longleftrightarrow> x = y \<and> p = q"
| "seg h p x (a # as) q y \<longleftrightarrow>
     x = a \<and> a \<noteq> 0 \<and> (\<exists>c. h a = Some c \<and> cl_prev c = p \<and> seg h a (cl_next c) as q y)"

definition chain :: "'v heap \<Rightarrow> nat \<Rightarrow> nat list \<Rightarrow> bool" where
  "chain h x as \<longleftrightarrow> (\<exists>q. seg h 0 x as q 0)"

definition vals :: "'v heap \<Rightarrow> nat list \<Rightarrow> 'v list" where
  "vals h as = map (\<lambda>a. cl_val (the (h a))) as"

lemma seg_append:
  "seg h p x (as @ bs) q y \<longleftrightarrow> (\<exists>r z. seg h p x as r z \<and> seg h r z bs q y)"
  by (induction as arbitrary: p x) auto

lemma seg_frame [simp]: "a \<notin> set as \<Longrightarrow> seg (h(a := v)) p x as q y \<longleftrightarrow> seg h p x as q y"
  by (induction as arbitrary: p x) auto

lemma vals_frame [simp]: "a \<notin> set as \<Longrightarrow> vals (h(a := v)) as = vals h as"
  by (simp add: vals_def)

lemma vals_simps [simp]: "vals h [] = []" "vals h (a # as) = cl_val (the (h a)) # vals h as"
    "vals h (as @ bs) = vals h as @ vals h bs"
  by (simp_all add: vals_def)

lemma seg_in: "seg h p x as q y \<Longrightarrow> a \<in> set as \<Longrightarrow> a \<noteq> 0 \<and> h a \<noteq> None"
  by (induction as arbitrary: p x) auto

lemma seg_last: "seg h p x as q y \<Longrightarrow> as \<noteq> [] \<Longrightarrow> q = last as"
  by (induction as arbitrary: p x) (auto split: if_splits)

lemma seg_unique: "seg h p x as q 0 \<Longrightarrow> seg h p' x bs q' 0 \<Longrightarrow> as = bs"
proof (induction as arbitrary: p p' x bs)
  case Nil
  then show ?case by (cases bs) auto
next
  case (Cons a as)
  then show ?case by (cases bs) auto
qed

lemma chain_distinct: "seg h p x as q 0 \<Longrightarrow> distinct as"
proof (induction as arbitrary: p x)
  case (Cons a as)
  then obtain c where c: "h a = Some c" "a \<noteq> 0" "seg h a (cl_next c) as q 0" by auto
  have "a \<notin> set as"
  proof
    assume "a \<in> set as"
    then obtain bs cs where "as = bs @ a # cs" by (auto simp: in_set_conv_decomp)
    with c(3) obtain r where "seg h r a (a # cs) q 0" by (auto simp: seg_append)
    then have "seg h a (cl_next c) cs q 0" using c(1) by auto
    from seg_unique [OF c(3) this] \<open>as = bs @ a # cs\<close> show False by simp
  qed
  with Cons.IH [OF c(3)] show ?case by simp
qed simp

text \<open>An element in the middle of a chain.\<close>

lemma chain_split:
  assumes "chain h x (as @ e # bs)"
  obtains c q where "h e = Some c" "e \<noteq> 0" "seg h 0 x as (cl_prev c) e" "seg h e (cl_next c) bs q 0"
    "e \<notin> set as" "e \<notin> set bs" "set as \<inter> set bs = {}" "distinct as" "distinct bs"
proof -
  obtain q where q: "seg h 0 x (as @ e # bs) q 0" using assms by (auto simp: chain_def)
  from chain_distinct [OF q] have "e \<notin> set as" "e \<notin> set bs" "set as \<inter> set bs = {}" "distinct as" "distinct bs" by auto
  with q that show thesis by (auto simp: seg_append)
qed

section \<open>Relinking\<close>

lemma seg_set_prev:
  assumes "seg h p x as q y" "as \<noteq> []" "distinct as"
  shows "\<exists>h'. set_prev x p' h = Some h' \<and> seg h' p' x as q y \<and> vals h' as = vals h as \<and> (\<forall>b. b \<noteq> x \<longrightarrow> h' b = h b)"
proof -
  obtain as' where as: "as = x # as'" using assms(1,2) by (cases as) auto
  with assms(1) obtain c where c: "h x = Some c" "x \<noteq> 0" "seg h x (cl_next c) as' q y" by auto
  let ?h = "h(x \<mapsto> c\<lparr>cl_prev := p'\<rparr>)"
  have "seg ?h p' x as q y" using c assms(3) by (simp add: as)
  moreover have "vals ?h as = vals h as" using c assms(3) by (simp add: as)
  ultimately show ?thesis using c(1) by (auto simp: set_prev_def)
qed

lemma seg_set_next:
  assumes "seg h p x as q y" "as \<noteq> []" "distinct as"
  shows "\<exists>h'. set_next q y' h = Some h' \<and> seg h' p x as q y' \<and> vals h' as = vals h as \<and> (\<forall>b. b \<noteq> q \<longrightarrow> h' b = h b)"
proof -
  obtain as' where as: "as = as' @ [q]" using seg_last [OF assms(1,2)] assms(2) by (metis append_butlast_last_id)
  with assms(1) obtain r z where 1: "seg h p x as' r z" "seg h r z [q] q y" by (auto simp: seg_append)
  then obtain c where c: "h q = Some c" "q \<noteq> 0" "z = q" "cl_prev c = r" by auto
  let ?h = "h(q \<mapsto> c\<lparr>cl_next := y'\<rparr>)"
  have n: "q \<notin> set as'" using assms(3) by (simp add: as)
  have "seg ?h p x as q y'"
    unfolding as seg_append using 1(1) n c by (intro exI [of _ r] exI [of _ q]) simp
  moreover have "vals ?h as = vals h as" using c n by (simp add: as)
  ultimately show ?thesis using c(1) by (auto simp: set_next_def)
qed

lemma seg_cong: "\<forall>a \<in> set as. h' a = h a \<Longrightarrow> seg h' p x as q y = seg h p x as q y"
  by (induction as arbitrary: p x) auto

lemma vals_cong: "\<forall>a \<in> set as. h' a = h a \<Longrightarrow> vals h' as = vals h as"
  by (simp add: vals_def)

section \<open>Refinement\<close>

text \<open>
  Adding in front: the pointers of the new element are NULL, as \<^verbatim>\<open>new_data\<close> leaves them and
  \<^verbatim>\<open>data_list_unlink_data\<close> sets them.
\<close>

lemma data_list_append_ptr_correct:
  assumes "chain h to as" "h from = Some c" "cl_next c = 0" "cl_prev c = 0" "from \<noteq> 0" "from \<notin> set as"
  shows "\<exists>h'. data_list_append_ptr h to from = Some (h', from) \<and> chain h' from (from # as)
    \<and> vals h' (from # as) = data_list_append (vals h as) (cl_val c) \<and> (\<forall>b. b \<notin> set (from # as) \<longrightarrow> h' b = h b)"
proof (cases as)
  case Nil
  with assms show ?thesis by (auto simp: chain_def data_list_append_ptr_def data_list_append_def)
next
  case (Cons a as')
  obtain q where q: "seg h 0 to as q 0" using assms(1) by (auto simp: chain_def)
  let ?h1 = "h(from \<mapsto> c\<lparr>cl_next := to\<rparr>)"
  have "seg ?h1 0 to as q 0" using q assms(6) by simp
  from seg_set_prev [OF this _ chain_distinct [OF q], of "from"] obtain h' where
    h': "set_prev to from ?h1 = Some h'" "seg h' from to as q 0" "vals h' as = vals ?h1 as"
      "\<forall>b. b \<noteq> to \<longrightarrow> h' b = ?h1 b"
    using Cons by auto
  have to: "to \<noteq> 0" "to \<in> set as" using q Cons by auto
  then have "h' from = Some (c\<lparr>cl_next := to\<rparr>)" using h'(4) assms(6) by auto
  with h' assms(4,5) have "chain h' from (from # as)" by (auto simp: chain_def)
  with h' to assms \<open>h' from = _\<close> show ?thesis
    by (auto simp: data_list_append_ptr_def set_next_def data_list_append_def)
qed

text \<open>
  Bypassing an element: with an element before it the head is not touched, whichever list it belongs to.
\<close>

lemma bypass_correct:
  assumes "chain h x (as @ e # bs)" "h e = Some c"
  shows "\<exists>h'. bypass h list (cl_prev c) (cl_next c) = Some (h', if as = [] then cl_next c else list)
    \<and> chain h' (if as = [] then cl_next c else x) (as @ bs) \<and> vals h' (as @ bs) = vals h (as @ bs)
    \<and> (\<forall>b. b \<notin> set (as @ bs) \<longrightarrow> h' b = h b)"
proof -
  obtain c' q where k: "h e = Some c'" "e \<noteq> 0" "seg h 0 x as (cl_prev c') e" "seg h e (cl_next c') bs q 0"
    "e \<notin> set as" "e \<notin> set bs" "set as \<inter> set bs = {}" "distinct as" "distinct bs"
    by (rule chain_split [OF assms(1)])
  then have c: "c' = c" using assms(2) by simp
  note k = k [unfolded c]
  have p0: "cl_prev c = 0 \<longleftrightarrow> as = []"
    using k(3) seg_last [OF k(3)] seg_in [OF k(3), of "last as"] by (cases as) auto
  have n0: "cl_next c = 0 \<longleftrightarrow> bs = []"
    using k(4) by (cases bs) auto
  obtain h1 where h1: "(if cl_prev c \<noteq> 0 then map_option (\<lambda>h. (h, list)) (set_next (cl_prev c) (cl_next c) h)
        else Some (h, cl_next c)) = Some (h1, if as = [] then cl_next c else list)"
    and s1: "seg h1 0 (if as = [] then cl_next c else x) as (cl_prev c) (cl_next c)" "vals h1 as = vals h as"
      "\<forall>b. b \<notin> set as \<longrightarrow> h1 b = h b"
  proof (cases "as = []")
    case True
    with p0 k(3) that [of h] show thesis by auto
  next
    case False
    from seg_set_next [OF k(3) False k(8), of "cl_next c"] obtain h1 where
      h1: "set_next (cl_prev c) (cl_next c) h = Some h1" "seg h1 0 x as (cl_prev c) (cl_next c)" "vals h1 as = vals h as"
      "\<forall>b. b \<noteq> cl_prev c \<longrightarrow> h1 b = h b" by blast
    have "cl_prev c \<in> set as" using seg_last [OF k(3) False] False by simp
    with h1(4) have "\<forall>b. b \<notin> set as \<longrightarrow> h1 b = h b" by metis
    with h1 show thesis using that [of h1] False p0 by simp
  qed
  have a1: "\<forall>a \<in> set bs. h1 a = h a" using k(7) s1(3) by blast
  have b1: "seg h1 e (cl_next c) bs q 0" "vals h1 bs = vals h bs"
    using k(4) by (simp_all add: seg_cong [OF a1] vals_cong [OF a1])
  show ?thesis
  proof (cases "bs = []")
    case True
    with h1 s1 n0 show ?thesis by (auto simp: bypass_def chain_def)
  next
    case False
    from seg_set_prev [OF b1(1) False k(9), of "cl_prev c"] obtain h2 where
      h2: "set_prev (cl_next c) (cl_prev c) h1 = Some h2" "seg h2 (cl_prev c) (cl_next c) bs q 0"
        "vals h2 bs = vals h1 bs" "\<forall>b. b \<noteq> cl_next c \<longrightarrow> h2 b = h1 b" by blast
    have n: "cl_next c \<in> set bs" using b1(1) False by (cases bs) auto
    then have a: "\<forall>a \<in> set as. h2 a = h1 a" using h2(4) k(7) by (metis disjoint_iff)
    have s2: "seg h2 0 (if as = [] then cl_next c else x) as (cl_prev c) (cl_next c)" "vals h2 as = vals h as"
      using s1(1,2) by (simp_all only: seg_cong [OF a] vals_cong [OF a])
    have "chain h2 (if as = [] then cl_next c else x) (as @ bs)"
      unfolding chain_def seg_append using s2(1) h2(2) by blast
    moreover have "vals h2 (as @ bs) = vals h (as @ bs)" using s2(2) h2(3) b1(2) by simp
    moreover have "\<forall>b. b \<notin> set (as @ bs) \<longrightarrow> h2 b = h b" using h2(4) s1(3) n by (metis Un_iff set_append)
    moreover have "bypass h list (cl_prev c) (cl_next c) = Some (h2, if as = [] then cl_next c else list)"
      unfolding bypass_def h1 using h2(1) n0 False by simp
    ultimately show ?thesis by blast
  qed
qed

text \<open>
  Taking an element out of its chain: the others keep their order and contents, the element can be added
  to another chain, and the result is the element after it. The head changes only with the first element.
\<close>

lemma data_list_unlink_correct:
  assumes "chain h x (as @ e # bs)" "h e = Some c"
  shows "\<exists>h'. data_list_unlink_ptr h list e = Some (h', if as = [] then cl_next c else list, cl_next c)
    \<and> chain h' (if as = [] then cl_next c else x) (as @ bs) \<and> vals h' (as @ bs) = vals h (as @ bs)
    \<and> h' e = Some (c\<lparr>cl_prev := 0, cl_next := 0\<rparr>) \<and> (\<forall>b. b \<notin> set (as @ e # bs) \<longrightarrow> h' b = h b)"
proof -
  obtain h1 where h1: "bypass h list (cl_prev c) (cl_next c) = Some (h1, if as = [] then cl_next c else list)"
    "chain h1 (if as = [] then cl_next c else x) (as @ bs)" "vals h1 (as @ bs) = vals h (as @ bs)"
    "\<forall>b. b \<notin> set (as @ bs) \<longrightarrow> h1 b = h b"
    using bypass_correct [OF assms] by blast
  have e: "e \<notin> set (as @ bs)" by (rule chain_split [OF assms(1)]) simp
  then have 1: "h1 e = Some c" using h1(4) assms(2) by simp
  let ?h = "h1(e \<mapsto> c\<lparr>cl_prev := 0, cl_next := 0\<rparr>)"
  have "chain ?h (if as = [] then cl_next c else x) (as @ bs)" "vals ?h (as @ bs) = vals h (as @ bs)"
    using h1(2,3) e by (simp_all add: chain_def del: vals_simps)
  with h1(1,4) e 1 assms(2) show ?thesis
    by (auto simp: data_list_unlink_ptr_def set_prev_def set_next_def)
qed

lemma data_list_rm_correct:
  assumes "chain h x (as @ e # bs)" "h e = Some c"
  shows "\<exists>h'. data_list_rm_ptr h list e = Some (h', if as = [] then cl_next c else list, cl_next c)
    \<and> chain h' (if as = [] then cl_next c else x) (as @ bs) \<and> vals h' (as @ bs) = vals h (as @ bs) \<and> h' e = None
    \<and> (\<forall>b. b \<notin> set (as @ e # bs) \<longrightarrow> h' b = h b)"
proof -
  obtain h1 where h1: "data_list_unlink_ptr h list e = Some (h1, if as = [] then cl_next c else list, cl_next c)"
    "chain h1 (if as = [] then cl_next c else x) (as @ bs)" "vals h1 (as @ bs) = vals h (as @ bs)"
    "\<forall>b. b \<notin> set (as @ e # bs) \<longrightarrow> h1 b = h b"
    using data_list_unlink_correct [OF assms] by blast
  have e: "e \<notin> set (as @ bs)" by (rule chain_split [OF assms(1)]) simp
  have "chain (h1(e := None)) (if as = [] then cl_next c else x) (as @ bs)" "vals (h1(e := None)) (as @ bs) = vals h (as @ bs)"
    using h1(2,3) e by (simp_all add: chain_def del: vals_simps)
  with h1(1,4) show ?thesis by (auto simp: data_list_rm_ptr_def)
qed

text \<open>The removal of a probe gives the chain that \<open>probe_list_rm_element\<close> leaves in its library.\<close>

lemma probe_list_rm_correct:
  assumes "chain h x (as @ e # bs)" "h e = Some c"
  shows "\<exists>h'. probe_list_rm_ptr h x e = Some (h', if as = [] then cl_next c else x, cl_next c)
    \<and> chain h' (if as = [] then cl_next c else x) (as @ bs) \<and> h' e = None
    \<and> vals h' (as @ bs) = d_list (probe_list_rm_element l (vals h as) (cl_val c) (vals h bs))"
proof -
  obtain h1 where h1: "bypass h x (cl_prev c) (cl_next c) = Some (h1, if as = [] then cl_next c else x)"
    "chain h1 (if as = [] then cl_next c else x) (as @ bs)" "vals h1 (as @ bs) = vals h (as @ bs)"
    using bypass_correct [OF assms] by blast
  have e: "e \<notin> set (as @ bs)" by (rule chain_split [OF assms(1)]) simp
  have "chain (h1(e := None)) (if as = [] then cl_next c else x) (as @ bs)" "vals (h1(e := None)) (as @ bs) = vals h (as @ bs)"
    using h1(2,3) e by (simp_all add: chain_def del: vals_simps)
  with h1(1) assms(2) show ?thesis by (auto simp: probe_list_rm_ptr_def probe_list_rm_element_def)
qed

lemma last_ptr_seg:
  "seg h p x as q 0 \<Longrightarrow> length as \<le> fuel \<Longrightarrow> last_ptr fuel h p x = Some q"
proof (induction as arbitrary: p x fuel)
  case (Cons a as)
  then obtain f where "fuel = Suc f" by (cases fuel) auto
  with Cons show ?case by (subst last_ptr.simps) auto
qed (simp add: last_ptr.simps)

text \<open>Joining two chains: the second one's elements follow the first one's.\<close>

lemma append_probes_correct:
  assumes "chain h from as" "chain h to bs" "as \<noteq> []" "bs \<noteq> []" "set as \<inter> set bs = {}" "length as \<le> fuel"
  shows "\<exists>h'. append_probes_ptr fuel h to from = Some (h', from) \<and> chain h' from (as @ bs)
    \<and> vals h' (as @ bs) = vals h as @ vals h bs"
proof -
  obtain q r where q: "seg h 0 from as q 0" and r: "seg h 0 to bs r 0" using assms(1,2) by (auto simp: chain_def)
  obtain a as' c where as: "as = a # as'" "from = a" "h a = Some c" "a \<noteq> 0" "seg h a (cl_next c) as' q 0"
    using q assms(3) by (cases as) auto
  have l: "last_ptr fuel h from from = Some q"
  proof (cases fuel)
    case (Suc f)
    then show ?thesis using as last_ptr_seg [OF as(5), of f] assms(6) by (subst last_ptr.simps) simp
  qed (use assms(6) as in simp)
  from seg_set_next [OF q assms(3) chain_distinct [OF q], of to] obtain h1 where
    h1: "set_next q to h = Some h1" "seg h1 0 from as q to" "vals h1 as = vals h as" "\<forall>b. b \<noteq> q \<longrightarrow> h1 b = h b" by blast
  have "q \<in> set as" using seg_last [OF q assms(3)] assms(3) by simp
  then have b: "\<forall>b \<in> set bs. h1 b = h b" using h1(4) assms(5) by (metis disjoint_iff)
  have "seg h1 0 to bs r 0" using r by (simp add: seg_cong [OF b])
  from seg_set_prev [OF this assms(4) chain_distinct [OF r], of q] obtain h2 where
    h2: "set_prev to q h1 = Some h2" "seg h2 q to bs r 0" "vals h2 bs = vals h1 bs" "\<forall>b. b \<noteq> to \<longrightarrow> h2 b = h1 b" by blast
  have "to \<in> set bs" using r assms(4) by (cases bs) auto
  then have a2: "\<forall>a \<in> set as. h2 a = h1 a" using h2(4) assms(5) by (metis disjoint_iff)
  have "seg h2 0 from as q to" "vals h2 as = vals h as" using h1(2,3) by (simp_all add: seg_cong [OF a2] vals_cong [OF a2])
  with l h1(1) h2(1-3) show ?thesis
    by (auto simp: append_probes_ptr_def chain_def seg_append vals_cong [OF b])
qed

section \<open>Moving a library between chains\<close>

text \<open>
  The step of \<^verbatim>\<open>resolve_collisions_for_rm_msg\<close> for a library requested without probes: it is unlinked from
  the current chain and added to the new one, and the request is removed with the head pointer of the
  current chain.
\<close>

definition take_library_ptr :: "'v heap \<Rightarrow> nat \<Rightarrow> nat \<Rightarrow> nat \<Rightarrow> nat \<Rightarrow> ('v heap \<times> nat \<times> nat \<times> nat) option" where
  "take_library_ptr h cur new sch p =
     Option.bind (data_list_unlink_ptr h cur sch) (\<lambda>(h, cur, _).
     Option.bind (data_list_append_ptr h new sch) (\<lambda>(h, new).
     map_option (\<lambda>(h, cur, next_l). (h, cur, new, next_l)) (data_list_rm_ptr h cur p)))"

lemma chain_cong: "\<forall>a \<in> set as. h' a = h a \<Longrightarrow> chain h' x as = chain h x as"
  unfolding chain_def using seg_cong [of as h' h] by blast

lemma chain_next: "chain h x (as @ e # bs) \<Longrightarrow> h e = Some c \<Longrightarrow> cl_next c = (case bs of [] \<Rightarrow> 0 | b # _ \<Rightarrow> b)"
  by (auto simp: chain_def seg_append split: list.split)

text \<open>
  That the wrong head pointer is passed does no harm: the pointers are relinked to the chains that the
  list operations describe, the current one without the library, the new one with it in front and
  without the request; nothing else changes, and the loop goes on with the request's successor.
\<close>

theorem move_library_ptr:
  assumes "chain h cur (as @ s # bs)" "chain h new (ks @ p # rest)"
    and "set (as @ s # bs) \<inter> set (ks @ p # rest) = {}"
  shows "\<exists>h' cur'. take_library_ptr h cur new s p = Some (h', cur', s, case rest of [] \<Rightarrow> 0 | r # _ \<Rightarrow> r)
    \<and> chain h' cur' (as @ bs) \<and> chain h' s (s # ks @ rest)
    \<and> vals h' (as @ bs) = vals h as @ vals h bs
    \<and> vals h' (s # ks @ rest) = data_list_append (vals h ks @ vals h rest) (cl_val (the (h s)))
    \<and> h' p = None \<and> (\<forall>b. b \<notin> set (as @ s # bs) \<union> set (ks @ p # rest) \<longrightarrow> h' b = h b)"
proof -
  obtain cs qs where cs: "h s = Some cs" "s \<noteq> 0" "s \<notin> set as" "s \<notin> set bs"
    by (rule chain_split [OF assms(1)])
  have p: "p \<notin> set ks" "p \<notin> set rest"
    by (rule chain_split [OF assms(2)]; simp)+
  obtain h1 where h1: "data_list_unlink_ptr h cur s = Some (h1, if as = [] then cl_next cs else cur, cl_next cs)"
      "chain h1 (if as = [] then cl_next cs else cur) (as @ bs)" "vals h1 (as @ bs) = vals h (as @ bs)"
      "h1 s = Some (cs\<lparr>cl_prev := 0, cl_next := 0\<rparr>)" "\<forall>b. b \<notin> set (as @ s # bs) \<longrightarrow> h1 b = h b"
    using data_list_unlink_correct [OF assms(1) cs(1), of cur] by (auto split: if_splits)
  let ?cur = "if as = [] then cl_next cs else cur"
  have n1: "\<forall>b \<in> set (ks @ p # rest). h1 b = h b" using h1(5) assms(3) by blast
  then have c1: "chain h1 new (ks @ p # rest)" using assms(2) chain_cong [of "ks @ p # rest" h1 h new] by simp
  have "s \<notin> set (ks @ p # rest)" using assms(3) by auto
  from data_list_append_ptr_correct [OF c1 h1(4) _ _ cs(2) this] obtain h2 where
    h2: "data_list_append_ptr h1 new s = Some (h2, s)" "chain h2 s (s # ks @ p # rest)"
      "vals h2 (s # ks @ p # rest) = data_list_append (vals h1 (ks @ p # rest)) (cl_val cs)"
      "\<forall>b. b \<notin> set (s # ks @ p # rest) \<longrightarrow> h2 b = h1 b" by auto
  obtain cp where cp: "h2 p = Some cp" using chain_split [of h2 s "s # ks" p rest] h2(2) by auto
  have "chain h2 s ((s # ks) @ p # rest)" using h2(2) by simp
  note r = data_list_rm_correct [OF this cp, of ?cur] and n = chain_next [OF this cp]
  obtain h3 where h3: "data_list_rm_ptr h2 ?cur p = Some (h3, ?cur, cl_next cp)" "chain h3 s (s # ks @ rest)"
      "vals h3 (s # ks @ rest) = vals h2 (s # ks @ rest)" "h3 p = None"
      "\<forall>b. b \<notin> set (s # ks @ p # rest) \<longrightarrow> h3 b = h2 b"
    using r by auto
  have a: "\<forall>b \<in> set (as @ bs). h3 b = h1 b"
    using h3(5) h2(4) assms(3) cs(3,4) by (auto simp: disjoint_iff)
  have "chain h3 ?cur (as @ bs)" "vals h3 (as @ bs) = vals h as @ vals h bs"
    using h1(2,3) unfolding chain_cong [OF a] vals_cong [OF a] by simp_all
  moreover have "vals h2 (s # ks @ rest) = data_list_append (vals h ks @ vals h rest) (cl_val cs)"
    using h2(3) vals_cong [OF n1] by (auto simp: data_list_append_def vals_def)
  moreover have "\<forall>b. b \<notin> set (as @ s # bs) \<union> set (ks @ p # rest) \<longrightarrow> h3 b = h b"
    using h3(5) h2(4) h1(5) by auto
  ultimately show ?thesis
    using h1(1) h2(1) h3 n cs(1)
    by (intro exI [of _ h3] exI [of _ ?cur]) (simp add: take_library_ptr_def)
qed

text \<open>Two chains of two elements each.\<close>

definition sample_lib_at :: "byte \<Rightarrow> data_t" where "sample_lib_at c = new_data (LibData [c])"

definition sample_heap :: "data_t heap" where
  "sample_heap =
     [1 \<mapsto> \<lparr>cl_next = 2, cl_prev = 0, cl_val = sample_lib_at 10\<rparr>,
      2 \<mapsto> \<lparr>cl_next = 0, cl_prev = 1, cl_val = sample_lib_at 20\<rparr>,
      3 \<mapsto> \<lparr>cl_next = 4, cl_prev = 0, cl_val = sample_lib_at 30\<rparr>,
      4 \<mapsto> \<lparr>cl_next = 0, cl_prev = 3, cl_val = sample_lib_at 40\<rparr>]"

theorem move_library_ptr_witness:
  "\<exists>h cur. take_library_ptr sample_heap 1 3 1 3 = Some (h, cur, 1, 4) \<and> chain h cur [2] \<and> chain h 1 [1, 4]
     \<and> vals h [1, 4] = [sample_lib_at 10, sample_lib_at 40]"
proof -
  have c: "chain sample_heap 1 ([] @ 1 # [2])" "chain sample_heap 3 ([] @ 3 # [4])"
    by (simp_all add: chain_def sample_heap_def)
  have "set ([] @ 1 # [2]) \<inter> set ([] @ 3 # [4 :: nat]) = {}" by simp
  from move_library_ptr [OF c this] obtain h cur where
    "take_library_ptr sample_heap 1 3 1 3 = Some (h, cur, 1, 4)" "chain h cur ([] @ [2])" "chain h 1 (1 # [] @ [4])"
    "vals h (1 # [] @ [4]) = data_list_append (vals sample_heap [] @ vals sample_heap [4]) (cl_val (the (sample_heap 1)))"
    by auto
  then show ?thesis by (simp add: data_list_append_def) (simp add: sample_heap_def)
qed

end
