(* ===== verification/Dll_Loops.thy ===== *)
theory Dll_Loops
  imports Dll_Heap
begin

text \<open>
  The loops over chains of \<^verbatim>\<open>daemon/da_inst.c\<close> at the level of pointers, on the operations of \<open>Dll_Heap\<close>:
  freeing a list, searching one, and moving the elements of one list to another. The loops run on fuel;
  the number of elements is enough for each.
\<close>

section \<open>Freeing\<close>

text \<open>\<^verbatim>\<open>free_probe_list\<close>: the \<^verbatim>\<open>func\<close> block of a probe belongs to its element and is freed with it.\<close>

fun free_probe_list_ptr :: "nat \<Rightarrow> 'v heap \<Rightarrow> nat \<Rightarrow> 'v heap option" where
  "free_probe_list_ptr fuel h probe =
     (if probe = 0 then Some h
      else case fuel of 0 \<Rightarrow> None
      | Suc fuel \<Rightarrow> Option.bind (h probe) (\<lambda>c. free_probe_list_ptr fuel (h(probe := None)) (cl_next c)))"

declare free_probe_list_ptr.simps [simp del]

text \<open>
  \<^verbatim>\<open>free_data_list\<close> with \<^verbatim>\<open>free_data\<close>: libraries and probes are in heaps of their own; what is kept of a
  library here is the head of its probes. The result has both heaps and the list's new head.
\<close>

fun free_data_list_ptr :: "nat \<Rightarrow> nat heap \<Rightarrow> 'v heap \<Rightarrow> nat \<Rightarrow> (nat heap \<times> 'v heap \<times> nat) option" where
  "free_data_list_ptr fuel hl hp data =
     (if data = 0 then Some (hl, hp, data)
      else case fuel of 0 \<Rightarrow> None
      | Suc fuel \<Rightarrow>
          Option.bind (hl data) (\<lambda>c.
          Option.bind (free_probe_list_ptr fuel hp (cl_val c)) (\<lambda>hp.
          free_data_list_ptr fuel (hl(data := None)) hp (cl_next c))))"

declare free_data_list_ptr.simps [simp del]

section \<open>Searching and moving\<close>

text \<open>\<^verbatim>\<open>data_list_find_data\<close> with \<^verbatim>\<open>cmp_libs\<close>; 0 when nothing is found.\<close>

fun find_data_ptr :: "nat \<Rightarrow> data_t heap \<Rightarrow> nat \<Rightarrow> data_t \<Rightarrow> nat option" where
  "find_data_ptr fuel h where_p what =
     (if where_p = 0 then Some 0
      else case fuel of 0 \<Rightarrow> None
      | Suc fuel \<Rightarrow>
          Option.bind (h where_p) (\<lambda>c.
          if d_hash (cl_val c) = d_hash what \<and> cmp_libs (cl_val c) what then Some where_p
          else find_data_ptr fuel h (cl_next c) what))"

declare find_data_ptr.simps [simp del]

text \<open>
  \<^verbatim>\<open>data_list_move_with_hash\<close>: \<open>n\<close> is the fuel of a search. An element whose library is in \<open>to\<close> already
  gives its probes away and stays allocated, linked to nothing.
\<close>

fun data_list_move_ptr ::
  "nat \<Rightarrow> nat \<Rightarrow> data_t heap \<Rightarrow> nat \<Rightarrow> nat \<Rightarrow> nat \<Rightarrow> (data_t heap \<times> nat \<times> nat) option" where
  "data_list_move_ptr n fuel h to from p =
     (if p = 0 then Some (h, to, from)
      else case fuel of 0 \<Rightarrow> None
      | Suc fuel \<Rightarrow>
          Option.bind (h p) (\<lambda>cp.
          Option.bind (find_data_ptr n h to (cl_val cp)) (\<lambda>sch.
          Option.bind (data_list_unlink_ptr h from p) (\<lambda>(h, from, next).
          if sch = 0 then
            Option.bind (data_list_append_ptr h to p) (\<lambda>(h, to). data_list_move_ptr n fuel h to from next)
          else
            Option.bind (h sch) (\<lambda>cs.
            Option.bind (data_list_append_probes_hash (cl_val cs) (cl_val cp)) (\<lambda>v.
            data_list_move_ptr n fuel (h(sch \<mapsto> cs\<lparr>cl_val := v\<rparr>)) to from next))))))"

declare data_list_move_ptr.simps [simp del]

section \<open>Freeing a list\<close>

text \<open>Freeing a chain frees exactly its elements, each of them once.\<close>

lemma seg_rm: "a \<notin> set as \<Longrightarrow> seg h p x as q y \<Longrightarrow> seg (h(a := None)) p x as q y"
  by simp

lemma free_probe_list_seg:
  "seg h p x as q 0 \<Longrightarrow> length as \<le> fuel \<Longrightarrow> free_probe_list_ptr fuel h x = Some (h |` (- set as))"
proof (induction as arbitrary: h p x fuel)
  case Nil
  then show ?case by (simp add: free_probe_list_ptr.simps)
next
  case (Cons a as)
  then obtain c f where c: "x = a" "a \<noteq> 0" "h a = Some c" "seg h a (cl_next c) as q 0" and f: "fuel = Suc f"
    by (cases fuel) auto
  have "a \<notin> set as" using chain_distinct [OF Cons.prems(1)] by simp
  with c have "seg (h(a := None)) a (cl_next c) as q 0" by simp
  moreover have "length as \<le> f" using Cons.prems(2) f by simp
  ultimately have "free_probe_list_ptr f (h(a := None)) (cl_next c) = Some ((h(a := None)) |` (- set as))"
    by (rule Cons.IH)
  moreover have "(h(a := None)) |` (- set as) = h |` (- set (a # as))" by (auto simp: restrict_map_def)
  ultimately have "free_probe_list_ptr f (h(a := None)) (cl_next c) = Some (h |` (- set (a # as)))" by (simp only:)
  with c f show ?case by (subst free_probe_list_ptr.simps) (simp del: fun_upd_apply)
qed

lemma free_data_list_seg:
  assumes "seg hl p x as q 0" "\<And>a. a \<in> set as \<Longrightarrow> chain hp (cl_val (the (hl a))) (ps a)"
    and "\<And>a b. a \<in> set as \<Longrightarrow> b \<in> set as \<Longrightarrow> a \<noteq> b \<Longrightarrow> set (ps a) \<inter> set (ps b) = {}"
    and "length as \<le> fuel" "\<And>a. a \<in> set as \<Longrightarrow> length (ps a) + length as \<le> fuel"
  shows "free_data_list_ptr fuel hl hp x = Some (hl |` (- set as), hp |` (- (\<Union>a \<in> set as. set (ps a))), 0)"
  using assms
proof (induction as arbitrary: hl hp p x fuel)
  case Nil
  then show ?case by (simp add: free_data_list_ptr.simps)
next
  case (Cons a as)
  then obtain c f where c: "x = a" "a \<noteq> 0" "hl a = Some c" "seg hl a (cl_next c) as q 0" and f: "fuel = Suc f"
    by (cases fuel) auto
  have a: "a \<notin> set as" using chain_distinct [OF Cons.prems(1)] by simp
  let ?hp = "hp |` (- set (ps a))"
  obtain r where "seg hp 0 (cl_val c) (ps a) r 0"
    using Cons.prems(2) [of a] c(3) by (auto simp: chain_def)
  moreover have "length (ps a) \<le> f" using Cons.prems(5) [of a] f by simp
  ultimately have fr: "free_probe_list_ptr f hp (cl_val c) = Some ?hp" by (rule free_probe_list_seg)
  have same: "chain ?hp y (ps b) = chain hp y (ps b)" if "b \<in> set as" for b y
    using Cons.prems(3) [of b a] that a by (intro chain_cong) (auto simp: restrict_map_def)
  have "free_data_list_ptr f (hl(a := None)) ?hp (cl_next c)
      = Some ((hl(a := None)) |` (- set as), ?hp |` (- (\<Union>b \<in> set as. set (ps b))), 0)"
  proof (rule Cons.IH)
    show "seg (hl(a := None)) a (cl_next c) as q 0" using c(4) a by simp
    fix b assume b: "b \<in> set as"
    then show "chain ?hp (cl_val (the ((hl(a := None)) b))) (ps b)"
      using Cons.prems(2) [of b] a same [OF b] by auto
    show "length (ps b) + length as \<le> f" using Cons.prems(5) [of b] b f by simp
  qed (use Cons.prems(3,4) f in auto)
  moreover have "(hl(a := None)) |` (- set as) = hl |` (- set (a # as))"
    "?hp |` (- (\<Union>b \<in> set as. set (ps b))) = hp |` (- (\<Union>b \<in> set (a # as). set (ps b)))"
    by (auto simp: restrict_map_def)
  ultimately have "free_data_list_ptr f (hl(a := None)) ?hp (cl_next c)
      = Some (hl |` (- set (a # as)), hp |` (- (\<Union>b \<in> set (a # as). set (ps b))), 0)" by (simp only:)
  with c f fr show ?case by (subst free_data_list_ptr.simps) (simp del: fun_upd_apply)
qed

section \<open>Moving a list\<close>

lemma find_data_ptr_seg:
  "seg h p x as q 0 \<Longrightarrow> length as \<le> n \<Longrightarrow>
     find_data_ptr n h x what = Some (case data_list_find_data (vals h as) what cmp_libs of None \<Rightarrow> 0 | Some i \<Rightarrow> as ! i)"
proof (induction as arbitrary: p x n)
  case Nil
  then show ?case by (simp add: find_data_ptr.simps)
next
  case (Cons a as)
  then obtain c m where c: "x = a" "a \<noteq> 0" "h a = Some c" "seg h a (cl_next c) as q 0" and m: "n = Suc m"
    by (cases n) auto
  from Cons.IH [OF c(4), of m] Cons.prems(2) m
  have "find_data_ptr m h (cl_next c) what
      = Some (case data_list_find_data (vals h as) what cmp_libs of None \<Rightarrow> 0 | Some i \<Rightarrow> as ! i)" by simp
  with c m show ?case by (subst find_data_ptr.simps) (auto split: option.split)
qed

text \<open>Changing the contents of an element leaves the chain and changes one value.\<close>

lemma seg_set_val:
  assumes "h a = Some c"
  shows "seg (h(a \<mapsto> c\<lparr>cl_val := v\<rparr>)) p x as q y = seg h p x as q y"
proof (induction as arbitrary: p x)
  case (Cons b as)
  with assms show ?case by (cases "b = a") auto
qed simp

lemma vals_set_val:
  assumes "distinct as" "i < length as"
  shows "vals (h(as ! i \<mapsto> c\<lparr>cl_val := v\<rparr>)) as = (vals h as)[i := v]"
  using assms by (intro nth_equalityI) (auto simp: vals_def nth_list_update nth_eq_iff_index_eq)

lemma chain_set_val:
  assumes "h a = Some c"
  shows "chain (h(a \<mapsto> c\<lparr>cl_val := v\<rparr>)) x as = chain h x as"
  by (simp only: chain_def seg_set_val [of h, OF assms])

lemma chain_dom: "chain h x as \<Longrightarrow> set as \<subseteq> dom h"
  by (auto simp: chain_def dest!: seg_in)

text \<open>One element taken from the front of \<open>from\<close>; what is left is a chain of its own.\<close>

lemma take_first:
  assumes "chain h p (b # bs)"
  obtains c h1 where "p = b" "b \<noteq> 0" "h b = Some c" "b \<notin> set bs"
    "data_list_unlink_ptr h p p = Some (h1, cl_next c, cl_next c)" "chain h1 (cl_next c) bs" "vals h1 bs = vals h bs"
    "h1 b = Some (c\<lparr>cl_prev := 0, cl_next := 0\<rparr>)" "\<forall>a. a \<notin> set (b # bs) \<longrightarrow> h1 a = h a" "dom h1 = dom h"
proof -
  have ch: "chain h p ([] @ b # bs)" using assms by simp
  obtain c q where c: "h b = Some c" "b \<noteq> 0" "b \<notin> set bs" by (rule chain_split [OF ch])
  have p: "p = b" using assms by (auto simp: chain_def)
  from data_list_unlink_correct [OF ch c(1), of p] obtain h1 where h1:
    "data_list_unlink_ptr h p p = Some (h1, cl_next c, cl_next c)" "chain h1 (cl_next c) bs" "vals h1 bs = vals h bs"
    "h1 b = Some (c\<lparr>cl_prev := 0, cl_next := 0\<rparr>)" "\<forall>a. a \<notin> set (b # bs) \<longrightarrow> h1 a = h a"
    using p by auto
  have "set (b # bs) \<subseteq> dom h" by (rule chain_dom [OF assms])
  moreover have "set (b # bs) \<subseteq> dom h1" using chain_dom [OF h1(2)] h1(4) by auto
  ultimately have "a \<in> dom h1 \<longleftrightarrow> a \<in> dom h" for a
    using h1(5) by (cases "a \<in> set (b # bs)") (blast, simp add: domIff)
  then have "dom h1 = dom h" by blast
  with that p c h1 show thesis by blast
qed

lemma dom_frame: "A \<subseteq> dom h' \<Longrightarrow> A \<subseteq> dom h \<Longrightarrow> \<forall>b. b \<notin> A \<longrightarrow> h' b = h b \<Longrightarrow> dom h' = dom h"
  by (metis (no_types, lifting) domIff subsetD subsetI subset_antisym)

text \<open>What the loop promises, of the heap it starts with.\<close>

definition moved_to :: "data_t heap \<Rightarrow> nat list \<Rightarrow> data_t list option \<Rightarrow> (data_t heap \<times> nat \<times> nat) option \<Rightarrow> bool" where
  "moved_to h cells res r \<longleftrightarrow>
     (case res of
        None \<Rightarrow> r = None
      | Some vs \<Rightarrow> \<exists>h' to' as'. r = Some (h', to', 0) \<and> chain h' to' as' \<and> vals h' as' = vs
          \<and> set as' \<subseteq> set cells \<and> dom h' = dom h \<and> (\<forall>b. b \<notin> set cells \<longrightarrow> h' b = h b))"

lemma moved_to_step:
  assumes "moved_to h1 cells1 res r" "set cells1 \<subseteq> set cells" "dom h1 = dom h" "\<forall>b. b \<notin> set cells \<longrightarrow> h1 b = h b"
  shows "moved_to h cells res r"
proof (cases res)
  case None
  with assms(1) show ?thesis by (simp add: moved_to_def)
next
  case (Some vs)
  with assms(1) obtain h' to' as' where "r = Some (h', to', 0)" "chain h' to' as'" "vals h' as' = vs"
    "set as' \<subseteq> set cells1" "dom h' = dom h1" "\<forall>b. b \<notin> set cells1 \<longrightarrow> h' b = h1 b"
    by (auto simp: moved_to_def)
  moreover from this(4,6) assms(2,4) have "set as' \<subseteq> set cells" "\<forall>b. b \<notin> set cells \<longrightarrow> h' b = h b"
    by (meson subset_trans, metis subsetD)
  ultimately show ?thesis using Some assms(3) unfolding moved_to_def by auto
qed

lemma data_list_move_chain:
  assumes "chain h to as" "chain h p bs" "set as \<inter> set bs = {}" "length as + length bs \<le> n" "length bs \<le> fuel"
  shows "moved_to h (as @ bs) (data_list_move_with_hash (vals h as) (vals h bs)) (data_list_move_ptr n fuel h to p p)"
  using assms
proof (induction bs arbitrary: h to p as fuel)
  case Nil
  then have "p = 0" by (simp add: chain_def)
  with Nil.prems(1) show ?case by (auto simp: moved_to_def data_list_move_ptr.simps)
next
  case (Cons b bs)
  obtain c h1 where c: "p = b" "b \<noteq> 0" "h b = Some c" "b \<notin> set bs"
    "data_list_unlink_ptr h p p = Some (h1, cl_next c, cl_next c)" "chain h1 (cl_next c) bs" "vals h1 bs = vals h bs"
    "h1 b = Some (c\<lparr>cl_prev := 0, cl_next := 0\<rparr>)" "\<forall>a. a \<notin> set (b # bs) \<longrightarrow> h1 a = h a" "dom h1 = dom h"
    by (rule take_first [OF Cons.prems(2)])
  obtain f where f: "fuel = Suc f" using Cons.prems(5) by (cases fuel) auto
  have same: "\<forall>a \<in> set as. h1 a = h a" using c(9) Cons.prems(3) by auto
  have to1: "chain h1 to as" "vals h1 as = vals h as"
    using Cons.prems(1) by (simp_all add: chain_cong [OF same] vals_cong [OF same])
  let ?find = "data_list_find_data (vals h as) (cl_val c) cmp_libs"
  have find: "find_data_ptr n h to (cl_val c) = Some (case ?find of None \<Rightarrow> 0 | Some i \<Rightarrow> as ! i)"
    using Cons.prems(1,4) find_data_ptr_seg [of h 0 to as _ n "cl_val c"] by (auto simp: chain_def)
  show ?case
  proof (cases ?find)
    case None
    have "b \<notin> set as" using Cons.prems(3) by simp
    from data_list_append_ptr_correct [OF to1(1) c(8) _ _ c(2) this] obtain h2 where h2:
      "data_list_append_ptr h1 to b = Some (h2, b)" "chain h2 b (b # as)"
      "vals h2 (b # as) = data_list_append (vals h as) (cl_val c)" "\<forall>a. a \<notin> set (b # as) \<longrightarrow> h2 a = h1 a"
      using to1(2) by auto
    have bs: "\<forall>a \<in> set bs. h2 a = h1 a" using h2(4) c(4) Cons.prems(3) by auto
    have "set (b # as) \<subseteq> dom h2" "set (b # as) \<subseteq> dom h1"
      using chain_dom [OF h2(2)] chain_dom [OF to1(1)] c(8) by auto
    then have d2: "dom h2 = dom h" unfolding c(10) [symmetric] using h2(4) by (rule dom_frame)
    have "moved_to h2 ((b # as) @ bs) (data_list_move_with_hash (vals h2 (b # as)) (vals h2 bs))
        (data_list_move_ptr n f h2 b (cl_next c) (cl_next c))"
      using Cons.prems(3,4,5) f c(4,6) h2(2) by (intro Cons.IH) (auto simp: chain_cong [OF bs])
    then have "moved_to h (as @ b # bs) (data_list_move_with_hash (vals h2 (b # as)) (vals h2 bs))
        (data_list_move_ptr n f h2 b (cl_next c) (cl_next c))"
      by (rule moved_to_step) (use d2 h2(4) c(9) in auto)
    moreover have "data_list_move_ptr n fuel h to p p = data_list_move_ptr n f h2 b (cl_next c) (cl_next c)"
      using c(1-3,5) f find None h2(1) by (subst data_list_move_ptr.simps) simp
    moreover have "data_list_move_with_hash (vals h as) (vals h (b # bs))
        = data_list_move_with_hash (vals h2 (b # as)) (vals h2 bs)"
      using None c(3,7) vals_cong [OF bs] by (simp only: h2(3)) simp
    ultimately show ?thesis by simp
  next
    case (Some i)
    then have i: "i < length as" using find_data_SomeD [OF Some] by (simp add: vals_def)
    then have s: "as ! i \<in> set as" by simp
    then obtain cs where cs: "h1 (as ! i) = Some cs" "as ! i \<noteq> 0"
      using to1(1) by (auto simp: chain_def dest: seg_in)
    have v: "vals h as ! i = cl_val cs" using i cs(1) same s by (simp add: vals_def)
    have ptr: "data_list_move_ptr n fuel h to p p =
        Option.bind (data_list_append_probes_hash (cl_val cs) (cl_val c)) (\<lambda>v.
          data_list_move_ptr n f (h1(as ! i \<mapsto> cs\<lparr>cl_val := v\<rparr>)) to (cl_next c) (cl_next c))"
      using c(1-3,5) f find Some cs by (subst data_list_move_ptr.simps) simp
    have lst: "data_list_move_with_hash (vals h as) (vals h (b # bs)) =
        Option.bind (data_list_append_probes_hash (cl_val cs) (cl_val c)) (\<lambda>v.
          data_list_move_with_hash ((vals h as)[i := v]) (vals h bs))"
      using Some c(3) v by (simp split: option.split)
    show ?thesis
    proof (cases "data_list_append_probes_hash (cl_val cs) (cl_val c)")
      case None
      then show ?thesis unfolding ptr lst by (simp add: moved_to_def)
    next
      case (Some v)
      let ?h2 = "h1(as ! i \<mapsto> cs\<lparr>cl_val := v\<rparr>)"
      have n: "as ! i \<notin> set bs" using s Cons.prems(3) by auto
      have "distinct as" using to1(1) chain_distinct by (auto simp: chain_def)
      then have v2: "vals ?h2 as = (vals h as)[i := v]" "vals ?h2 bs = vals h bs"
        using i n c(7) by (simp_all only: vals_set_val to1(2) vals_frame not_False_eq_True)
      have "moved_to ?h2 (as @ bs) (data_list_move_with_hash (vals ?h2 as) (vals ?h2 bs))
          (data_list_move_ptr n f ?h2 to (cl_next c) (cl_next c))"
        using Cons.prems(3,4,5) f c(6) to1(1) by (intro Cons.IH) (simp_all only: chain_set_val [of h1, OF cs(1)], auto)
      then have "moved_to h (as @ b # bs) (data_list_move_with_hash (vals ?h2 as) (vals ?h2 bs))
          (data_list_move_ptr n f ?h2 to (cl_next c) (cl_next c))"
        by (rule moved_to_step) (use c(9,10) cs(1) s in auto)
      then show ?thesis unfolding ptr lst Some v2 by simp
    qed
  qed
qed

section \<open>Properties\<close>

text \<open>
  Freeing a list of libraries frees every library and every probe of theirs once, touches nothing that is
  not theirs, and leaves the head NULL.
\<close>

theorem free_list_exact:
  assumes "chain hl data as" "\<forall>a \<in> set as. chain hp (cl_val (the (hl a))) (ps a)"
    and "\<forall>a \<in> set as. \<forall>b \<in> set as. a \<noteq> b \<longrightarrow> set (ps a) \<inter> set (ps b) = {}"
    and "\<forall>a \<in> set as. length (ps a) + length as \<le> fuel"
  shows "free_data_list_ptr fuel hl hp data = Some (hl |` (- set as), hp |` (- (\<Union>a \<in> set as. set (ps a))), 0)"
proof -
  obtain q where q: "seg hl 0 data as q 0" using assms(1) by (auto simp: chain_def)
  show ?thesis
  proof (rule free_data_list_seg [OF q])
    show "length as \<le> fuel" using assms(4) by (cases as) auto
  qed (use assms in auto)
qed

text \<open>
  C25. Moving the received libraries to the installed ones works on the pointers as on the lists: where the
  list operation faults the loop uses a NULL pointer, otherwise the received chain ends up empty and the
  installed one holds what the list operation computes. Nothing is freed: a library that was merged into
  another stays allocated although nothing points to it any more, against the comment of the function.
\<close>

theorem move_list_ptr:
  assumes "chain h to as" "chain h p bs" "set as \<inter> set bs = {}"
    and "length as + length bs \<le> n" "length bs \<le> fuel"
  shows "case data_list_move_with_hash (vals h as) (vals h bs) of
      None \<Rightarrow> data_list_move_ptr n fuel h to p p = None
    | Some vs \<Rightarrow> \<exists>h' to' as'. data_list_move_ptr n fuel h to p p = Some (h', to', 0)
        \<and> chain h' to' as' \<and> vals h' as' = vs \<and> set as' \<subseteq> set (as @ bs)
        \<and> dom h' = dom h \<and> (\<forall>b. b \<notin> set (as @ bs) \<longrightarrow> h' b = h b)"
  using data_list_move_chain [OF assms] unfolding moved_to_def .

text \<open>One installed library, two received ones; the first of them is the installed one again.\<close>

definition one_probe_lib :: "byte \<Rightarrow> u64 \<Rightarrow> data_t" where
  "one_probe_lib c addr = (new_data (LibData [c]))\<lparr>d_list := [new_probe 12 addr [] 1], d_func_num := 1, d_size := 18\<rparr>"

definition move_heap :: "data_t heap" where
  "move_heap =
     [1 \<mapsto> \<lparr>cl_next = 0, cl_prev = 0, cl_val = one_probe_lib 10 100\<rparr>,
      2 \<mapsto> \<lparr>cl_next = 3, cl_prev = 0, cl_val = one_probe_lib 10 200\<rparr>,
      3 \<mapsto> \<lparr>cl_next = 0, cl_prev = 2, cl_val = one_probe_lib 20 300\<rparr>]"

theorem move_list_ptr_witness:
  "\<exists>h to as v. data_list_move_ptr 3 2 move_heap 1 2 2 = Some (h, to, 0) \<and> chain h to as
     \<and> vals h as = [one_probe_lib 20 300, v] \<and> length (d_list v) = 2 \<and> dom h = {1, 2, 3}"
proof -
  have "chain move_heap 1 [1]" "chain move_heap 2 [2, 3]" "set [1] \<inter> set [2, 3 :: nat] = {}"
    "length [1 :: nat] + length [2, 3 :: nat] \<le> 3" "length [2, 3 :: nat] \<le> 2"
    by (simp_all add: chain_def move_heap_def)
  note t = move_list_ptr [OF this]
  have v: "vals move_heap [1] = [one_probe_lib 10 100]" "vals move_heap [2, 3] = [one_probe_lib 10 200, one_probe_lib 20 300]"
    by (simp_all add: move_heap_def)
  obtain w where w: "data_list_move_with_hash [one_probe_lib 10 100] [one_probe_lib 10 200, one_probe_lib 20 300]
      = Some [one_probe_lib 20 300, w]" "length (d_list w) = 2"
    by (simp add: one_probe_lib_def new_data_def cmp_libs_def data_list_append_probes_hash_def data_list_append_def)
  have "dom move_heap = {1, 2, 3}" by (auto simp: move_heap_def)
  with t w show ?thesis unfolding v by (simp only: option.case) blast
qed

end
