(* ===== verification/Malloc_Debug.thy ===== *)
theory Malloc_Debug
  imports Prelude "HOL-Library.Multiset"
begin

text \<open>
  The register of allocations (\<^verbatim>\<open>daemon/malloc_debug.c\<close>), for builds with \<^verbatim>\<open>MALLOC_DEBUG_LEVEL\<close>: a list of
  source files, each with the list of the blocks it allocated. The chains are lists here, as in
  \<open>Inst_Lists\<close>; their links are those of \<open>Dll_Heap\<close>.
\<close>

section \<open>The lists\<close>

record mlist_t =
  ml_addr :: u32
  ml_line :: int
  ml_info :: bytes
  ml_size :: u32

text \<open>\<^verbatim>\<open>files_list\<close>: the name of a file and its blocks, the latest first in both lists.\<close>

type_synonym files_t = "(bytes \<times> mlist_t list) list"

fun find_malloc :: "mlist_t list \<Rightarrow> u32 \<Rightarrow> nat option" where
  "find_malloc [] addr = None"
| "find_malloc (el # els) addr = (if ml_addr el = addr then Some 0 else map_option Suc (find_malloc els addr))"

fun find_file :: "files_t \<Rightarrow> bytes \<Rightarrow> nat option" where
  "find_file [] name = None"
| "find_file (f # fs) name = (if fst f = name then Some 0 else map_option Suc (find_file fs name))"

text \<open>
  The place of a file, which is added in front when it is new. \<open>None\<close>: there is no memory for it, and the
  missing element is written.
\<close>

definition find_list :: "bool \<Rightarrow> bytes \<Rightarrow> files_t \<Rightarrow> (nat \<times> files_t) option" where
  "find_list mem name files =
     (case find_file files name of
        Some i \<Rightarrow> Some (i, files)
      | None \<Rightarrow> if mem then Some (0, (name, []) # files) else None)"

definition rm_malloc :: "mlist_t list \<Rightarrow> u32 \<Rightarrow> (bool \<times> mlist_t list)" where
  "rm_malloc els addr =
     (case find_malloc els addr of
        None \<Rightarrow> (False, els)
      | Some i \<Rightarrow> (True, take i els @ drop (Suc i) els))"

definition add_malloc :: "mlist_t list \<Rightarrow> u32 \<Rightarrow> int \<Rightarrow> bytes \<Rightarrow> u32 \<Rightarrow> mlist_t list" where
  "add_malloc els addr line func_name sz =
     \<lparr>ml_addr = addr, ml_line = line, ml_info = func_name, ml_size = sz\<rparr> # els"

section \<open>The calls\<close>

text \<open>\<open>addr\<close>: what the allocation gave, NULL included; it is also the result. \<open>mem\<close>: memory for the register.\<close>

definition malloc_call_d ::
  "bool \<Rightarrow> int \<Rightarrow> bytes \<Rightarrow> bytes \<Rightarrow> u32 \<Rightarrow> u32 \<Rightarrow> files_t \<Rightarrow> files_t option" where
  "malloc_call_d mem line file_name func_name sz addr files =
     Option.bind (find_list mem file_name files) (\<lambda>(i, files).
       if mem then Some (files[i := (fst (files ! i), add_malloc (snd (files ! i)) addr line func_name sz)]) else None)"

definition calloc_call_d ::
  "bool \<Rightarrow> int \<Rightarrow> bytes \<Rightarrow> bytes \<Rightarrow> u32 \<Rightarrow> u32 \<Rightarrow> u32 \<Rightarrow> files_t \<Rightarrow> files_t option" where
  "calloc_call_d mem line file_name func_name n sz addr files =
     malloc_call_d mem line file_name func_name (sz * n) addr files"

text \<open>The block is looked for in all files, from the first one on.\<close>

fun rm_any :: "files_t \<Rightarrow> u32 \<Rightarrow> bool \<times> files_t" where
  "rm_any [] addr = (False, [])"
| "rm_any (f # fs) addr =
     (let (found, els) = rm_malloc (snd f) addr in
      if found then (True, (fst f, els) # fs)
      else (let (found, fs) = rm_any fs addr in (found, f # fs)))"

text \<open>Whether the block is freed, and the register. A block that is not registered is not freed.\<close>

definition free_call_d :: "bool \<Rightarrow> bytes \<Rightarrow> u32 \<Rightarrow> files_t \<Rightarrow> (bool \<times> files_t) option" where
  "free_call_d mem file_name addr files =
     Option.bind (find_list mem file_name files) (\<lambda>(i, files).
       let (found, els) = rm_malloc (snd (files ! i)) addr in
       Some (if found then (True, files[i := (fst (files ! i), els)]) else rm_any files addr))"

text \<open>Printing the blocks of a file that has none yet adds it to the register.\<close>

definition print_malloc_list :: "bool \<Rightarrow> bytes option \<Rightarrow> files_t \<Rightarrow> files_t option" where
  "print_malloc_list mem file_name files =
     (case file_name of None \<Rightarrow> Some files | Some name \<Rightarrow> map_option snd (find_list mem name files))"

section \<open>What the register holds\<close>

definition blocks :: "mlist_t list \<Rightarrow> u32 multiset" where
  "blocks els = mset (map ml_addr els)"

definition registered :: "files_t \<Rightarrow> u32 multiset" where
  "registered files = sum_list (map (blocks \<circ> snd) files)"

lemma find_malloc_None: "find_malloc els addr = None \<longleftrightarrow> addr \<notin># blocks els"
  by (induction els) (auto simp: blocks_def)

lemma find_malloc_Some:
  "find_malloc els addr = Some i \<Longrightarrow> blocks els = add_mset addr (blocks (take i els @ drop (Suc i) els))"
  by (induction els arbitrary: i) (auto simp: blocks_def split: if_splits)

lemma rm_malloc_blocks:
  "rm_malloc els addr = (found, els') \<Longrightarrow> (found \<longleftrightarrow> addr \<in># blocks els) \<and> blocks els' = blocks els - {#addr#}"
  using find_malloc_None [of els addr]
  by (auto simp: rm_malloc_def diff_single_trivial dest: find_malloc_Some split: option.splits)

lemma rm_any_registered:
  "rm_any files addr = (found, files') \<Longrightarrow>
     (found \<longleftrightarrow> addr \<in># registered files) \<and> registered files' = registered files - {#addr#}"
proof (induction files arbitrary: files' found)
  case (Cons f fs)
  obtain fd els where r: "rm_malloc (snd f) addr = (fd, els)" by fastforce
  note b = rm_malloc_blocks [OF r]
  obtain fd' fs' where a: "rm_any fs addr = (fd', fs')" by fastforce
  have head: "A - {#addr#} + B = A + B - {#addr#}" if "addr \<in># A" for A B :: "u32 multiset"
    using diff_union_single_conv [OF that, of B] by (simp only: union_commute)
  have tail: "A + (B - {#addr#}) = A + B - {#addr#}" if "addr \<notin># A" for A B :: "u32 multiset"
  proof (cases "addr \<in># B")
    case True
    then show ?thesis by (rule diff_union_single_conv [symmetric])
  next
    case False
    with that show ?thesis by (simp only: diff_single_trivial union_iff not_False_eq_True simp_thms)
  qed
  have reg: "registered (x # xs) = blocks (snd x) + registered xs" for x xs
    by (simp add: registered_def)
  show ?case
  proof (cases fd)
    case True
    with Cons.prems r have "found" "files' = (fst f, els) # fs" by simp_all
    with True b show ?thesis by (simp add: reg head)
  next
    case False
    with Cons.prems r a have "found = fd'" "files' = f # fs'" by simp_all
    with False b Cons.IH [OF a] show ?thesis by (simp add: reg tail)
  qed
qed (simp add: registered_def)

lemma registered_update:
  "i < length files \<Longrightarrow> registered (files[i := f]) + blocks (snd (files ! i)) = registered files + blocks (snd f)"
  by (induction files arbitrary: i) (auto simp: registered_def nth_Cons ac_simps split: nat.split)

lemma find_file_less: "find_file files name = Some i \<Longrightarrow> i < length files"
  by (induction files arbitrary: i) (auto split: if_splits)

lemma find_list_registered:
  "find_list mem name files = Some (i, files') \<Longrightarrow> i < length files' \<and> registered files' = registered files"
  by (auto simp: find_list_def registered_def blocks_def dest: find_file_less split: option.splits if_splits)

text \<open>
  An allocation registers its block, whichever file it comes from; freeing succeeds exactly for registered
  blocks, from whichever file, and takes the block out of the register once.
\<close>

theorem malloc_registers:
  assumes "malloc_call_d mem line file_name func_name sz addr files = Some files'"
  shows "registered files' = add_mset addr (registered files)"
proof -
  obtain i fs where f: "find_list mem file_name files = Some (i, fs)"
    and files': "files' = fs[i := (fst (fs ! i), add_malloc (snd (fs ! i)) addr line func_name sz)]"
    using assms by (auto simp: malloc_call_d_def bind_eq_Some_conv split: if_splits)
  note k = find_list_registered [OF f]
  have "blocks (add_malloc (snd (fs ! i)) addr line func_name sz) = add_mset addr (blocks (snd (fs ! i)))"
    by (simp add: add_malloc_def blocks_def)
  with registered_update [of i fs "(fst (fs ! i), add_malloc (snd (fs ! i)) addr line func_name sz)"] k
  show ?thesis by (simp add: files')
qed

theorem free_unregisters:
  assumes "free_call_d mem file_name addr files = Some (found, files')"
  shows "(found \<longleftrightarrow> addr \<in># registered files) \<and> registered files' = registered files - {#addr#}"
proof -
  obtain i fs where f: "find_list mem file_name files = Some (i, fs)"
    using assms by (auto simp: free_call_d_def bind_eq_Some_conv)
  note k = find_list_registered [OF f]
  obtain fd els where r: "rm_malloc (snd (fs ! i)) addr = (fd, els)" by fastforce
  note b = rm_malloc_blocks [OF r]
  show ?thesis
  proof (cases fd)
    case True
    with assms f r have 1: "found" "files' = fs[i := (fst (fs ! i), els)]" by (simp_all add: free_call_d_def)
    have a: "addr \<in># blocks (snd (fs ! i))" using b True by simp
    then have "blocks (snd (fs ! i)) = add_mset addr (blocks els)" using b by simp
    with registered_update [of i fs "(fst (fs ! i), els)"] k
    have "registered fs = add_mset addr (registered files')" by (simp add: 1)
    with k have "registered files = add_mset addr (registered files')" by simp
    with 1(1) show ?thesis by simp
  next
    case False
    with assms f r have "rm_any fs addr = (found, files')" by (simp add: free_call_d_def)
    from rm_any_registered [OF this] k show ?thesis by simp
  qed
qed

end
