(* ===== verification/Md5_Rfc.thy ===== *)
theory Md5_Rfc
  imports Md5
begin

text \<open>
  The MD5 algorithm as RFC 1321 describes it, and the proof that the daemon's digest
  (\<^verbatim>\<open>daemon/md5.c\<close>) is this algorithm: one loop of 64 steps with formulas for the words, shifts and
  functions in place of the unrolled rounds, constants as the RFC prints them, padding by its arithmetic.
\<close>

section \<open>The algorithm of the RFC\<close>

text \<open>The table of the appendix; the comments of \<^verbatim>\<open>md5.c\<close> give the same numbers.\<close>

definition rfc_K :: "u32 list" where
  "rfc_K =
    [0xd76aa478, 0xe8c7b756, 0x242070db, 0xc1bdceee, 0xf57c0faf, 0x4787c62a, 0xa8304613, 0xfd469501,
     0x698098d8, 0x8b44f7af, 0xffff5bb1, 0x895cd7be, 0x6b901122, 0xfd987193, 0xa679438e, 0x49b40821,
     0xf61e2562, 0xc040b340, 0x265e5a51, 0xe9b6c7aa, 0xd62f105d, 0x02441453, 0xd8a1e681, 0xe7d3fbc8,
     0x21e1cde6, 0xc33707d6, 0xf4d50d87, 0x455a14ed, 0xa9e3e905, 0xfcefa3f8, 0x676f02d9, 0x8d2a4c8a,
     0xfffa3942, 0x8771f681, 0x6d9d6122, 0xfde5380c, 0xa4beea44, 0x4bdecfa9, 0xf6bb4b60, 0xbebfbc70,
     0x289b7ec6, 0xeaa127fa, 0xd4ef3085, 0x04881d05, 0xd9d4d039, 0xe6db99e5, 0x1fa27cf8, 0xc4ac5665,
     0xf4292244, 0x432aff97, 0xab9423a7, 0xfc93a039, 0x655b59c3, 0x8f0ccc92, 0xffeff47d, 0x85845dd1,
     0x6fa87e4f, 0xfe2ce6e0, 0xa3014314, 0x4e0811a1, 0xf7537e82, 0xbd3af235, 0x2ad7d2bb, 0xeb86d391]"

definition rfc_shift :: "nat \<Rightarrow> nat" where
  "rfc_shift i = [[7, 12, 17, 22], [5, 9, 14, 20], [4, 11, 16, 23], [6, 10, 15, 21]] ! (i div 16) ! (i mod 4)"

definition rfc_index :: "nat \<Rightarrow> nat" where
  "rfc_index i =
     (if i < 16 then i else if i < 32 then (5 * i + 1) mod 16
      else if i < 48 then (3 * i + 5) mod 16 else 7 * i mod 16)"

definition rfc_fun :: "nat \<Rightarrow> u32 \<Rightarrow> u32 \<Rightarrow> u32 \<Rightarrow> u32" where
  "rfc_fun i x y z =
     (if i < 16 then (x AND y) OR (NOT x AND z)
      else if i < 32 then (x AND z) OR (y AND NOT z)
      else if i < 48 then x XOR y XOR z
      else y XOR (x OR NOT z))"

fun rfc_step :: "u32 list \<Rightarrow> nat \<Rightarrow> md5_regs \<Rightarrow> md5_regs" where
  "rfc_step X i (a, b, c, d) =
     (d, b + word_rotl (rfc_shift i) (a + rfc_fun i b c d + X ! rfc_index i + rfc_K ! i), b, c)"

fun rfc_add :: "md5_regs \<Rightarrow> md5_regs \<Rightarrow> md5_regs" where
  "rfc_add (a, b, c, d) (a', b', c', d') = (a + a', b + b', c + c', d + d')"

definition rfc_block :: "u32 list \<Rightarrow> md5_regs \<Rightarrow> md5_regs" where
  "rfc_block X abcd = rfc_add abcd (fold (rfc_step X) [0..<64] abcd)"

text \<open>
  A one bit, zeros until the length is 56 modulo 64, and the length in bits; then the message is a list
  of words, \<open>M\<close>, taken in blocks of sixteen.
\<close>

definition rfc_zeros :: "nat \<Rightarrow> nat" where
  "rfc_zeros n = nat ((55 - int n) mod 64)"

definition rfc_pad :: "bytes \<Rightarrow> bytes" where
  "rfc_pad m = m @ 0x80 # replicate (rfc_zeros (length m)) 0 @ le64 (of_nat (8 * length m))"

definition rfc_word :: "bytes \<Rightarrow> nat \<Rightarrow> u32" where
  "rfc_word p j = le_dec (take 4 (drop (4 * j) p))"

definition rfc_md5 :: "bytes \<Rightarrow> bytes" where
  "rfc_md5 m =
     (let M = rfc_word (rfc_pad m);
          N = length (rfc_pad m) div 4;
          (a, b, c, d) = fold (\<lambda>i. rfc_block (map (\<lambda>j. M (i * 16 + j)) [0..<16])) [0..<N div 16]
                           (0x67452301, 0xefcdab89, 0x98badcfe, 0x10325476)
      in le32 a @ le32 b @ le32 c @ le32 d)"

section \<open>The rounds\<close>

lemma ROTATE_LEFT_rotl:
  assumes "0 < n" "n < 32"
  shows "ROTATE_LEFT x n = word_rotl n x"
proof (rule bit_word_eqI)
  fix k assume k: "k < LENGTH(32)"
  define m where m: "m = 32 - n"
  have l: "bit (ROTATE_LEFT x n) k \<longleftrightarrow> n \<le> k \<and> bit x (k - n) \<or> bit x (m + k)"
    using k by (simp add: ROTATE_LEFT_def bit_or_iff bit_push_bit_iff bit_drop_bit_eq m [symmetric])
  have r: "bit (word_rotl n x) k \<longleftrightarrow> bit x ((k + m) mod 32)"
    using k assms by (simp add: bit_word_rotl_iff m [symmetric])
  show "bit (ROTATE_LEFT x n) k = bit (word_rotl n x) k"
  proof (cases "k < n")
    case True
    then have "(k + m) mod 32 = m + k" using assms by (simp add: m)
    with True show ?thesis unfolding l r by simp
  next
    case False
    then have "(k + m) mod 32 = k - n" using k assms by (simp add: m le_mod_geq)
    moreover have "\<not> bit x (m + k)" using False assms by (auto simp: m dest!: bit_imp_le_length)
    ultimately show ?thesis using False unfolding l r by simp
  qed
qed

lemma rounds_rfc:
  "round1 = map (\<lambda>i. (rfc_index i, rfc_shift i, rfc_K ! i)) [0..<16]"
  "round2 = map (\<lambda>i. (rfc_index i, rfc_shift i, rfc_K ! i)) [16..<32]"
  "round3 = map (\<lambda>i. (rfc_index i, rfc_shift i, rfc_K ! i)) [32..<48]"
  "round4 = map (\<lambda>i. (rfc_index i, rfc_shift i, rfc_K ! i)) [48..<64]"
  by code_simp+

lemma shift_range: "\<forall>i \<in> set [0..<64]. 0 < rfc_shift i \<and> rfc_shift i < 32"
  by code_simp

lemma SET_rfc:
  assumes "i < 64" "\<And>x y z. f x y z = rfc_fun i x y z"
  shows "SET f X (rfc_index i, rfc_shift i, rfc_K ! i) q = rfc_step X i q"
proof (cases q)
  case (fields a b c d)
  have "0 < rfc_shift i" "rfc_shift i < 32" using shift_range assms(1) by simp_all
  then show ?thesis by (simp add: fields assms(2) Let_def ROTATE_LEFT_rotl)
qed

lemma fold_round:
  assumes "\<And>i. i \<in> set is \<Longrightarrow> i < 64" "\<And>i x y z. i \<in> set is \<Longrightarrow> f x y z = rfc_fun i x y z"
  shows "fold (SET f X) (map (\<lambda>i. (rfc_index i, rfc_shift i, rfc_K ! i)) is) q = fold (rfc_step X) is q"
  using assms
proof (induction "is" arbitrary: q)
  case (Cons i "is")
  then show ?case using SET_rfc [of i f X q] by simp
qed simp

lemma four_rounds:
  "fold (SET I X) round4 (fold (SET H X) round3 (fold (SET G X) round2 (fold (SET F X) round1 q)))
     = fold (rfc_step X) [0..<64] q"
proof -
  have s: "[0..<64] = [0..<16] @ [16..<32] @ [32..<48] @ [48..<64 :: nat]" by code_simp
  have "fold (SET F X) round1 q = fold (rfc_step X) [0..<16] q" for q
    unfolding rounds_rfc by (rule fold_round) (auto simp: F_def rfc_fun_def)
  moreover have "fold (SET G X) round2 q = fold (rfc_step X) [16..<32] q" for q
    unfolding rounds_rfc by (rule fold_round) (auto simp: G_def rfc_fun_def)
  moreover have "fold (SET H X) round3 q = fold (rfc_step X) [32..<48] q" for q
    unfolding rounds_rfc by (rule fold_round) (auto simp: H_def rfc_fun_def)
  moreover have "fold (SET I X) round4 q = fold (rfc_step X) [48..<64] q" for q
    unfolding rounds_rfc by (rule fold_round) (auto simp: I_def rfc_fun_def)
  ultimately show ?thesis by (simp only: s fold_append comp_apply)
qed

lemma md5_process_rfc: "md5_process q data = rfc_block (md5_words data) q"
proof -
  obtain a b c d where q: "q = (a, b, c, d)" by (cases q)
  show ?thesis
    by (simp add: md5_process_def Let_def four_rounds rfc_block_def q split: prod.split)
qed

section \<open>Blocks and padding\<close>

lemma md5_full_blocks:
  "length p = 64 * n \<Longrightarrow>
     fst (md5_full q p) = fold (\<lambda>i. rfc_block (map (\<lambda>j. rfc_word p (i * 16 + j)) [0..<16])) [0..<n] q"
proof (induction n arbitrary: p q)
  case 0
  then show ?case by (simp add: md5_full_small)
next
  case (Suc n)
  have w: "md5_words (take 64 p) = map (\<lambda>j. rfc_word p (0 * 16 + j)) [0..<16]"
    by (simp add: md5_words_def rfc_word_def drop_take)
  have d: "rfc_word (drop 64 p) (i * 16 + j) = rfc_word p (Suc i * 16 + j)" for i j
    by (simp add: rfc_word_def algebra_simps)
  have "fst (md5_full q p) = fst (md5_full (rfc_block (md5_words (take 64 p)) q) (drop 64 p))"
    using Suc.prems by (subst md5_full.simps) (simp add: md5_process_rfc)
  also have "\<dots> = fold (\<lambda>i. rfc_block (map (\<lambda>j. rfc_word (drop 64 p) (i * 16 + j)) [0..<16])) [0..<n]
      (rfc_block (md5_words (take 64 p)) q)"
    using Suc.prems by (intro Suc.IH) simp
  also have "\<dots> = fold (\<lambda>i. rfc_block (map (\<lambda>j. rfc_word p (i * 16 + j)) [0..<16])) (0 # map Suc [0..<n]) q"
    unfolding d w by (simp only: fold_simps fold_map comp_def)
  also have "0 # map Suc [0..<n] = [0..<Suc n]" by (simp only: map_Suc_upt upt_conv_Cons zero_less_Suc)
  finally show ?case .
qed

lemma zeros_rfc: "(119 - n mod 64) mod 64 = rfc_zeros n"
proof -
  have "n mod 64 \<le> 119" using mod_less_divisor [of 64 n] by linarith
  then have "int ((119 - n mod 64) mod 64) = (119 - int n mod 64) mod 64"
    by (simp only: zmod_int of_nat_diff) simp
  also have "\<dots> = (55 - int n + 64) mod 64" by (simp only: mod_diff_right_eq) simp
  also have "\<dots> = (55 - int n) mod 64" by (rule mod_add_self2)
  finally have "nat (int ((119 - n mod 64) mod 64)) = nat ((55 - int n) mod 64)" by (rule arg_cong)
  then show ?thesis by (simp only: rfc_zeros_def nat_int)
qed

lemma length_rfc_pad: "64 dvd length (rfc_pad m)"
proof -
  let ?n = "int (length m)"
  have "(?n + ((55 - ?n) mod 64 + 9)) mod 64 = (?n + ((55 - ?n) + 9)) mod 64"
    by (metis mod_add_left_eq mod_add_right_eq)
  then have "int (length m + (rfc_zeros (length m) + 9)) mod 64 = 0" by (simp add: rfc_zeros_def)
  then have "64 dvd int (length m + (rfc_zeros (length m) + 9))" by (rule dvd_eq_mod_eq_0 [THEN iffD2])
  then have "64 dvd length m + (rfc_zeros (length m) + 9)" by (simp only: int_dvd_int_iff [symmetric]) simp
  then show ?thesis by (simp add: rfc_pad_def add.commute add.left_commute)
qed

lemma start_rfc: "md5_start = (0x67452301, 0xefcdab89, 0x98badcfe, 0x10325476)"
  by (simp add: md5_start_def T_MASK_def)

lemma md5_is_rfc: "md5 m = rfc_md5 m"
proof -
  obtain n where n: "length (rfc_pad m) = 64 * n" using length_rfc_pad [of m] by (auto elim: dvdE)
  have p: "md5_pad m = rfc_pad m" by (simp only: md5_pad_def rfc_pad_def zeros_rfc)
  have "length (rfc_pad m) div 4 div 16 = n" by (simp add: n)
  then show ?thesis
    by (simp add: md5_def rfc_md5_def Let_def p md5_full_blocks [OF n] start_rfc split: prod.split)
qed

section \<open>Properties\<close>

text \<open>
  C19. The digest the daemon computes is the MD5 of RFC 1321: for a message that comes in pieces of whatever
  lengths, it is the algorithm of the RFC on the whole message.
\<close>

theorem md5_rfc:
  assumes "length (md_buf pms) = 64" "\<forall>c \<in> set cs. length c < 2 ^ 28"
  shows "md5_finish (fold (\<lambda>c s. md5_append s c) cs (md5_init pms)) = rfc_md5 (concat cs)"
  using md5_finish_state [OF md5_fold_state [OF md5_init_state [OF assms(1)] assms(2)]]
  by (simp add: md5_is_rfc)

text \<open>The first value of the test suite of the RFC, of the empty message.\<close>

lemma md5_empty:
  "md5 [] = [0xd4, 0x1d, 0x8c, 0xd9, 0x8f, 0x00, 0xb2, 0x04, 0xe9, 0x80, 0x09, 0x98, 0xec, 0xf8, 0x42, 0x7e]"
  by code_simp

theorem md5_rfc_witness:
  "md5_finish (md5_init \<lparr>md_count0 = 5, md_count1 = 6, md_abcd = (1, 2, 3, 4), md_buf = replicate 64 7\<rparr>) = rfc_md5 []
   \<and> rfc_md5 [] = [0xd4, 0x1d, 0x8c, 0xd9, 0x8f, 0x00, 0xb2, 0x04, 0xe9, 0x80, 0x09, 0x98, 0xec, 0xf8, 0x42, 0x7e]"
  using md5_rfc [of "\<lparr>md_count0 = 5, md_count1 = 6, md_abcd = (1, 2, 3, 4), md_buf = replicate 64 7\<rparr>" "[]"]
  by (simp add: md5_is_rfc [symmetric] md5_empty)

end
