(* ===== verification/Daemon_Log.thy ===== *)
theory Daemon_Log
  imports Prelude
begin

text \<open>
  The log of debug builds: redirecting the standard descriptors (\<^verbatim>\<open>daemon/da_debug.c\<close>) and the dump of a
  buffer (\<^verbatim>\<open>daemon/debug.c\<close>, for builds with \<^verbatim>\<open>DEB_PRINTBUF\<close>). What a log line says is left out.
\<close>

section \<open>Descriptors\<close>

text \<open>
  The descriptors of the process: the file each is open on and its close-on-exec flag. The system gives
  the lowest free number.
\<close>

datatype log_file = DEBUG_LOGFILE | Dev_null | Other_file nat

type_synonym fd_table = "(log_file \<times> bool) option list"

definition fd_at :: "fd_table \<Rightarrow> nat \<Rightarrow> (log_file \<times> bool) option" where
  "fd_at fds n = (if n < length fds then fds ! n else None)"

definition fd_set :: "fd_table \<Rightarrow> nat \<Rightarrow> (log_file \<times> bool) option \<Rightarrow> fd_table" where
  "fd_set fds n v = (fds @ replicate (Suc n - length fds) None)[n := v]"

fun lowest_free :: "fd_table \<Rightarrow> nat" where
  "lowest_free [] = 0"
| "lowest_free (None # fds) = 0"
| "lowest_free (Some f # fds) = Suc (lowest_free fds)"

definition fd_open :: "bool \<Rightarrow> log_file \<Rightarrow> fd_table \<Rightarrow> nat option \<times> fd_table" where
  "fd_open ok f fds =
     (if ok then (Some (lowest_free fds), fd_set fds (lowest_free fds) (Some (f, False))) else (None, fds))"

definition fd_close :: "nat \<Rightarrow> fd_table \<Rightarrow> fd_table" where
  "fd_close n fds = fd_set fds n None"

text \<open>\<open>dup2\<close> of a descriptor to itself leaves it as it is; a copy does not have the flag.\<close>

definition fd_dup2 :: "bool \<Rightarrow> nat \<Rightarrow> nat \<Rightarrow> fd_table \<Rightarrow> fd_table option" where
  "fd_dup2 ok old new fds =
     (case fd_at fds old of
        None \<Rightarrow> None
      | Some (f, _) \<Rightarrow> if \<not> ok then None else if old = new then Some fds else Some (fd_set fds new (Some (f, False))))"

section \<open>Opening the log\<close>

text \<open>The calls that can fail: opening the two files, and for each copy \<open>dup2\<close>, reading and setting the flag.\<close>

record log_os =
  lo_log :: bool
  lo_null :: bool
  lo_dup :: "nat \<Rightarrow> bool"
  lo_getfd :: "nat \<Rightarrow> bool"
  lo_setfd :: "nat \<Rightarrow> bool"

definition close_on_exec_dup :: "log_os \<Rightarrow> nat \<Rightarrow> nat \<Rightarrow> fd_table \<Rightarrow> int \<times> fd_table" where
  "close_on_exec_dup lo old new fds =
     (case fd_dup2 (lo_dup lo new) old new fds of
        None \<Rightarrow> (-1, fds)
      | Some fds \<Rightarrow>
          if \<not> lo_getfd lo new then (-1, fds)
          else if \<not> lo_setfd lo new then (-1, fds)
          else (0, fd_set fds new (map_option (\<lambda>(f, _). (f, True)) (fd_at fds new))))"

definition initialize_log :: "log_os \<Rightarrow> fd_table \<Rightarrow> int \<times> fd_table" where
  "initialize_log lo fds =
     (let (fd, fds) = fd_open (lo_log lo) DEBUG_LOGFILE fds;
          (fd_null, fds) = fd_open (lo_null lo) Dev_null fds;
          (ret, fds) =
            (case (fd, fd_null) of
               (Some fd, Some fd_null) \<Rightarrow>
                 (let (r, fds) = close_on_exec_dup lo fd_null 1 fds in
                  if r \<noteq> 0 then (-1, fds)
                  else (let (r, fds) = close_on_exec_dup lo fd 2 fds in (if r \<noteq> 0 then -1 else 0, fds)))
             | _ \<Rightarrow> (0, fd_close 2 (fd_close 1 fds)));
          fds = (case fd_null of Some n \<Rightarrow> fd_close n fds | None \<Rightarrow> fds);
          fds = (case fd of Some n \<Rightarrow> fd_close n fds | None \<Rightarrow> fds)
      in (ret, fd_close 0 fds))"

section \<open>Dumping a buffer\<close>

text \<open>
  \<open>store off bs buf\<close> writes into an array: \<open>None\<close> outside it. \<^verbatim>\<open>sprintf\<close> also writes its NUL.
\<close>

definition store :: "nat \<Rightarrow> bytes \<Rightarrow> bytes \<Rightarrow> bytes option" where
  "store off bs buf =
     (if off + length bs \<le> length buf then Some (take off buf @ bs @ drop (off + length bs) buf) else None)"

definition upper_digit :: "nat \<Rightarrow> byte" where
  "upper_digit v = of_nat (if v < 10 then 48 + v else 55 + v)"

fun hex_digits :: "nat \<Rightarrow> bytes" where
  "hex_digits n = (if n < 16 then [upper_digit n] else hex_digits (n div 16) @ [upper_digit (n mod 16)])"

declare hex_digits.simps [simp del]

text \<open>The formats \<^verbatim>\<open>0x%04X: \<close> and \<^verbatim>\<open>%02X \<close>, and what is shown of a character.\<close>

definition row_head :: "nat \<Rightarrow> bytes" where
  "row_head i = (let ds = hex_digits i in cstr ''0x'' @ replicate (4 - length ds) 48 @ ds @ cstr '': '')"

definition hex_byte :: "byte \<Rightarrow> bytes" where
  "hex_byte c = [upper_digit (unat c div 16), upper_digit (unat c mod 16), 32]"

definition isprint :: "byte \<Rightarrow> bool" where "isprint c \<longleftrightarrow> 32 \<le> c \<and> c \<le> 126"

definition show_char :: "byte \<Rightarrow> bytes" where "show_char c = [if isprint c then c else 46, 32]"

definition LOCAL_BUF :: nat where "LOCAL_BUF = 3 * 17 + 2 * 16 + 1 + 8"

text \<open>\<open>p1\<close> and \<open>p2\<close> as in the code; the result has both and the array.\<close>

primrec row_bytes :: "bytes \<Rightarrow> nat \<Rightarrow> nat \<Rightarrow> bytes \<Rightarrow> (nat \<times> nat \<times> bytes) option" where
  "row_bytes [] p1 p2 buf = Some (p1, p2, buf)"
| "row_bytes (c # cs) p1 p2 buf =
     Option.bind (store p1 (hex_byte c @ [0]) buf) (\<lambda>buf.
     Option.bind (store p2 (show_char c @ [0]) buf) (\<lambda>buf.
     row_bytes cs (p1 + 3) (p2 + 2) buf))"

definition print_row :: "bytes \<Rightarrow> nat \<Rightarrow> bytes \<Rightarrow> bytes option" where
  "print_row local_buf i row =
     Option.bind (store 0 (replicate (5 * 16 + 8) 32) local_buf) (\<lambda>buf.
     Option.bind (store 0 (row_head i @ [0]) buf) (\<lambda>buf.
     Option.bind (row_bytes row 8 (8 + 3 * 17) buf) (\<lambda>(p1, p2, buf).
     Option.bind (store p1 [32] buf) (\<lambda>buf.
     Option.bind (store p2 [0] buf) (\<lambda>buf.
     map_option (\<lambda>n. take n buf) (cstrlen buf))))))"

text \<open>\<open>junk i\<close> is what the array holds before row \<open>i\<close>. The lines of the log.\<close>

primrec print_rows :: "(nat \<Rightarrow> bytes) \<Rightarrow> nat list \<Rightarrow> bytes \<Rightarrow> bytes list option" where
  "print_rows junk [] buf = Some []"
| "print_rows junk (i # is) buf =
     Option.bind (print_row (junk i) i (take 16 (drop (16 * i) buf))) (\<lambda>line.
     map_option (\<lambda>lines. line # lines) (print_rows junk is buf))"

definition print_buf :: "(nat \<Rightarrow> bytes) \<Rightarrow> bytes \<Rightarrow> bytes list option" where
  "print_buf junk buf = print_rows junk [0..<length buf div 16 + 1] buf"

section \<open>The lines of a dump\<close>

text \<open>The specification: number, bytes, room for those that are missing, characters.\<close>

definition dump_line :: "nat \<Rightarrow> bytes \<Rightarrow> bytes" where
  "dump_line i row =
     row_head i @ concat (map hex_byte row) @ replicate (51 - 3 * length row) 32 @ concat (map show_char row)"

definition dump :: "bytes \<Rightarrow> bytes list" where
  "dump buf = map (\<lambda>i. dump_line i (take 16 (drop (16 * i) buf))) [0..<length buf div 16 + 1]"

lemma store_at: "length zs = length ys \<Longrightarrow> store (length xs) ys (xs @ zs @ ws) = Some (xs @ ys @ ws)"
  by (simp add: store_def)

lemma length_hex_digits: "n < 16 ^ Suc k \<Longrightarrow> length (hex_digits n) \<le> Suc k"
proof (induction k arbitrary: n)
  case 0
  then show ?case by (simp add: hex_digits.simps)
next
  case (Suc k)
  show ?case
  proof (cases "n < 16")
    case True
    then show ?thesis by (simp add: hex_digits.simps)
  next
    case False
    have "n div 16 < 16 ^ Suc k" using Suc.prems by (simp add: less_mult_imp_div_less)
    from Suc.IH [OF this] False show ?thesis by (subst hex_digits.simps) simp
  qed
qed

lemma upper_digit_not_0 [simp]: "v < 16 \<Longrightarrow> upper_digit v \<noteq> 0"
proof
  assume v: "v < 16" and "upper_digit v = 0"
  then have "unat (upper_digit v) = 0" by simp
  moreover have "unat (upper_digit v) = (if v < 10 then 48 + v else 55 + v)"
    unfolding upper_digit_def using v by (intro unat_of_nat_small) auto
  ultimately show False by (simp split: if_splits)
qed

lemma hex_digits_str: "is_str (hex_digits n)"
proof (induction n rule: hex_digits.induct)
  case (1 n)
  then show ?case by (subst hex_digits.simps) auto
qed

lemma row_text_str: "is_str (hex_byte c)" "is_str (show_char c)" "is_str (row_head i)"
proof -
  have "unat c < 256" using unsigned_less [of c] by simp
  then have "unat c div 16 < 16" by simp
  then show "is_str (hex_byte c)" by (auto simp: hex_byte_def)
  show "is_str (show_char c)" by (auto simp: show_char_def isprint_def)
  show "is_str (row_head i)" using hex_digits_str [of i] by (auto simp: row_head_def Let_def cstr_def)
qed

lemma length_row_text [simp]: "length (hex_byte c) = 3" "length (show_char c) = 2"
  by (simp_all add: hex_byte_def show_char_def)

lemma length_row_head: "i < 65536 \<Longrightarrow> length (row_head i) = 8"
  using length_hex_digits [of i 3] by (simp add: row_head_def Let_def)

text \<open>
  The array after some of the bytes of a row: \<open>X\<close> is the text of the bytes, \<open>Y\<close> that of the characters, \<open>t\<close>
  what is behind it.
\<close>

lemma row_bytes_text:
  assumes "length h = 8" "length X = 3 * n" "length Y = 2 * n" "n + length row \<le> 16" "length t = 33 - 2 * n"
  shows "\<exists>t'. row_bytes row (8 + 3 * n) (59 + 2 * n) (h @ X @ [0] @ replicate (50 - 3 * n) 32 @ Y @ t)
    = Some (8 + 3 * (n + length row), 59 + 2 * (n + length row),
        h @ (X @ concat (map hex_byte row)) @ [0] @ replicate (50 - 3 * (n + length row)) 32
        @ (Y @ concat (map show_char row)) @ t')
    \<and> length t' = 33 - 2 * (n + length row)"
  using assms
proof (induction row arbitrary: n X Y t)
  case Nil
  then show ?case by simp
next
  case (Cons c cs)
  have n: "n \<le> 15" using Cons.prems(4) by simp
  let ?r = "replicate (47 - 3 * n) 32 :: bytes"
  have r: "replicate (50 - 3 * n) 32 = [32, 32, 32] @ ?r"
  proof -
    have "50 - 3 * n = Suc (Suc (Suc (47 - 3 * n)))" using n by simp
    then show ?thesis by simp
  qed
  have "store (length (h @ X)) (hex_byte c @ [0]) ((h @ X) @ [0, 32, 32, 32] @ ?r @ Y @ t)
      = Some ((h @ X) @ (hex_byte c @ [0]) @ ?r @ Y @ t)"
    by (rule store_at) simp
  then have s1: "store (8 + 3 * n) (hex_byte c @ [0]) (h @ X @ [0] @ replicate (50 - 3 * n) 32 @ Y @ t)
      = Some (h @ (X @ hex_byte c) @ [0] @ ?r @ Y @ t)"
    unfolding r using Cons.prems(1,2) by simp
  obtain x y z t1 where t: "t = [x, y, z] @ t1" "length t1 = 33 - 2 * (n + 1) - 1"
  proof -
    have "length t = Suc (Suc (Suc (30 - 2 * n)))" using Cons.prems(5) n by simp
    then obtain x y z t1 where "t = x # y # z # t1" "length t1 = 30 - 2 * n" by (auto simp: length_Suc_conv)
    with that show thesis by simp
  qed
  let ?h = "h @ (X @ hex_byte c) @ [0] @ ?r @ Y"
  have l: "length ?h = 59 + 2 * n" using Cons.prems(1-3) n by simp
  have "store (length ?h) (show_char c @ [0]) (?h @ [x, y, z] @ t1) = Some (?h @ (show_char c @ [0]) @ t1)"
    by (rule store_at) simp
  then have s2: "store (59 + 2 * n) (show_char c @ [0]) (h @ (X @ hex_byte c) @ [0] @ ?r @ Y @ t)
      = Some (h @ (X @ hex_byte c) @ [0] @ ?r @ (Y @ show_char c) @ (0 # t1))"
    unfolding l t by simp
  have "\<exists>t'. row_bytes cs (8 + 3 * (n + 1)) (59 + 2 * (n + 1))
        (h @ (X @ hex_byte c) @ [0] @ replicate (50 - 3 * (n + 1)) 32 @ (Y @ show_char c) @ (0 # t1))
      = Some (8 + 3 * (n + 1 + length cs), 59 + 2 * (n + 1 + length cs),
          h @ ((X @ hex_byte c) @ concat (map hex_byte cs)) @ [0] @ replicate (50 - 3 * (n + 1 + length cs)) 32
          @ ((Y @ show_char c) @ concat (map show_char cs)) @ t')
      \<and> length t' = 33 - 2 * (n + 1 + length cs)"
    by (rule Cons.IH) (use Cons.prems t n in simp_all)
  then show ?case using s1 s2 by (simp add: algebra_simps)
qed

lemma concat_text_length:
  "length (concat (map hex_byte row)) = 3 * length row" "length (concat (map show_char row)) = 2 * length row"
  by (induction row) simp_all

lemma concat_text_str: "is_str (concat (map hex_byte row))" "is_str (concat (map show_char row))"
  using row_text_str(1,2) by (induction row) auto

lemma print_row_line:
  assumes "length local_buf = LOCAL_BUF" "length row \<le> 16" "i < 65536"
  shows "print_row local_buf i row = Some (dump_line i row)"
proof -
  let ?h = "row_head i" and ?n = "length row"
  have h: "length ?h = 8" using assms(3) by (rule length_row_head)
  obtain t0 where t0: "store 0 (replicate 88 32) local_buf = Some (replicate 88 32 @ t0)" "length t0 = 4"
    using assms(1) by (simp add: store_def LOCAL_BUF_def)
  have "store 0 (?h @ [0]) (replicate 9 32 @ replicate 50 32 @ replicate 29 32 @ t0)
      = Some ((?h @ [0]) @ replicate 50 32 @ replicate 29 32 @ t0)"
    using store_at [of "replicate 9 32" "?h @ [0]" "[]" "replicate 50 32 @ replicate 29 32 @ t0"] by (simp add: h)
  moreover have "replicate 88 (32 :: byte) @ t0 = replicate 9 32 @ replicate 50 32 @ replicate 29 32 @ t0"
    by (simp add: replicate_add [symmetric] flip: append_assoc)
  ultimately have s1: "store 0 (?h @ [0]) (replicate 88 32 @ t0)
      = Some (?h @ [] @ [0] @ replicate (50 - 3 * 0) 32 @ [] @ (replicate 29 32 @ t0))" by simp
  from row_bytes_text [OF h, of "[]" 0 "[]" row "replicate 29 32 @ t0"] assms(2) t0(2) obtain t where
    t: "row_bytes row 8 59 (?h @ [] @ [0] @ replicate (50 - 3 * 0) 32 @ [] @ (replicate 29 32 @ t0))
      = Some (8 + 3 * ?n, 59 + 2 * ?n,
          ?h @ concat (map hex_byte row) @ [0] @ replicate (50 - 3 * ?n) 32 @ concat (map show_char row) @ t)"
      "length t = 33 - 2 * ?n"
    by auto
  let ?X = "concat (map hex_byte row)" and ?Y = "concat (map show_char row)"
  have "store (length (?h @ ?X)) [32] ((?h @ ?X) @ [0] @ replicate (50 - 3 * ?n) 32 @ ?Y @ t)
      = Some ((?h @ ?X) @ [32] @ replicate (50 - 3 * ?n) 32 @ ?Y @ t)"
    by (rule store_at) simp
  moreover have "[32] @ replicate (50 - 3 * ?n) 32 = replicate (51 - 3 * ?n) (32 :: byte)"
    using assms(2) by (simp add: Suc_diff_le flip: replicate_Suc)
  ultimately have s2: "store (8 + 3 * ?n) [32] (?h @ ?X @ [0] @ replicate (50 - 3 * ?n) 32 @ ?Y @ t)
      = Some (dump_line i row @ t)"
    by (simp add: h concat_text_length dump_line_def flip: append_assoc)
  obtain y t' where y: "t = [y] @ t'" using t(2) assms(2) by (cases t) auto
  have l: "length (dump_line i row) = 59 + 2 * ?n"
    using assms(2) by (simp add: dump_line_def h concat_text_length)
  have "store (length (dump_line i row)) [0] (dump_line i row @ [y] @ t') = Some (dump_line i row @ [0] @ t')"
    by (rule store_at) simp
  then have s3: "store (59 + 2 * ?n) [0] (dump_line i row @ t) = Some (dump_line i row @ 0 # t')"
    by (simp add: y l)
  have "is_str (dump_line i row)"
    using row_text_str(3) concat_text_str by (auto simp: dump_line_def)
  then show ?thesis using t0(1) s1 t(1) s2 s3 by (simp add: print_row_def)
qed

lemma print_rows_lines:
  "\<forall>i \<in> set is. length (junk i) = LOCAL_BUF \<and> i < 65536 \<Longrightarrow>
     print_rows junk is buf = Some (map (\<lambda>i. dump_line i (take 16 (drop (16 * i) buf))) is)"
  by (induction "is") (simp_all add: print_row_line)

section \<open>The descriptors after the start\<close>

lemma fd_at_set [simp]: "fd_at (fd_set fds n v) m = (if m = n then v else fd_at fds m)"
  by (auto simp: fd_at_def fd_set_def nth_append nth_list_update)

lemma fd_at_close [simp]: "fd_at (fd_close n fds) m = (if m = n then None else fd_at fds m)"
  by (simp add: fd_close_def)

lemma fd_at_Cons: "fd_at (v # fds) n = (case n of 0 \<Rightarrow> v | Suc m \<Rightarrow> fd_at fds m)"
  by (simp add: fd_at_def split: nat.split)

lemma lowest_free_above: "\<forall>m < k. fd_at fds m \<noteq> None \<Longrightarrow> k \<le> lowest_free fds"
proof (induction fds arbitrary: k rule: lowest_free.induct)
  case 1
  have "k = 0"
  proof (rule ccontr)
    assume "k \<noteq> 0"
    with 1 have "fd_at [] 0 \<noteq> None" by blast
    then show False by (simp add: fd_at_def)
  qed
  then show ?case by simp
next
  case (2 fds)
  have "k = 0"
  proof (rule ccontr)
    assume "k \<noteq> 0"
    with 2 have "fd_at (None # fds) 0 \<noteq> None" by blast
    then show False by (simp add: fd_at_def)
  qed
  then show ?case by simp
next
  case (3 f fds)
  show ?case
  proof (cases k)
    case (Suc j)
    have "fd_at fds m \<noteq> None" if "m < j" for m
    proof -
      have "fd_at (Some f # fds) (Suc m) \<noteq> None" using 3(2) that Suc by blast
      then show ?thesis by (simp add: fd_at_Cons)
    qed
    then show ?thesis using "3.IH" [of j] Suc by simp
  qed simp
qed

lemma lowest_free_free: "fd_at fds (lowest_free fds) = None"
  by (induction fds rule: lowest_free.induct) (simp_all add: fd_at_Cons, simp add: fd_at_def)

definition std_open :: "fd_table \<Rightarrow> bool" where
  "std_open fds \<longleftrightarrow> (\<forall>n < 3. fd_at fds n \<noteq> None)"

lemma std_open_free: "std_open fds \<Longrightarrow> 3 \<le> lowest_free fds"
  unfolding std_open_def by (rule lowest_free_above)

lemma std_open_set: "std_open fds \<Longrightarrow> std_open (fd_set fds n (Some f))"
  by (simp add: std_open_def)

lemma log_dup:
  assumes "fd_at fds old = Some (f, b)" "lo_dup lo new" "lo_getfd lo new" "lo_setfd lo new" "old \<noteq> new"
  obtains fds' where "close_on_exec_dup lo old new fds = (0, fds')"
    "\<And>n. fd_at fds' n = (if n = new then Some (f, True) else fd_at fds n)"
proof (rule that)
  let ?fds = "fd_set (fd_set fds new (Some (f, False))) new (Some (f, True))"
  show "close_on_exec_dup lo old new fds = (0, ?fds)"
    using assms by (simp add: close_on_exec_dup_def fd_dup2_def)
  show "fd_at ?fds n = (if n = new then Some (f, True) else fd_at fds n)" for n by simp
qed

section \<open>Properties\<close>

text \<open>
  C40. A process that starts with its standard descriptors open ends up with its input closed, its output
  thrown away and its errors in the log file, both closed in programs it starts, and nothing else touched.
  When one of the files cannot be opened this is no error: all three descriptors are closed then, so the
  next files and sockets that are opened get their numbers, and the log is written into them.
\<close>

theorem log_descriptors:
  assumes "std_open fds" "initialize_log lo fds = (r, fds')"
    and "\<forall>n. lo_dup lo n \<and> lo_getfd lo n \<and> lo_setfd lo n"
  shows "r = 0 \<and> (\<forall>n > 2. fd_at fds' n = fd_at fds n)
    \<and> map (fd_at fds') [0, 1, 2] =
        (if lo_log lo \<and> lo_null lo then [None, Some (Dev_null, True), Some (DEBUG_LOGFILE, True)]
         else [None, None, None])
    \<and> lowest_free fds' = 0"
proof -
  let ?a = "lowest_free fds" and ?fds1 = "fd_set fds (lowest_free fds) (Some (DEBUG_LOGFILE, False))"
  have a: "3 \<le> ?a" "fd_at fds ?a = None" using std_open_free [OF assms(1)] lowest_free_free by auto
  let ?b = "lowest_free ?fds1" and ?c = "lowest_free fds"
  have b: "3 \<le> ?b" "fd_at ?fds1 ?b = None"
    using std_open_free [OF std_open_set [OF assms(1)]] lowest_free_free by auto
  then have ab: "?b \<noteq> ?a" "fd_at fds ?b = None" by (auto split: if_splits)
  have low: "lowest_free t = 0" if "fd_at t 0 = None" for t
  proof -
    have "lowest_free t = 0 \<or> (\<exists>f ts. t = Some f # ts)" by (cases t rule: lowest_free.cases) auto
    with that show ?thesis by (auto simp: fd_at_def)
  qed
  show ?thesis
  proof (cases "lo_log lo \<and> lo_null lo")
    case True
    let ?fds2 = "fd_set ?fds1 ?b (Some (Dev_null, False))"
    have "fd_at ?fds2 ?b = Some (Dev_null, False)" by simp
    from log_dup [OF this, of lo 1] assms(3) b(1) obtain t1 where t1:
      "close_on_exec_dup lo ?b 1 ?fds2 = (0, t1)"
      "\<And>n. fd_at t1 n = (if n = 1 then Some (Dev_null, True) else fd_at ?fds2 n)" by auto
    have "fd_at t1 ?a = Some (DEBUG_LOGFILE, False)" using t1(2) [of ?a] ab(1) a(1) by simp
    from log_dup [OF this, of lo 2] assms(3) a(1) obtain t2 where t2:
      "close_on_exec_dup lo ?a 2 t1 = (0, t2)"
      "\<And>n. fd_at t2 n = (if n = 2 then Some (DEBUG_LOGFILE, True) else fd_at t1 n)" by auto
    have r: "r = 0" "fds' = fd_close 0 (fd_close ?a (fd_close ?b t2))"
      using assms(2) True t1(1) t2(1) by (simp_all add: initialize_log_def fd_open_def Let_def)
    then show ?thesis using True a b(1) ab low by (auto simp: t1(2) t2(2))
  next
    case False
    then consider "lo_log lo" "\<not> lo_null lo" | "\<not> lo_log lo" "lo_null lo" | "\<not> lo_log lo" "\<not> lo_null lo" by blast
    then show ?thesis
    proof cases
      case 1
      with assms(2) have "r = 0" "fds' = fd_close 0 (fd_close ?a (fd_close 2 (fd_close 1 ?fds1)))"
        by (simp_all add: initialize_log_def fd_open_def Let_def)
      then show ?thesis using False a low by auto
    next
      case 2
      with assms(2) have "r = 0" "fds' = fd_close 0 (fd_close ?a (fd_close 2 (fd_close 1 (fd_set fds ?a (Some (Dev_null, False))))))"
        by (simp_all add: initialize_log_def fd_open_def Let_def)
      then show ?thesis using False a low by auto
    next
      case 3
      with assms(2) have "r = 0" "fds' = fd_close 0 (fd_close 2 (fd_close 1 fds))"
        by (simp_all add: initialize_log_def fd_open_def Let_def)
      then show ?thesis using False low by auto
    qed
  qed
qed

theorem log_descriptors_witness:
  "\<exists>fds. initialize_log \<lparr>lo_log = False, lo_null = True, lo_dup = \<lambda>_. True, lo_getfd = \<lambda>_. True, lo_setfd = \<lambda>_. True\<rparr>
       [Some (Other_file 1, False), Some (Other_file 2, False), Some (Other_file 3, False)] = (0, fds)
     \<and> fst (fd_open True (Other_file 4) fds) = Some 0"
proof -
  let ?lo = "\<lparr>lo_log = False, lo_null = True, lo_dup = \<lambda>_. True, lo_getfd = \<lambda>_. True, lo_setfd = \<lambda>_. True\<rparr>"
  let ?fds = "[Some (Other_file 1, False), Some (Other_file 2, False), Some (Other_file 3, False)]"
  have o: "std_open ?fds" by (auto simp: std_open_def fd_at_def less_Suc_eq numeral_3_eq_3)
  obtain r fds where i: "initialize_log ?lo ?fds = (r, fds)" by fastforce
  from log_descriptors [OF o i] i show ?thesis by (simp add: fd_open_def)
qed

text \<open>
  Dumping a buffer of less than a megabyte never leaves the array of a line, and prints the
  reference dump: each byte once, in rows of sixteen, in hexadecimal and as a character.
\<close>

theorem print_buf_exact:
  assumes "length buf < 2 ^ 20" "\<forall>i. length (junk i) = LOCAL_BUF"
  shows "print_buf junk buf = Some (dump buf)"
proof -
  have "length buf div 16 < 65536" using assms(1) by (simp add: less_mult_imp_div_less)
  then have "\<forall>i \<in> set [0..<length buf div 16 + 1]. length (junk i) = LOCAL_BUF \<and> i < 65536"
    using assms(2) by auto
  from print_rows_lines [OF this] show ?thesis by (simp only: print_buf_def dump_def)
qed

theorem print_buf_exact_witness:
  "print_buf (\<lambda>_. replicate 92 7) (cstr ''swap'' @ [0]) =
     Some [cstr ''0x0000: 73 77 61 70 00                                     s w a p . '']"
proof -
  have "dump (cstr ''swap'' @ [0]) = [cstr ''0x0000: 73 77 61 70 00                                     s w a p . '']"
    by code_simp
  with print_buf_exact [of "cstr ''swap'' @ [0]" "\<lambda>_. replicate 92 7"] show ?thesis
    by (simp add: LOCAL_BUF_def)
qed

end
