(* ===== verification/Spec2Isabelle.thy ===== *)
theory Spec2Isabelle
  imports Host_Stream Meminfo_Race Replay_Sync Transfer_Body Dll_Loops Malloc_Debug Md5_Rfc Daemon_Log
begin

text \<open>
  A verification development for swap-manager, the daemon that sits between a profiling host, the
  SWAP kernel module and the applications being profiled on a Tizen device (\<^verbatim>\<open>src/daemon\<close>).

  The program. A host connects over TCP and sends requests: configure, start, stop, add and remove
  instrumentation, ask for target information, binaries, processes or a screenshot. The daemon
  parses each request (\<^verbatim>\<open>da_protocol.c\<close>, \<^verbatim>\<open>da_protocol_inst.c\<close>), checks it (\<^verbatim>\<open>da_protocol_check.c\<close>), keeps
  the lists of instrumented libraries and applications (\<^verbatim>\<open>da_inst.c\<close>), sends the kernel module a packed
  copy and answers the host. Profiled applications, the targets, connect over a local socket; a thread
  for each receives its messages (\<^verbatim>\<open>target.c\<close>, \<^verbatim>\<open>thread.c\<close>, \<^verbatim>\<open>threads.c\<close>) and passes its samples to the
  driver's buffer, from where another thread copies them to the host (\<^verbatim>\<open>transfer_thread.c\<close>). A sampling
  thread adds a record of the system (\<^verbatim>\<open>sys_stat.c\<close>, \<^verbatim>\<open>device_*.c\<close>); touch and key events are recorded
  and replayed (\<^verbatim>\<open>input_events.c\<close>). The main loop and its callbacks are in \<^verbatim>\<open>daemon.c\<close>, start and end of
  the program in \<^verbatim>\<open>main.c\<close> and \<^verbatim>\<open>buffer.c\<close>.

  Conventions. The target is 32-bit and little-endian; \<^verbatim>\<open>char\<close> is unsigned. Machine integers are words
  of their width, strings are the bytes before the NUL, pointers into a message are offsets, heap
  blocks are byte lists with their length; \<^verbatim>\<open>float\<close> is modelled by its bits. Undefined behaviour (a read
  or a write outside a block, a NULL dereference) is a value of its own: \<open>None\<close>, \<open>PFault\<close>, \<open>GFault\<close> or
  \<open>Faults\<close>, apart from the errors the code reports; the end of the process is \<open>Exits\<close>. Memory allocation
  succeeds unless its failure is modelled (the parameter \<open>malloc_ok\<close>, or \<open>os_malloc\<close> of the oracle). The
  operating system is a parameter: in the session it is an oracle over the trace of calls made so far,
  in the sampler a view of the files of each sample. State that the code keeps in globals is passed
  explicitly, with what a failing operation leaves in it. Log lines are left out.

  Messages and instrumentation lists.

  \<^item> \<open>Prelude\<close>: words and bytes, little-endian encodings, C strings.
  \<^item> \<open>Protocol_Types\<close>: message numbers, error codes, feature flags, acknowledgement numbers
    (\<^verbatim>\<open>da_protocol.h\<close>, \<^verbatim>\<open>da_protocol.c\<close>).
  \<^item> \<open>Protocol_Check\<close>: the checks on received values (\<^verbatim>\<open>da_protocol_check.c\<close>).
  \<^item> \<open>Msg_Buf\<close>: the cursor into a message and the parse primitives; the locale \<open>fixed_reader\<close> is
    the contract of the fixed-width readers.
  \<^item> \<open>Conf_Replay\<close>: configuration and replay events: round trips, and when the size of the replay block
    wraps.
  \<^item> \<open>Inst_Lists\<close>: the lists of \<^verbatim>\<open>da_inst.c\<close>; \<open>Inst_Collisions\<close>: what their collision routines promise
    over the set of installed probes. \<open>Dll_Heap\<close> and \<open>Dll_Loops\<close> have the same operations on pointers: elements
    linked both ways in a heap, each operation and the loop of \<^verbatim>\<open>data_list_move_with_hash\<close> shown to compute
    the list operation, and freeing shown to free each element once.
  \<^item> \<open>Inst_Pack\<close>: the message to the kernel; the locale \<open>pack_head\<close> is the contract of the function
    pointer that packs the head of an element.
  \<^item> \<open>Inst_Parse\<close>: the parsers of \<^verbatim>\<open>da_protocol_inst.c\<close>; the locale \<open>exact_reader\<close> is the contract
    of an element parser, and \<open>head_reader\<close> extends it to heads. The accepted messages are described
    exactly, and parsing undoes packing.
  \<^item> \<open>Inst_Msgs\<close>: the start, add and remove requests, the well-formedness the requests keep, and what
    breaks it.

  The session.

  \<^item> \<open>World\<close>: the globals of the program as one record (\<open>da_t\<close>, after \<^verbatim>\<open>__da_manager\<close> in \<^verbatim>\<open>daemon.h\<close> and
    \<^verbatim>\<open>prof_session\<close>), the calls of the system as a trace with an oracle (\<open>os_t\<close>), results with faults and
    exits, labels (\<^verbatim>\<open>smack.c\<close>), \<^verbatim>\<open>ioctl_send_msg\<close> and the driver's buffer.
  \<^item> \<open>Targets\<close>: thread objects and the pool of eight targets (\<^verbatim>\<open>thread.c\<close>, \<^verbatim>\<open>target.c\<close>); the locale \<open>slot_pool\<close>
    is the contract of an allocator of slots.
  \<^item> \<open>Threads\<close>: start and stop of the sampling, replay and transfer threads, the schedule of a replay;
    \<open>Transfer_Body\<close>: the body of the transfer thread; \<open>Replay_Sync\<close>: stop and end of a replay instruction by
    instruction, with a step relation, the termination of every interleaving and its deadlock.
  \<^item> \<open>Host_Msgs\<close>: messages to the host (\<^verbatim>\<open>da_data.c\<close>, \<^verbatim>\<open>da_protocol.c\<close>). \<open>Utils\<close>: numbers in text, starting
    and killing applications, and which process a kill can hit (\<^verbatim>\<open>utils.c\<close>). \<open>Md5\<close> (\<^verbatim>\<open>md5.c\<close>): the digest by pieces
    equals the digest of the whole; \<open>Md5_Rfc\<close>: that is the digest of RFC 1321, written down independently of the
    code. \<open>Binary_Info\<close> (\<^verbatim>\<open>elf.c\<close>): the reply for binaries.
  \<^item> \<open>Session\<close>: timers, applications, start, stop and configuration (\<^verbatim>\<open>daemon.c\<close>, \<^verbatim>\<open>da_protocol.c\<close>);
    \<open>Session_Inv\<close>: the session invariant, what a stop reaches, the answers to a start.
  \<^item> \<open>Handler\<close>: every request of \<^verbatim>\<open>host_message_handler\<close>. \<open>Recv_Thread\<close>: the messages of a target.
    \<open>Input_Events\<close>: devices, their events, the replay. \<open>Daemon\<close>: the callbacks of the main loop.
    \<open>Daemon_Main\<close>: start and end of the program. \<open>Daemon_Log\<close>: where the standard descriptors go, and the
    dump of a buffer (\<^verbatim>\<open>da_debug.c\<close>, \<^verbatim>\<open>debug.c\<close>).
  \<^item> \<open>Daemon_Inv\<close>: the daemon as a transition system over its callbacks, threads' messages and requests; the locale
    \<open>event_system\<close> is the contract between such a loop and an invariant, interpreted for the session
    invariant.

  Samples of the system.

  \<^item> \<open>Scan\<close>: the functions of the C library that read text. \<open>Float32\<close>: single precision arithmetic.
  \<^item> \<open>Proc_Table\<close>: tables of processes and threads, their loads. \<open>Sys_Cpu\<close>: load and frequency of the
    processors. \<open>Device\<close>: devices and features. \<open>Sys_Stat\<close>: memory, drives, network, energy.
  \<^item> \<open>Sys_Sample\<close>: the state of the sampler, a whole sample with each of its failures, target information;
    the invariant of the sampler over any run of samples.
  \<^item> \<open>Sys_Pack\<close>: the message of a sample and the sampling thread. \<open>Daemon_System\<close>: the thread together with the
    system of \<open>Daemon_Inv\<close>, a second interpretation of \<open>event_system\<close>.
  \<^item> \<open>Daemon_Frame\<close>: the locale \<open>daemon_frame\<close> is the contract of a relation that calls and updates of the
    globals respect, and \<open>call_frame\<close> extends it; both hold for whole requests and callbacks, and are
    interpreted for two relations between the calls before and after: the sampler is left alone while its thread is running, and
    nothing is received from the host. \<open>Host_Stream\<close>: the requests as the bytes of the control socket.
  \<^item> \<open>Meminfo_Race\<close>: the one file that the main loop and the sampling thread do share, call by call.
  \<^item> \<open>Malloc_Debug\<close>: the register of allocations of debug builds (\<^verbatim>\<open>malloc_debug.c\<close>): it holds each block as
    often as it was allocated and not freed.

  Fuel. \<open>last_ptr\<close>, \<open>find_data_ptr\<close>, \<open>data_list_move_ptr\<close>, \<open>free_probe_list_ptr\<close> and \<open>free_data_list_ptr\<close> need one
  step for each element of a chain, and their lemmas are stated for at least that; \<open>disk_loop\<close> gets the length
  of its file, each round reads at least a byte of it. Every other loop is structural or has its
  termination proved. What the loops wait for (messages, signals, the results of \<^verbatim>\<open>splice\<close>) is a list of
  what arrives, so a run that never ends has runs of every length.

  Atomicity. A mutex makes each operation it guards one step; where the code relies on more than that,
  in the end of a replay and for the offset of \<^verbatim>\<open>/proc/meminfo\<close>, the steps are those of the instructions.

  Not modelled. Log lines, with \<^verbatim>\<open>get_uptime\<close> of \<^verbatim>\<open>utils.c\<close>, which only they call, and the functions that
  only print (\<^verbatim>\<open>print_sys_info\<close>, \<^verbatim>\<open>print_conf\<close>, \<^verbatim>\<open>print_replay_event\<close>): they write text and change
  nothing. Signal dispositions at the start, \<^verbatim>\<open>daemon()\<close> and the mutexes themselves are left out: calls of the system whose
  results are not used. \<^verbatim>\<open>getpid\<close> is a parameter. Freeing at the end of the program. What lies behind \<^verbatim>\<open>vconf\<close>, \<^verbatim>\<open>capi-system-info\<close>,
  \<^verbatim>\<open>libsmack\<close>, \<^verbatim>\<open>realpath\<close> and the kernel module is a parameter of the definitions that use it. The
  rest of the repository is packaging.
\<close>

end
